(* ===== verification/Prelude.thy ===== *)
theory Prelude
  imports Main "HOL-Library.Word"
begin

text \<open>
  Shared material of the development: the machine integer types, the Rust
  \<^verbatim>\<open>Result\<close> and \<^verbatim>\<open>Option\<close> combinators the source writes with
  \<^verbatim>\<open>?\<close>, \<^verbatim>\<open>map_err\<close> and \<^verbatim>\<open>ok_or\<close>, the little-endian integer
  codec of the Rust standard library (\<^verbatim>\<open>to_le_bytes\<close>, \<^verbatim>\<open>from_le_bytes\<close>),
  readers over a byte slice, and the interface \<open>wire_codec\<close> that every binary
  format of the program implements.
\<close>

unbundle bit_operations_syntax

section \<open>Types\<close>

type_synonym u8 = "8 word"
type_synonym u16 = "16 word"
type_synonym u32 = "32 word"
type_synonym u64 = "64 word"

text \<open>
  A Rust \<^verbatim>\<open>i32\<close> is the same 32 bits read with \<^const>\<open>sint\<close>; the program never
  does signed arithmetic, so only the reading differs.
\<close>

type_synonym i32 = "32 word"
type_synonym i64 = "64 word"

type_synonym bytes = "u8 list"

section \<open>Results\<close>

text \<open>
  A \<^verbatim>\<open>Result<T, E>\<close> is \<open>'e + 'a\<close> with \<^const>\<open>Inl\<close> for \<^verbatim>\<open>Err\<close>. The
  operator \<^verbatim>\<open>?\<close> is \<open>and_then\<close>: it stops at the first error.
\<close>

primrec and_then :: "'e + 'a \<Rightarrow> ('a \<Rightarrow> 'e + 'b) \<Rightarrow> 'e + 'b" where
  "and_then (Inl e) f = Inl e"
| "and_then (Inr x) f = f x"

primrec ok_or :: "'a option \<Rightarrow> 'e \<Rightarrow> 'e + 'a" where
  "ok_or None e = Inl e"
| "ok_or (Some x) e = Inr x"

primrec result_ok :: "'e + 'a \<Rightarrow> 'a option" where
  "result_ok (Inl e) = None"
| "result_ok (Inr x) = Some x"

primrec map_err :: "('e \<Rightarrow> 'f) \<Rightarrow> 'e + 'a \<Rightarrow> 'f + 'a" where
  "map_err g (Inl e) = Inl (g e)"
| "map_err g (Inr x) = Inr x"

primrec map_ok :: "('a \<Rightarrow> 'b) \<Rightarrow> 'e + 'a \<Rightarrow> 'e + 'b" where
  "map_ok g (Inl e) = Inl e"
| "map_ok g (Inr x) = Inr (g x)"

primrec is_ok :: "'e + 'a \<Rightarrow> bool" where
  "is_ok (Inl e) = False"
| "is_ok (Inr x) = True"

definition unwrap_or :: "'a option \<Rightarrow> 'a \<Rightarrow> 'a" where
  "unwrap_or m d = (case m of None \<Rightarrow> d | Some x \<Rightarrow> x)"

lemma unwrap_or_simps [simp]: "unwrap_or None d = d" "unwrap_or (Some x) d = x"
  by (simp_all add: unwrap_or_def)

lemma and_then_cong [fundef_cong]:
  "m = m' \<Longrightarrow> (\<And>x. m' = Inr x \<Longrightarrow> f x = f' x) \<Longrightarrow> and_then m f = and_then m' f'"
  by (cases m') auto

lemma and_then_eq_Inr: "and_then m f = Inr y \<longleftrightarrow> (\<exists>x. m = Inr x \<and> f x = Inr y)"
  by (cases m) auto

lemma and_then_eq_Inl:
  "and_then m f = Inl e \<longleftrightarrow> m = Inl e \<or> (\<exists>x. m = Inr x \<and> f x = Inl e)"
  by (cases m) auto

lemma and_thenE:
  assumes "and_then m f = Inr y"
  obtains x where "m = Inr x" and "f x = Inr y"
  using assms by (auto simp: and_then_eq_Inr)

lemma ok_or_eq_Inr [simp]: "ok_or m e = Inr x \<longleftrightarrow> m = Some x"
  by (cases m) auto

lemma ok_or_eq_Inl [simp]: "ok_or m e = Inl e' \<longleftrightarrow> m = None \<and> e' = e"
  by (cases m) auto

lemma result_ok_eq_Some [simp]: "result_ok m = Some x \<longleftrightarrow> m = Inr x"
  by (cases m) auto

lemma result_ok_eq_None: "result_ok m = None \<longleftrightarrow> (\<exists>e. m = Inl e)"
  by (cases m) auto

lemma map_err_eq_Inr [simp]: "map_err g m = Inr x \<longleftrightarrow> m = Inr x"
  by (cases m) auto

lemma map_ok_eq_Inr: "map_ok g m = Inr y \<longleftrightarrow> (\<exists>x. m = Inr x \<and> y = g x)"
  by (cases m) auto

lemma is_ok_iff: "is_ok m \<longleftrightarrow> (\<exists>x. m = Inr x)"
  by (cases m) auto

lemmas result_simps = and_then_eq_Inr and_then_eq_Inl map_ok_eq_Inr

section \<open>Words as bounded numbers\<close>

lemma unat_bound: "unat (w :: 'a::len word) < 2 ^ LENGTH('a)"
  by (rule unsigned_less)

lemma unat_u32_less [simp]: "unat (w :: u32) < 4294967296"
  using unat_bound [of w] by simp

lemma unat_u64_less [simp]: "unat (w :: u64) < 18446744073709551616"
  using unat_bound [of w] by simp

section \<open>Little-endian integers\<close>

text \<open>\<^verbatim>\<open>uN::to_le_bytes\<close> (the low \<open>n\<close> bytes) and \<^verbatim>\<open>uN::from_le_bytes\<close>.\<close>

primrec to_le :: "nat \<Rightarrow> 'a::len word \<Rightarrow> bytes" where
  "to_le 0 w = []"
| "to_le (Suc n) w = ucast w # to_le n (drop_bit 8 w)"

primrec from_le :: "bytes \<Rightarrow> 'a::len word" where
  "from_le [] = 0"
| "from_le (b # bs) = ucast b OR push_bit 8 (from_le bs)"

lemma length_to_le [simp]: "length (to_le n w) = n"
  by (induction n arbitrary: w) auto

lemma from_le_to_le_take_bit: "from_le (to_le n w) = take_bit (8 * n) (w :: 'a::len word)"
proof (induction n arbitrary: w)
  case 0
  then show ?case by simp
next
  case (Suc n)
  show ?case
    by (rule bit_eqI) (auto simp: Suc bit_simps bit_ucast_iff dest: bit_imp_le_length)
qed

lemma from_le_to_le:
  assumes "LENGTH('a) \<le> 8 * n"
  shows "from_le (to_le n w) = (w :: 'a::len word)"
  using assms by (simp add: from_le_to_le_take_bit take_bit_word_eq_self)

lemma to_le_cong:
  assumes "\<And>i. i < 8 * n \<Longrightarrow> bit v i = bit w i"
  shows "to_le n v = to_le n (w :: 'a::len word)"
  using assms
proof (induction n arbitrary: v w)
  case 0
  then show ?case by simp
next
  case (Suc n)
  have "ucast v = (ucast w :: u8)"
    using Suc.prems by (intro bit_eqI) (auto simp: bit_simps bit_ucast_iff)
  moreover have "to_le n (drop_bit 8 v) = to_le n (drop_bit 8 w)"
    using Suc.prems by (intro Suc.IH) (auto simp: bit_simps)
  ultimately show ?case by simp
qed

lemma to_le_from_le:
  assumes "8 * length bs \<le> LENGTH('a)"
  shows "to_le (length bs) (from_le bs :: 'a::len word) = bs"
  using assms
proof (induction bs)
  case Nil
  then show ?case by simp
next
  case (Cons b bs)
  have "ucast (ucast b OR push_bit 8 (from_le bs) :: 'a word) = b"
    using Cons.prems
    by (intro bit_eqI) (auto simp: bit_simps bit_ucast_iff dest: bit_imp_le_length)
  moreover have "to_le (length bs) (drop_bit 8 (ucast b OR push_bit 8 (from_le bs) :: 'a word))
      = to_le (length bs) (from_le bs :: 'a word)"
    by (rule to_le_cong) (use Cons.prems in \<open>auto simp: bit_simps bit_ucast_iff dest: bit_imp_le_length\<close>)
  ultimately show ?case
    using Cons by simp
qed

section \<open>Readers over a byte slice\<close>

text \<open>
  \<^verbatim>\<open>Read::read_exact\<close> on a \<^verbatim>\<open>&mut &[u8]\<close>: \<open>None\<close> when the slice is too
  short, otherwise the bytes and the rest of the slice. \<^verbatim>\<open>read_uN::<LittleEndian>\<close>
  is \<^verbatim>\<open>read_exact\<close> of \<open>N / 8\<close> bytes followed by \<^verbatim>\<open>uN::from_le_bytes\<close>.
\<close>

definition read_exact :: "nat \<Rightarrow> bytes \<Rightarrow> (bytes \<times> bytes) option" where
  "read_exact n r = (if length r < n then None else Some (take n r, drop n r))"

definition read_le :: "nat \<Rightarrow> bytes \<Rightarrow> ('a::len word \<times> bytes) option" where
  "read_le n r = map_option (\<lambda>(b, r'). (from_le b, r')) (read_exact n r)"

definition read_u8 :: "bytes \<Rightarrow> (u8 \<times> bytes) option" where
  "read_u8 r = read_le 1 r"

definition read_u16 :: "bytes \<Rightarrow> (u16 \<times> bytes) option" where
  "read_u16 r = read_le 2 r"

definition read_u32 :: "bytes \<Rightarrow> (u32 \<times> bytes) option" where
  "read_u32 r = read_le 4 r"

definition read_u64 :: "bytes \<Rightarrow> (u64 \<times> bytes) option" where
  "read_u64 r = read_le 8 r"

lemmas reads_def = read_u8_def read_u16_def read_u32_def read_u64_def

lemma read_exact_append [simp]: "length b = n \<Longrightarrow> read_exact n (b @ r) = Some (b, r)"
  by (simp add: read_exact_def)

lemma read_exact_Some:
  "read_exact n b = Some (x, r) \<longleftrightarrow> b = x @ r \<and> length x = n"
  by (auto simp: read_exact_def split: if_splits)

lemma read_exact_None: "read_exact n b = None \<longleftrightarrow> length b < n"
  by (simp add: read_exact_def)

lemma read_le_to_le:
  "LENGTH('a) \<le> 8 * n \<Longrightarrow> read_le n (to_le n (w :: 'a::len word) @ r) = Some (w, r)"
  by (simp add: read_le_def from_le_to_le)

lemma read_le_None: "read_le n b = None \<longleftrightarrow> length b < n"
  by (simp add: read_le_def read_exact_None)

lemma read_le_length: "read_le n b = Some (x, r) \<Longrightarrow> length b = n + length r"
  by (auto simp: read_le_def read_exact_Some)

lemma read_le_append: "read_le n b = Some (x, r) \<Longrightarrow> read_le n (b @ c) = Some (x, r @ c)"
  by (auto simp: read_le_def read_exact_def split: if_splits)

lemma read_u8_Cons [simp]: "read_u8 (a # r) = Some (a, r)"
  by (simp add: read_u8_def read_le_def read_exact_def)

lemma reads_to_le [simp]:
  "read_u16 (to_le 2 b @ r) = Some (b, r)"
  "read_u32 (to_le 4 c @ r) = Some (c, r)"
  "read_u64 (to_le 8 d @ r) = Some (d, r)"
  by (simp_all only: reads_def) (simp_all add: read_le_to_le)

lemma reads_None:
  "read_u8 b = None \<longleftrightarrow> b = []"
  "read_u16 b = None \<longleftrightarrow> length b < 2"
  "read_u32 b = None \<longleftrightarrow> length b < 4"
  "read_u64 b = None \<longleftrightarrow> length b < 8"
  by (auto simp: reads_def read_le_None Suc_leI le_Suc_eq)

lemma reads_length:
  "read_u8 b = Some (x, r) \<Longrightarrow> length b = 1 + length r"
  "read_u16 b = Some (y, r) \<Longrightarrow> length b = 2 + length r"
  "read_u32 b = Some (z, r) \<Longrightarrow> length b = 4 + length r"
  "read_u64 b = Some (w, r) \<Longrightarrow> length b = 8 + length r"
  by (auto simp: reads_def dest: read_le_length)

lemma reads_append:
  "read_u8 b = Some (x, r) \<Longrightarrow> read_u8 (b @ c) = Some (x, r @ c)"
  "read_u16 b = Some (y, r) \<Longrightarrow> read_u16 (b @ c) = Some (y, r @ c)"
  "read_u32 b = Some (z, r) \<Longrightarrow> read_u32 (b @ c) = Some (z, r @ c)"
  "read_u64 b = Some (w, r) \<Longrightarrow> read_u64 (b @ c) = Some (w, r @ c)"
  by (auto simp: reads_def dest: read_le_append)

lemma read_le_inverse:
  "read_le n b = Some (x :: 'a::len word, r) \<Longrightarrow> 8 * n \<le> LENGTH('a) \<Longrightarrow> b = to_le n x @ r"
  by (auto simp: read_le_def read_exact_Some to_le_from_le)

lemma reads_inverse:
  "read_u8 b = Some (x, r) \<Longrightarrow> b = x # r"
  "read_u16 b = Some (y, r) \<Longrightarrow> b = to_le 2 y @ r"
  "read_u32 b = Some (z, r) \<Longrightarrow> b = to_le 4 z @ r"
  "read_u64 b = Some (w, r) \<Longrightarrow> b = to_le 8 w @ r"
proof -
  show "read_u8 b = Some (x, r) \<Longrightarrow> b = x # r"
    by (cases b) (auto simp: reads_None(1) [THEN iffD2])
qed (auto simp: reads_def dest: read_le_inverse)

section \<open>The contract of a wire format\<close>

text \<open>
  Every binary format of the program is an encoder (the bytes the code, or its peer,
  writes) and a decoder that reads one value off the front of a slice and leaves the
  rest. The contract: decoding undoes encoding and leaves exactly what followed, a
  decode consumes something, and bytes appended behind an accepted prefix are left
  alone. The values a format can carry are those satisfying \<open>fits\<close>.
\<close>

primrec decode_n :: "nat \<Rightarrow> (bytes \<Rightarrow> ('a \<times> bytes) option) \<Rightarrow> bytes \<Rightarrow> ('a list \<times> bytes) option" where
  "decode_n 0 dec b = Some ([], b)"
| "decode_n (Suc n) dec b =
     (case dec b of None \<Rightarrow> None
      | Some (x, r) \<Rightarrow> map_option (\<lambda>(xs, r'). (x # xs, r')) (decode_n n dec r))"

locale wire_codec =
  fixes enc :: "'a \<Rightarrow> bytes" and dec :: "bytes \<Rightarrow> ('a \<times> bytes) option" and fits :: "'a \<Rightarrow> bool"
  assumes dec_enc: "fits x \<Longrightarrow> dec (enc x @ r) = Some (x, r)"
    and dec_append: "dec b = Some (x, r) \<Longrightarrow> dec (b @ c) = Some (x, r @ c)"
    and dec_consumes: "dec b = Some (x, r) \<Longrightarrow> length r < length b"
begin

text \<open>An encoding determines its value and where it ends.\<close>

lemma enc_inject: "fits x \<Longrightarrow> fits y \<Longrightarrow> enc x @ r = enc y @ s \<Longrightarrow> x = y \<and> r = s"
  by (metis dec_enc option.inject prod.inject)

lemma enc_not_Nil: "fits x \<Longrightarrow> enc x \<noteq> []"
  using dec_enc [of x "[]"] dec_consumes by fastforce

text \<open>No proper prefix of an encoding is accepted: a stream reader keeps waiting.\<close>

lemma dec_proper_prefix: "fits x \<Longrightarrow> enc x = p @ q \<Longrightarrow> q \<noteq> [] \<Longrightarrow> dec p = None"
  by (metis append.right_neutral append_is_Nil_conv dec_append dec_enc option.exhaust
      option.inject prod.inject surj_pair)

lemma decode_n_enc:
  "\<forall>x \<in> set xs. fits x \<Longrightarrow> n = length xs \<Longrightarrow>
     decode_n n dec (concat (map enc xs) @ r) = Some (xs, r)"
  by (induction xs arbitrary: n) (auto simp: dec_enc)

lemma decode_n_length: "decode_n n dec b = Some (xs, r) \<Longrightarrow> length xs = n \<and> n + length r \<le> length b"
proof (induction n arbitrary: b xs)
  case 0
  then show ?case by simp
next
  case (Suc n)
  from Suc.prems obtain x b' ys where
    d: "dec b = Some (x, b')" and n: "decode_n n dec b' = Some (ys, r)" and xs: "xs = x # ys"
    by (auto split: option.splits)
  from Suc.IH [OF n] dec_consumes [OF d] xs show ?case by auto
qed

end

interpretation u32_le: wire_codec "to_le 4" read_u32 "\<lambda>_. True"
  by unfold_locales (auto simp: reads_append dest: reads_length)

interpretation u64_le: wire_codec "to_le 8" read_u64 "\<lambda>_. True"
  by unfold_locales (auto simp: reads_append dest: reads_length)

text \<open>A list up to a separator that occurs in neither of two prefixes.\<close>

lemma split_at_separator:
  "c \<notin> set a \<Longrightarrow> c \<notin> set b \<Longrightarrow> a @ c # x = b @ c # y \<Longrightarrow> a = b \<and> x = y"
proof (induction a arbitrary: b)
  case Nil
  then show ?case by (cases b) auto
next
  case (Cons z a)
  then show ?case by (cases b) auto
qed

text \<open>What \<^const>\<open>List.map_filter\<close> lets through.\<close>

lemma set_map_filter_iff: "y \<in> set (List.map_filter f xs) \<longleftrightarrow> (\<exists>x \<in> set xs. f x = Some y)"
  by (induction xs) (auto simp: map_filter_simps split: option.splits)

end
