(* ===== verification/Text.thy ===== *)
theory Text
  imports Prelude "HOL-Library.Char_ord" "HOL-Library.List_Lexorder" "HOL-Library.Sublist"
begin

text \<open>
  The Rust standard library's string functions that the program uses. A Rust
  \<^verbatim>\<open>String\<close> or \<^verbatim>\<open>&str\<close> is a HOL \<^typ>\<open>string\<close> whose characters are the
  UTF-8 bytes of the text, so that lengths, orders and indices are those of Rust
  (\<^verbatim>\<open>str\<close> compares bytewise and is indexed by byte offset).
\<close>

section \<open>Bytes and characters\<close>

definition byte_of_char :: "char \<Rightarrow> u8" where
  "byte_of_char c = of_nat (of_char c)"

definition char_of_byte :: "u8 \<Rightarrow> char" where
  "char_of_byte b = char_of (unat b)"

definition as_bytes :: "string \<Rightarrow> bytes" where
  "as_bytes s = map byte_of_char s"

definition chars_of_bytes :: "bytes \<Rightarrow> string" where
  "chars_of_bytes b = map char_of_byte b"

lemma of_char_less [simp]: "(of_char c :: nat) < 256"
  by (metis char_of_nat nat_of_char_less_256)

lemma byte_of_char_of_byte [simp]: "byte_of_char (char_of_byte b) = b"
  using unat_bound [of b] by (simp add: byte_of_char_def char_of_byte_def of_char_of)

lemma char_of_byte_of_char [simp]: "char_of_byte (byte_of_char c) = c"
  by (simp add: byte_of_char_def char_of_byte_def unat_of_nat)

lemma as_bytes_chars_of_bytes [simp]: "as_bytes (chars_of_bytes b) = b"
  by (induction b) (auto simp: as_bytes_def chars_of_bytes_def)

lemma chars_of_bytes_as_bytes [simp]: "chars_of_bytes (as_bytes s) = s"
  by (induction s) (auto simp: as_bytes_def chars_of_bytes_def)

lemma length_as_bytes [simp]: "length (as_bytes s) = length s"
  by (simp add: as_bytes_def)

lemma length_chars_of_bytes [simp]: "length (chars_of_bytes b) = length b"
  by (simp add: chars_of_bytes_def)

section \<open>ASCII case\<close>

definition to_ascii_lowercase :: "char \<Rightarrow> char" where
  "to_ascii_lowercase c =
     (if 65 \<le> (of_char c :: nat) \<and> of_char c \<le> (90 :: nat) then char_of (of_char c + 32 :: nat) else c)"

definition eq_ignore_ascii_case :: "string \<Rightarrow> string \<Rightarrow> bool" where
  "eq_ignore_ascii_case a b \<longleftrightarrow> map to_ascii_lowercase a = map to_ascii_lowercase b"

lemma eq_ignore_ascii_case_refl [simp]: "eq_ignore_ascii_case a a"
  by (simp add: eq_ignore_ascii_case_def)

lemma eq_ignore_ascii_case_sym: "eq_ignore_ascii_case a b \<Longrightarrow> eq_ignore_ascii_case b a"
  by (simp add: eq_ignore_ascii_case_def)

lemma eq_ignore_ascii_case_trans:
  "eq_ignore_ascii_case a b \<Longrightarrow> eq_ignore_ascii_case b c \<Longrightarrow> eq_ignore_ascii_case a c"
  by (simp add: eq_ignore_ascii_case_def)

section \<open>Decimal numbers\<close>

text \<open>\<^verbatim>\<open>Display\<close> of an unsigned integer.\<close>

definition digit_char :: "nat \<Rightarrow> char" where
  "digit_char d = char_of (48 + d)"

fun dec_string :: "nat \<Rightarrow> string" where
  "dec_string n = (if n < 10 then [digit_char n] else dec_string (n div 10) @ [digit_char (n mod 10)])"

declare dec_string.simps [simp del]

definition dec_int :: "int \<Rightarrow> string" where
  "dec_int i = (if i < 0 then CHR ''-'' # dec_string (nat (- i)) else dec_string (nat i))"

text \<open>
  \<^verbatim>\<open>str::parse::<uN>()\<close>: an optional \<^verbatim>\<open>+\<close>, at least one digit, only digits, and
  a value below \<open>2 ^ w\<close> (checked at every digit, as \<^verbatim>\<open>from_str_radix\<close> does).
\<close>

definition to_digit :: "char \<Rightarrow> nat option" where
  "to_digit c = (if 48 \<le> (of_char c :: nat) \<and> of_char c \<le> (57 :: nat) then Some (of_char c - 48) else None)"

fun parse_digits :: "nat \<Rightarrow> nat \<Rightarrow> string \<Rightarrow> nat option" where
  "parse_digits w acc [] = Some acc"
| "parse_digits w acc (c # cs) =
     (case to_digit c of None \<Rightarrow> None
      | Some d \<Rightarrow> if acc * 10 + d < 2 ^ w then parse_digits w (acc * 10 + d) cs else None)"

definition parse_uint :: "nat \<Rightarrow> string \<Rightarrow> nat option" where
  "parse_uint w s =
     (let ds = (case s of c # c' # cs \<Rightarrow> if c = CHR ''+'' then c' # cs else s | _ \<Rightarrow> s)
      in if ds = [] then None else parse_digits w 0 ds)"

definition parse_u16 :: "string \<Rightarrow> u16 option" where
  "parse_u16 s = map_option of_nat (parse_uint 16 s)"

definition parse_u32 :: "string \<Rightarrow> u32 option" where
  "parse_u32 s = map_option of_nat (parse_uint 32 s)"

definition parse_u64 :: "string \<Rightarrow> u64 option" where
  "parse_u64 s = map_option of_nat (parse_uint 64 s)"

lemma of_char_digit_char: "d < 10 \<Longrightarrow> (of_char (digit_char d) :: nat) = 48 + d"
  by (simp add: digit_char_def of_char_of)

lemma to_digit_digit_char [simp]: "d < 10 \<Longrightarrow> to_digit (digit_char d) = Some d"
  by (simp add: to_digit_def of_char_digit_char)

lemma digit_char_not_plus: "d < 10 \<Longrightarrow> digit_char d \<noteq> CHR ''+''"
proof
  assume "d < 10" "digit_char d = CHR ''+''"
  then have "to_digit CHR ''+'' = Some d" by (metis to_digit_digit_char)
  then show False by (simp add: to_digit_def)
qed

lemma dec_string_not_Nil [simp]: "dec_string n \<noteq> []"
  by (subst dec_string.simps) simp

lemma dec_string_digits: "c \<in> set (dec_string n) \<Longrightarrow> \<exists>d<10. c = digit_char d"
proof (induction n rule: dec_string.induct)
  case (1 n)
  then show ?case
    by (cases "n < 10") (auto simp: dec_string.simps [of n] intro: exI [of _ "n mod 10"])
qed

lemma parse_digits_append:
  "parse_digits w acc (xs @ ys) = (case parse_digits w acc xs of None \<Rightarrow> None | Some a \<Rightarrow> parse_digits w a ys)"
  by (induction w acc xs rule: parse_digits.induct) (auto split: option.splits)

lemma parse_digits_dec_string: "n < 2 ^ w \<Longrightarrow> parse_digits w 0 (dec_string n) = Some n"
proof (induction n rule: dec_string.induct)
  case (1 n)
  show ?case
  proof (cases "n < 10")
    case True
    with "1.prems" show ?thesis by (simp add: dec_string.simps [of n])
  next
    case False
    with "1.prems" have "parse_digits w 0 (dec_string (n div 10)) = Some (n div 10)"
      by (intro "1.IH") (auto intro: le_less_trans [OF div_le_dividend])
    with False "1.prems" show ?thesis
      by (simp add: dec_string.simps [of n] parse_digits_append)
  qed
qed

lemma parse_uint_dec_string: "n < 2 ^ w \<Longrightarrow> parse_uint w (dec_string n) = Some n"
proof -
  assume n: "n < 2 ^ w"
  have "hd (dec_string n) \<noteq> CHR ''+''"
    by (metis dec_string_digits dec_string_not_Nil digit_char_not_plus list.set_sel(1))
  then have "(case dec_string n of c # c' # cs \<Rightarrow> if c = CHR ''+'' then c' # cs else dec_string n | _ \<Rightarrow> dec_string n)
      = dec_string n"
    by (auto split: list.splits)
  with n show ?thesis
    by (simp add: parse_uint_def Let_def parse_digits_dec_string)
qed

lemma dec_string_inject: "dec_string m = dec_string n \<Longrightarrow> m = n"
proof -
  assume eq: "dec_string m = dec_string n"
  have "m < 2 ^ (m + n)" "n < 2 ^ (m + n)"
    by (meson le_add1 le_add2 le_less_trans less_exp)+
  with eq show "m = n" by (metis option.inject parse_uint_dec_string)
qed

lemma parse_u16_dec_string [simp]: "parse_u16 (dec_string (unat p)) = Some p"
  using unat_bound [of p] by (simp add: parse_u16_def parse_uint_dec_string)

lemma parse_u32_dec_string [simp]: "parse_u32 (dec_string (unat x)) = Some x"
  using unat_bound [of x] by (simp add: parse_u32_def parse_uint_dec_string)

lemma parse_u64_dec_string [simp]: "parse_u64 (dec_string (unat x)) = Some x"
  using unat_bound [of x] by (simp add: parse_u64_def parse_uint_dec_string)

section \<open>Hexadecimal\<close>

text \<open>\<^verbatim>\<open>{b:02x}\<close> of one byte and of a byte string.\<close>

definition hex_digit :: "nat \<Rightarrow> char" where
  "hex_digit d = (if d < 10 then char_of (48 + d) else char_of (87 + d))"

definition hex_byte :: "u8 \<Rightarrow> string" where
  "hex_byte b = [hex_digit (unat b div 16), hex_digit (unat b mod 16)]"

definition hex_bytes :: "bytes \<Rightarrow> string" where
  "hex_bytes bs = concat (map hex_byte bs)"

lemma hex_digit_inject: "d < 16 \<Longrightarrow> e < 16 \<Longrightarrow> hex_digit d = hex_digit e \<Longrightarrow> d = e"
proof -
  assume d: "d < 16" and e: "e < 16" and eq: "hex_digit d = hex_digit e"
  from eq have "(of_char (hex_digit d) :: nat) = of_char (hex_digit e)" by simp
  with d e show "d = e" by (auto simp: hex_digit_def of_char_of split: if_splits)
qed

lemma hex_byte_inject: "hex_byte a = hex_byte b \<Longrightarrow> a = b"
proof -
  assume "hex_byte a = hex_byte b"
  then have "unat a div 16 = unat b div 16" "unat a mod 16 = unat b mod 16"
    using unat_bound [of a] unat_bound [of b]
    by (auto simp: hex_byte_def intro!: hex_digit_inject)
  then have "unat a = unat b" by (metis div_mult_mod_eq)
  then show "a = b" by (simp add: word_unat_eq_iff)
qed

lemma length_hex_bytes [simp]: "length (hex_bytes bs) = 2 * length bs"
  by (induction bs) (auto simp: hex_bytes_def hex_byte_def)

lemma hex_bytes_inject: "hex_bytes xs = hex_bytes ys \<Longrightarrow> xs = ys"
proof (induction xs arbitrary: ys)
  case Nil
  then show ?case by (cases ys) (auto simp: hex_bytes_def hex_byte_def)
next
  case (Cons x xs)
  then obtain y ys' where ys: "ys = y # ys'" by (cases ys) (auto simp: hex_bytes_def hex_byte_def)
  with Cons.prems have "hex_byte x = hex_byte y" "hex_bytes xs = hex_bytes ys'"
    by (auto simp: hex_bytes_def hex_byte_def)
  with ys show ?case using Cons.IH hex_byte_inject by blast
qed

text \<open>Only digits occur in a number.\<close>

lemma dec_string_no:
  assumes "to_digit c = None"
  shows "c \<notin> set (dec_string n)"
proof
  assume "c \<in> set (dec_string n)"
  then obtain d where "d < 10" "c = digit_char d" using dec_string_digits by blast
  with assms show False by simp
qed

lemma separators_no_digits: "to_digit CHR '':'' = None" "to_digit CHR ''/'' = None" "to_digit CHR ''_'' = None"
  by (simp_all add: to_digit_def)

lemma dec_string_unat_inject: "dec_string (unat x) = dec_string (unat y) \<longleftrightarrow> x = y"
  using dec_string_inject by (auto simp: word_unat_eq_iff)

end
