(* ===== verification/Btree.thy ===== *)
theory Btree
  imports Text
begin

text \<open>
  \<^verbatim>\<open>BTreeMap<String, V>\<close> of the Rust standard library, as the association list that
  iterating over it yields: strictly increasing keys in byte order. The contract of a
  keyed map is a locale; the ordered map meets it, and the program's other keyed stores
  (the credential store and the manifest cache) meet it as well.
\<close>

section \<open>The contract of a keyed map\<close>

locale keyed_map =
  fixes empty :: 'm
    and update :: "'k \<Rightarrow> 'v \<Rightarrow> 'm \<Rightarrow> 'm"
    and lookup :: "'m \<Rightarrow> 'k \<Rightarrow> 'v option"
    and invar :: "'m \<Rightarrow> bool"
  assumes invar_empty: "invar empty"
    and invar_update: "invar m \<Longrightarrow> invar (update k v m)"
    and lookup_empty: "lookup empty k = None"
    and lookup_update: "invar m \<Longrightarrow> lookup (update k v m) k' = (if k' = k then Some v else lookup m k')"
begin

lemma lookup_update_map: "invar m \<Longrightarrow> lookup (update k v m) = (lookup m)(k \<mapsto> v)"
  by (rule ext) (simp add: lookup_update)

lemma invar_fold: "invar m \<Longrightarrow> invar (fold (\<lambda>(k, v). update k v) kvs m)"
  by (induction kvs arbitrary: m) (auto simp: invar_update)

text \<open>Building a map by inserting in sequence: the last entry of a key wins.\<close>

lemma lookup_fold:
  "invar m \<Longrightarrow> lookup (fold (\<lambda>(k, v). update k v) kvs m) = lookup m ++ map_of (rev kvs)"
proof (induction kvs arbitrary: m)
  case Nil
  then show ?case by simp
next
  case (Cons kv kvs)
  then show ?case
    by (cases kv) (auto simp: invar_update lookup_update_map map_add_def fun_eq_iff split: option.splits)
qed

lemma lookup_update_twice: "invar m \<Longrightarrow> lookup (update k w (update k v m)) = lookup (update k w m)"
  by (simp add: invar_update lookup_update_map)

end

section \<open>The ordered map\<close>

type_synonym 'v btree = "(string \<times> 'v) list"

fun btree_insert :: "string \<Rightarrow> 'v \<Rightarrow> 'v btree \<Rightarrow> 'v btree" where
  "btree_insert k v [] = [(k, v)]"
| "btree_insert k v ((k', v') # m) =
     (if k < k' then (k, v) # (k', v') # m
      else if k = k' then (k, v) # m
      else (k', v') # btree_insert k v m)"

definition btree_get :: "'v btree \<Rightarrow> string \<Rightarrow> 'v option" where
  "btree_get m k = map_of m k"

definition btree_wf :: "'v btree \<Rightarrow> bool" where
  "btree_wf m \<longleftrightarrow> sorted_wrt (<) (map fst m)"

definition btree_of_list :: "(string \<times> 'v) list \<Rightarrow> 'v btree" where
  "btree_of_list kvs = fold (\<lambda>(k, v). btree_insert k v) kvs []"

lemma btree_wf_simps [simp]:
  "btree_wf []"
  "btree_wf ((k, v) # m) \<longleftrightarrow> (\<forall>x \<in> set m. k < fst x) \<and> btree_wf m"
  by (auto simp: btree_wf_def)

lemma set_btree_insert_subset: "set (btree_insert k v m) \<subseteq> insert (k, v) (set m)"
  by (induction k v m rule: btree_insert.induct) auto

lemma keys_btree_insert: "fst ` set (btree_insert k v m) = insert k (fst ` set m)"
  by (induction k v m rule: btree_insert.induct) auto

lemma btree_wf_insert: "btree_wf m \<Longrightarrow> btree_wf (btree_insert k v m)"
proof (induction k v m rule: btree_insert.induct)
  case (2 k v k' v' m)
  then show ?case
    using set_btree_insert_subset [of k v m] by (auto dest: less_trans)
qed simp

lemma btree_get_insert:
  "btree_wf m \<Longrightarrow> btree_get (btree_insert k v m) k' = (if k' = k then Some v else btree_get m k')"
  unfolding btree_get_def
proof (induction k v m rule: btree_insert.induct)
  case (2 k v k1 v1 m)
  then show ?case by (auto dest: less_imp_neq)
qed simp

interpretation btree: keyed_map "[]" btree_insert btree_get btree_wf
  by unfold_locales (auto simp: btree_wf_insert btree_get_insert btree_get_def [of "[]"])

text \<open>Inserting a key behind all others appends: a sorted source is rebuilt in order.\<close>

lemma btree_insert_last: "\<forall>x \<in> set m. fst x < k \<Longrightarrow> btree_insert k v m = m @ [(k, v)]"
  by (induction k v m rule: btree_insert.induct) (auto dest: less_asym)

lemma btree_of_list_append [simp]:
  "btree_of_list (xs @ [(k, v)]) = btree_insert k v (btree_of_list xs)"
  by (simp add: btree_of_list_def)

lemma btree_of_list_Nil [simp]: "btree_of_list [] = []"
  by (simp add: btree_of_list_def)

lemma btree_of_list_wf [simp]: "btree_wf (btree_of_list xs)"
  by (simp add: btree_of_list_def btree.invar_fold)

lemma btree_wf_append:
  "btree_wf (xs @ ys) \<longleftrightarrow> btree_wf xs \<and> btree_wf ys \<and> (\<forall>x \<in> set xs. \<forall>y \<in> set ys. fst x < fst y)"
  by (auto simp: btree_wf_def sorted_wrt_append)

lemma btree_of_list_sorted: "btree_wf m \<Longrightarrow> btree_of_list m = m"
proof (induction m rule: rev_induct)
  case (snoc x m)
  then show ?case by (cases x) (auto simp: btree_wf_append btree_insert_last)
qed simp

end
