(* ===== verification/Utf8.thy ===== *)
theory Utf8
  imports Text
begin

text \<open>
  UTF-8 in the Rust standard library: \<^verbatim>\<open>str::from_utf8\<close> and
  \<^verbatim>\<open>String::from_utf8_lossy\<close>, byte for byte as \<^verbatim>\<open>core::str::lossy\<close> walks a slice
  (one \<^verbatim>\<open>U+FFFD\<close> for each maximal invalid prefix), and the whitespace trimming of
  \<^verbatim>\<open>str::trim\<close>.
\<close>

section \<open>Walking a byte slice\<close>

text \<open>\<^verbatim>\<open>safe_get\<close>: a byte, or 0 behind the end.\<close>

definition safe_get :: "bytes \<Rightarrow> nat \<Rightarrow> u8" where
  "safe_get bs i = (if i < length bs then bs ! i else 0)"

definition is_cont :: "u8 \<Rightarrow> bool" where
  "is_cont b \<longleftrightarrow> 0x80 \<le> b \<and> b \<le> 0xBF"

text \<open>Which second bytes may follow the lead byte of a 3-byte and of a 4-byte sequence.\<close>

definition second3_ok :: "u8 \<Rightarrow> u8 \<Rightarrow> bool" where
  "second3_ok b c \<longleftrightarrow>
     (b = 0xE0 \<and> 0xA0 \<le> c \<and> c \<le> 0xBF) \<or> (0xE1 \<le> b \<and> b \<le> 0xEC \<and> is_cont c)
     \<or> (b = 0xED \<and> 0x80 \<le> c \<and> c \<le> 0x9F) \<or> (0xEE \<le> b \<and> b \<le> 0xEF \<and> is_cont c)"

definition second4_ok :: "u8 \<Rightarrow> u8 \<Rightarrow> bool" where
  "second4_ok b c \<longleftrightarrow>
     (b = 0xF0 \<and> 0x90 \<le> c \<and> c \<le> 0xBF) \<or> (0xF1 \<le> b \<and> b \<le> 0xF3 \<and> is_cont c)
     \<or> (b = 0xF4 \<and> 0x80 \<le> c \<and> c \<le> 0x8F)"

definition lead2 :: "u8 \<Rightarrow> bool" where
  "lead2 b \<longleftrightarrow> 0xC2 \<le> b \<and> b \<le> 0xDF"

definition lead3 :: "u8 \<Rightarrow> bool" where
  "lead3 b \<longleftrightarrow> 0xE0 \<le> b \<and> b \<le> 0xEF"

definition lead4 :: "u8 \<Rightarrow> bool" where
  "lead4 b \<longleftrightarrow> 0xF0 \<le> b \<and> b \<le> 0xF4"

text \<open>
  The next step over a non-empty slice, from its first four bytes: how many bytes it
  takes, and whether they are one valid character or an invalid sequence.
\<close>

definition utf8_char :: "u8 \<Rightarrow> u8 \<Rightarrow> u8 \<Rightarrow> u8 \<Rightarrow> nat \<times> bool" where
  "utf8_char b c1 c2 c3 =
     (if b < 0x80 then (1, True)
      else if lead2 b then (if is_cont c1 then (2, True) else (1, False))
      else if lead3 b then
        (if \<not> second3_ok b c1 then (1, False) else if is_cont c2 then (3, True) else (2, False))
      else if lead4 b then
        (if \<not> second4_ok b c1 then (1, False) else if \<not> is_cont c2 then (2, False)
         else if is_cont c3 then (4, True) else (3, False))
      else (1, False))"

definition utf8_step :: "bytes \<Rightarrow> nat \<times> bool" where
  "utf8_step bs = utf8_char (safe_get bs 0) (safe_get bs 1) (safe_get bs 2) (safe_get bs 3)"

lemma utf8_step_pos: "0 < fst (utf8_step bs)"
  by (simp add: utf8_step_def utf8_char_def)

definition REPLACEMENT :: bytes where
  "REPLACEMENT = [0xEF, 0xBF, 0xBD]"

function lossy :: "bytes \<Rightarrow> bytes" where
  "lossy bs =
     (if bs = [] then []
      else (if snd (utf8_step bs) then take (fst (utf8_step bs)) bs else REPLACEMENT)
        @ lossy (drop (fst (utf8_step bs)) bs))"
  by pat_completeness auto
termination
  by (relation "measure length") (auto simp: utf8_step_pos intro!: diff_less)

function utf8_valid :: "bytes \<Rightarrow> bool" where
  "utf8_valid bs =
     (if bs = [] then True
      else if snd (utf8_step bs) then utf8_valid (drop (fst (utf8_step bs)) bs) else False)"
  by pat_completeness auto
termination
  by (relation "measure length") (auto simp: utf8_step_pos intro!: diff_less)

declare lossy.simps [simp del] utf8_valid.simps [simp del]

definition from_utf8 :: "bytes \<Rightarrow> string option" where
  "from_utf8 bs = (if utf8_valid bs then Some (chars_of_bytes bs) else None)"

definition from_utf8_lossy :: "bytes \<Rightarrow> string" where
  "from_utf8_lossy bs = chars_of_bytes (lossy bs)"

text \<open>A Rust string: UTF-8 by the type's invariant.\<close>

definition valid_str :: "string \<Rightarrow> bool" where
  "valid_str s \<longleftrightarrow> utf8_valid (as_bytes s)"

text \<open>A character depends on its own bytes only, and none of them lies behind the end.\<close>

lemma utf8_char_local:
  assumes "snd (utf8_char b c1 c2 c3)" and "fst (utf8_char b c1 c2 c3) = n"
    and "1 < n \<Longrightarrow> d1 = c1" "2 < n \<Longrightarrow> d2 = c2" "3 < n \<Longrightarrow> d3 = c3"
  shows "utf8_char b d1 d2 d3 = utf8_char b c1 c2 c3"
  using assms unfolding utf8_char_def by (simp split: if_splits)

lemma utf8_char_ends:
  assumes "snd (utf8_char b c1 c2 c3)" and "fst (utf8_char b c1 c2 c3) = n"
  shows "n \<le> 4 \<and> (1 < n \<longrightarrow> c1 \<noteq> 0) \<and> (2 < n \<longrightarrow> c2 \<noteq> 0) \<and> (3 < n \<longrightarrow> c3 \<noteq> 0)"
proof -
  have "\<not> is_cont 0" "\<not> second3_ok b 0" "\<not> second4_ok b 0"
    by (simp_all add: is_cont_def second3_ok_def second4_ok_def)
  with assms show ?thesis unfolding utf8_char_def by (auto split: if_splits)
qed

lemma utf8_step_le:
  assumes "snd (utf8_step bs)" "bs \<noteq> []"
  shows "fst (utf8_step bs) \<le> length bs"
proof (rule ccontr)
  assume "\<not> ?thesis"
  then have lt: "length bs < fst (utf8_step bs)" by simp
  from utf8_char_ends [OF assms(1) [unfolded utf8_step_def] refl, folded utf8_step_def]
  have e: "fst (utf8_step bs) \<le> 4" "1 < fst (utf8_step bs) \<longrightarrow> safe_get bs 1 \<noteq> 0"
    "2 < fst (utf8_step bs) \<longrightarrow> safe_get bs 2 \<noteq> 0" "3 < fst (utf8_step bs) \<longrightarrow> safe_get bs 3 \<noteq> 0"
    by auto
  have "0 < length bs" using assms(2) by simp
  then consider "length bs = 1" | "length bs = 2" | "length bs = 3" | "4 \<le> length bs"
    by linarith
  then show False
    using lt e by cases (auto simp: safe_get_def)
qed

lemma utf8_step_append:
  assumes "snd (utf8_step bs)" "bs \<noteq> []"
  shows "utf8_step (bs @ cs) = utf8_step bs"
proof -
  have get: "safe_get (bs @ cs) i = safe_get bs i" if "i < fst (utf8_step bs)" for i
    using that utf8_step_le [OF assms] by (simp add: safe_get_def nth_append)
  have 0: "safe_get (bs @ cs) 0 = safe_get bs 0"
    using utf8_step_pos by (rule get)
  show ?thesis
    unfolding utf8_step_def 0
    by (rule utf8_char_local [OF assms(1) [unfolded utf8_step_def] refl])
      (rule get, simp add: utf8_step_def)+
qed

lemma lossy_Nil [simp]: "lossy [] = []" and utf8_valid_Nil [simp]: "utf8_valid []"
  by (simp_all add: lossy.simps [of "[]"] utf8_valid.simps [of "[]"])

lemma lossy_valid: "utf8_valid bs \<Longrightarrow> lossy bs = bs"
proof (induction bs rule: lossy.induct)
  case (1 bs)
  then show ?case
    by (cases "bs = []") (simp_all add: lossy.simps [of bs] utf8_valid.simps [of bs] split: if_splits)
qed

lemma utf8_valid_append: "utf8_valid as \<Longrightarrow> utf8_valid bs \<Longrightarrow> utf8_valid (as @ bs)"
proof (induction "as" rule: utf8_valid.induct)
  case (1 "as")
  show ?case
  proof (cases "as = []")
    case True
    with 1 show ?thesis by simp
  next
    case False
    with "1.prems" have s: "snd (utf8_step as)" and v: "utf8_valid (drop (fst (utf8_step as)) as)"
      by (simp_all add: utf8_valid.simps [of "as"] split: if_splits)
    from "1.IH" [OF False s v "1.prems"(2)] utf8_step_append [OF s False, of bs]
      utf8_step_le [OF s False] s False
    show ?thesis by (simp add: utf8_valid.simps [of "as @ bs"])
  qed
qed

lemma utf8_valid_char:
  assumes "bs \<noteq> []" "snd (utf8_step bs)"
  shows "utf8_valid (take (fst (utf8_step bs)) bs)"
proof -
  let ?n = "fst (utf8_step bs)"
  have n: "?n \<le> length bs" by (rule utf8_step_le [OF assms(2,1)])
  have get: "safe_get (take ?n bs) i = safe_get bs i" if "i < ?n" for i
    using that n by (simp add: safe_get_def)
  have 0: "safe_get (take ?n bs) 0 = safe_get bs 0"
    using utf8_step_pos by (rule get)
  have "utf8_step (take ?n bs) = utf8_step bs"
    unfolding utf8_step_def [of "take ?n bs"] 0 unfolding utf8_step_def [of bs]
    by (rule utf8_char_local [OF assms(2) [unfolded utf8_step_def] refl])
      (rule get [unfolded utf8_step_def], simp)+
  with assms(2) n show ?thesis
    by (simp add: utf8_valid.simps [of "take ?n bs"])
qed

lemma utf8_valid_REPLACEMENT: "utf8_valid REPLACEMENT"
  by (subst utf8_valid.simps)
     (simp add: REPLACEMENT_def utf8_step_def utf8_char_def lead2_def lead3_def safe_get_def is_cont_def second3_ok_def)

text \<open>Whatever the bytes, the lossy string is a string, and it changes nothing in valid text.\<close>

lemma utf8_valid_lossy: "utf8_valid (lossy bs)"
proof (induction bs rule: lossy.induct)
  case (1 bs)
  then show ?case
    by (cases "bs = []")
       (auto simp: lossy.simps [of bs] intro!: utf8_valid_append utf8_valid_char utf8_valid_REPLACEMENT)
qed

lemma valid_str_lossy [simp]: "valid_str (from_utf8_lossy bs)"
  by (simp add: valid_str_def from_utf8_lossy_def utf8_valid_lossy)

lemma from_utf8_lossy_as_bytes [simp]: "valid_str s \<Longrightarrow> from_utf8_lossy (as_bytes s) = s"
  by (simp add: valid_str_def from_utf8_lossy_def lossy_valid)

lemma from_utf8_as_bytes [simp]: "valid_str s \<Longrightarrow> from_utf8 (as_bytes s) = Some s"
  by (simp add: valid_str_def from_utf8_def)

lemma ascii_step: "b < 0x80 \<Longrightarrow> utf8_step (b # bs) = (1, True)"
  by (simp add: utf8_step_def utf8_char_def safe_get_def)

lemma utf8_valid_ascii_Cons: "b < 0x80 \<Longrightarrow> utf8_valid (b # bs) \<longleftrightarrow> utf8_valid bs"
  by (subst utf8_valid.simps) (simp add: ascii_step)

lemma utf8_valid_ascii: "\<forall>b \<in> set bs. b < 0x80 \<Longrightarrow> utf8_valid bs"
  by (induction bs) (simp_all add: utf8_valid_ascii_Cons)

end
