(* ===== verification/Key_Value.thy ===== *)
theory Key_Value
  imports Btree Utf8
begin

text \<open>
  The binary KeyValue format of \<^verbatim>\<open>crates/steam/src/types/key_value.rs\<close>: the tree type
  with its accessors and the tagged-node parser. The \<^verbatim>\<open>winnow\<close> combinators the parser
  is written with (\<^verbatim>\<open>le_u8\<close>, \<^verbatim>\<open>le_i32\<close>, \<^verbatim>\<open>take_until\<close>, \<^verbatim>\<open>context\<close>) act on a complete
  slice: they fail with a recoverable error when bytes are missing, and \<^verbatim>\<open>context\<close> adds a
  label to the error that passes through it.
\<close>

section \<open>Tags\<close>

datatype kv_tag =
    TNone | TString | TInt32 | TFloat32 | TPointer | TWideString | TColor | TUInt64
  | TEnd | TInt64 | TAltEnd

definition kv_tag_from_u8 :: "u8 \<Rightarrow> kv_tag option" where
  "kv_tag_from_u8 b =
     (if b = 0x00 then Some TNone
      else if b = 0x01 then Some TString
      else if b = 0x02 then Some TInt32
      else if b = 0x03 then Some TFloat32
      else if b = 0x04 then Some TPointer
      else if b = 0x05 then Some TWideString
      else if b = 0x06 then Some TColor
      else if b = 0x07 then Some TUInt64
      else if b = 0x08 then Some TEnd
      else if b = 0x0A then Some TInt64
      else if b = 0x0B then Some TAltEnd
      else None)"

text \<open>The discriminants of the enum (\<^verbatim>\<open>#[repr(u8)]\<close>).\<close>

primrec kv_tag_repr :: "kv_tag \<Rightarrow> u8" where
  "kv_tag_repr TNone = 0x00"
| "kv_tag_repr TString = 0x01"
| "kv_tag_repr TInt32 = 0x02"
| "kv_tag_repr TFloat32 = 0x03"
| "kv_tag_repr TPointer = 0x04"
| "kv_tag_repr TWideString = 0x05"
| "kv_tag_repr TColor = 0x06"
| "kv_tag_repr TUInt64 = 0x07"
| "kv_tag_repr TEnd = 0x08"
| "kv_tag_repr TInt64 = 0x0A"
| "kv_tag_repr TAltEnd = 0x0B"

definition kv_is_end :: "kv_tag \<Rightarrow> bool" where
  "kv_is_end t \<longleftrightarrow> t = TEnd \<or> t = TAltEnd"

section \<open>Trees\<close>

text \<open>A \<^verbatim>\<open>Float32\<close> is kept as its 32 bits: the program only carries it.\<close>

datatype kv_value =
    KvString string
  | KvInt32 i32
  | KvFloat32 "32 word"
  | KvUInt64 u64
  | KvInt64 i64
  | KvColor i32
  | KvPointer i32
  | KvChildren "(string \<times> key_value) list"
and key_value = KeyValue (kv_key: string) (kv_value: kv_value)

definition kv_get :: "key_value \<Rightarrow> string \<Rightarrow> key_value option" where
  "kv_get kv key =
     (case kv_value kv of
        KvChildren children \<Rightarrow> map_option snd (find (\<lambda>(k, _). eq_ignore_ascii_case k key) children)
      | _ \<Rightarrow> None)"

definition kv_as_str :: "key_value \<Rightarrow> string option" where
  "kv_as_str kv = (case kv_value kv of KvString s \<Rightarrow> Some s | _ \<Rightarrow> None)"

definition kv_as_i32 :: "key_value \<Rightarrow> i32 option" where
  "kv_as_i32 kv = (case kv_value kv of KvInt32 v \<Rightarrow> Some v | _ \<Rightarrow> None)"

definition kv_as_u64 :: "key_value \<Rightarrow> u64 option" where
  "kv_as_u64 kv = (case kv_value kv of KvUInt64 v \<Rightarrow> Some v | _ \<Rightarrow> None)"

section \<open>The binary parser\<close>

datatype kv_context = Label string | Expected string

text \<open>\<^verbatim>\<open>ErrMode\<close>: a recoverable error or one that stops every alternative.\<close>

datatype kv_error = Backtrack "kv_context list" | Cut "kv_context list"

primrec add_context :: "kv_context \<Rightarrow> kv_error \<Rightarrow> kv_error" where
  "add_context c (Backtrack cs) = Backtrack (cs @ [c])"
| "add_context c (Cut cs) = Cut (cs @ [c])"

definition with_context :: "string \<Rightarrow> kv_error + 'a \<Rightarrow> kv_error + 'a" where
  "with_context l m = map_err (add_context (Label l)) m"

definition kv_int :: "(bytes \<Rightarrow> ('a \<times> bytes) option) \<Rightarrow> bytes \<Rightarrow> kv_error + 'a \<times> bytes" where
  "kv_int rd input = ok_or (rd input) (Backtrack [])"

text \<open>\<^verbatim>\<open>take_until(0.., b)\<close>: up to the first such byte, which must be there and stays in the input.\<close>

fun take_until :: "u8 \<Rightarrow> bytes \<Rightarrow> (bytes \<times> bytes) option" where
  "take_until t [] = None"
| "take_until t (b # bs) =
     (if b = t then Some ([], b # bs)
      else map_option (\<lambda>(p, r). (b # p, r)) (take_until t bs))"

definition parse_null_string :: "bytes \<Rightarrow> kv_error + string \<times> bytes" where
  "parse_null_string input =
     and_then (with_context ''null-terminated string'' (ok_or (take_until 0 input) (Backtrack [])))
       (\<lambda>(bytes, input).
     and_then (kv_int read_u8 input) (\<lambda>(_, input).
     Inr (from_utf8_lossy bytes, input)))"

lemma take_until_Some:
  "take_until t b = Some (p, r) \<Longrightarrow> b = p @ r \<and> t \<notin> set p \<and> (\<exists>r'. r = t # r')"
  by (induction t b arbitrary: p r rule: take_until.induct) (auto split: if_splits)

lemma take_until_append: "t \<notin> set p \<Longrightarrow> take_until t (p @ t # r) = Some (p, t # r)"
  by (induction p) auto

lemma parse_null_string_shorter:
  "parse_null_string input = Inr (s, r) \<Longrightarrow> length r < length input"
  by (auto simp: parse_null_string_def with_context_def kv_int_def elim!: and_thenE
      dest!: take_until_Some reads_length)

text \<open>
  A node is its tag byte, its name and the value the tag announces; a section reads nodes
  until an end tag or the end of the input. The value of a section is read by the parser
  passed as \<open>sec\<close>, which below is \<open>parse_children\<close> with an empty map.
\<close>

definition parse_value ::
  "(bytes \<Rightarrow> kv_error + key_value btree \<times> bytes) \<Rightarrow> kv_tag \<Rightarrow> bytes \<Rightarrow> kv_error + kv_value \<times> bytes" where
  "parse_value sec tag input =
     (case tag of
        TNone \<Rightarrow> map_ok (\<lambda>(c, r). (KvChildren c, r)) (sec input)
      | TString \<Rightarrow> map_ok (\<lambda>(s, r). (KvString s, r))
          (with_context ''kv string value'' (parse_null_string input))
      | TInt32 \<Rightarrow> map_ok (\<lambda>(x, r). (KvInt32 x, r))
          (with_context ''kv int32 value'' (kv_int read_u32 input))
      | TFloat32 \<Rightarrow> map_ok (\<lambda>(x, r). (KvFloat32 x, r))
          (with_context ''kv float32 value'' (kv_int read_u32 input))
      | TPointer \<Rightarrow> map_ok (\<lambda>(x, r). (KvPointer x, r))
          (with_context ''kv pointer value'' (kv_int read_u32 input))
      | TColor \<Rightarrow> map_ok (\<lambda>(x, r). (KvColor x, r))
          (with_context ''kv color value'' (kv_int read_u32 input))
      | TUInt64 \<Rightarrow> map_ok (\<lambda>(x, r). (KvUInt64 x, r))
          (with_context ''kv uint64 value'' (kv_int read_u64 input))
      | TInt64 \<Rightarrow> map_ok (\<lambda>(x, r). (KvInt64 x, r))
          (with_context ''kv int64 value'' (kv_int read_u64 input))
      | TWideString \<Rightarrow> Inr (KvString '''', input)
      | TEnd \<Rightarrow> Inl (Cut [Expected ''value node, not section terminator'', Label ''kv node type''])
      | TAltEnd \<Rightarrow> Inl (Cut [Expected ''value node, not section terminator'', Label ''kv node type'']))"

lemma parse_value_cong [fundef_cong]:
  "tag = tag' \<Longrightarrow> input = input' \<Longrightarrow> (tag' = TNone \<Longrightarrow> sec input' = sec' input') \<Longrightarrow>
     parse_value sec tag input = parse_value sec' tag' input'"
  by (cases tag') (auto simp: parse_value_def)

lemma parse_value_length:
  assumes "parse_value sec tag input = Inr (v, r)"
    and "\<And>c. tag = TNone \<Longrightarrow> sec input = Inr (c, r) \<Longrightarrow> length r \<le> length input"
  shows "length r \<le> length input"
  using assms by (cases tag)
    (auto simp: parse_value_def with_context_def kv_int_def map_ok_eq_Inr
      dest!: reads_length parse_null_string_shorter)

definition starts_with_end :: "bytes \<Rightarrow> bool" where
  "starts_with_end input =
     (case input of [] \<Rightarrow> False
      | b # _ \<Rightarrow> (case kv_tag_from_u8 b of None \<Rightarrow> False | Some t \<Rightarrow> kv_is_end t))"

function parse_node :: "bytes \<Rightarrow> kv_error + key_value \<times> bytes"
  and parse_children :: "key_value btree \<Rightarrow> bytes \<Rightarrow> kv_error + key_value btree \<times> bytes" where
  "parse_node input =
     and_then (with_context ''kv type tag'' (kv_int read_u8 input)) (\<lambda>(type_byte, input).
     and_then (ok_or (kv_tag_from_u8 type_byte)
        (Cut [Expected ''valid KV type tag (0x00-0x08, 0x0A, 0x0B)'', Label ''kv type tag''])) (\<lambda>tag.
     and_then (with_context ''kv key name'' (parse_null_string input)) (\<lambda>(key, input).
     and_then (parse_value (\<lambda>input. parse_children [] input) tag input) (\<lambda>(value, input).
     Inr (KeyValue key value, input)))))"
| "parse_children children input =
     (if input = [] then Inr (children, input)
      else if starts_with_end input then Inr (children, tl input)
      else and_then (parse_node input) (\<lambda>(node, input).
           parse_children (btree_insert (kv_key node) node children) input))"
  by pat_completeness auto

text \<open>Every node consumes input, so both recursions end.\<close>

lemma parse_node_prefix:
  "with_context ''kv type tag'' (kv_int read_u8 input) = Inr (tb, i1) \<Longrightarrow>
   with_context ''kv key name'' (parse_null_string i1) = Inr (key, i2) \<Longrightarrow>
   length i2 + 2 \<le> length input"
  by (auto simp: with_context_def kv_int_def dest!: reads_length parse_null_string_shorter)

lemma parse_node_shorter_aux:
  "parse_node_parse_children_dom (Inl input) \<Longrightarrow>
     \<forall>kv r. parse_node input = Inr (kv, r) \<longrightarrow> length r + 2 \<le> length input"
  "parse_node_parse_children_dom (Inr (children, input')) \<Longrightarrow>
     \<forall>c r. parse_children children input' = Inr (c, r) \<longrightarrow> length r \<le> length input'"
proof (induction input and children input' rule: parse_node_parse_children.pinduct)
  case (1 input)
  have "length r + 2 \<le> length input" if p: "parse_node input = Inr (kv, r)" for kv r
  proof -
    from p 1(1) obtain tb i1 tag key i2 v where
      a: "with_context ''kv type tag'' (kv_int read_u8 input) = Inr (tb, i1)"
      and t: "kv_tag_from_u8 tb = Some tag"
      and k: "with_context ''kv key name'' (parse_null_string i1) = Inr (key, i2)"
      and v: "parse_value (\<lambda>input. parse_children [] input) tag i2 = Inr (v, r)"
      by (auto simp: parse_node.psimps elim!: and_thenE)
    from 1(2) [OF a refl _ k refl] t have
      "tag = TNone \<Longrightarrow> parse_children [] i2 = Inr (c, r) \<Longrightarrow> length r \<le> length i2" for c
      by auto
    with v have "length r \<le> length i2" by (rule parse_value_length)
    with parse_node_prefix [OF a k] show ?thesis by simp
  qed
  then show ?case by simp
next
  case (2 children input)
  have "length r \<le> length input" if "parse_children children input = Inr (c, r)" for c r
    using that 2
    by (force simp: parse_children.psimps and_then_eq_Inr split: if_splits)
  then show ?case by simp
qed

termination parse_node
proof (relation "measure (\<lambda>x. case x of Inl input \<Rightarrow> 2 * length input
    | Inr (children, input) \<Rightarrow> 2 * length input + 1)", goal_cases)
  case 1
  then show ?case by simp
next
  case (2 input a type_byte i1 tag b key i2)
  then show ?case
    by (auto dest!: parse_node_prefix)
next
  case (3 children input)
  then show ?case by simp
next
  case (4 children input a node r)
  then show ?case
    using parse_node_shorter_aux(1) [of input] by force
qed

declare parse_node.simps [simp del] parse_children.simps [simp del]

definition parse_binary_kv :: "bytes \<Rightarrow> kv_error + key_value \<times> bytes" where
  "parse_binary_kv input = parse_node input"

section \<open>Well-formed trees and the bytes that carry them\<close>

text \<open>A name or string value: text that a NUL can end.\<close>

definition name_ok :: "string \<Rightarrow> bool" where
  "name_ok s \<longleftrightarrow> valid_str s \<and> 0 \<notin> set (as_bytes s)"

lemma size_child: "x \<in> set m \<Longrightarrow> size (snd x) < Suc (size_list (size_prod (\<lambda>_. 0) size) m)"
proof (induction m)
  case (Cons y m)
  then show ?case by (cases x; cases y) auto
qed simp

function kv_wf :: "key_value \<Rightarrow> bool" and kv_value_wf :: "kv_value \<Rightarrow> bool" where
  "kv_wf (KeyValue k v) \<longleftrightarrow> name_ok k \<and> kv_value_wf v"
| "kv_value_wf (KvString s) \<longleftrightarrow> name_ok s"
| "kv_value_wf (KvChildren m) \<longleftrightarrow>
     btree_wf m \<and> (\<forall>x \<in> set m. kv_key (snd x) = fst x \<and> kv_wf (snd x))"
| "kv_value_wf (KvInt32 i) \<longleftrightarrow> True"
| "kv_value_wf (KvFloat32 f) \<longleftrightarrow> True"
| "kv_value_wf (KvUInt64 i) \<longleftrightarrow> True"
| "kv_value_wf (KvInt64 i) \<longleftrightarrow> True"
| "kv_value_wf (KvColor i) \<longleftrightarrow> True"
| "kv_value_wf (KvPointer i) \<longleftrightarrow> True"
  by pat_completeness auto
termination
  by (relation "measure (case_sum size size)") (auto dest: size_child)

primrec kv_tag_of :: "kv_value \<Rightarrow> kv_tag" where
  "kv_tag_of (KvString s) = TString"
| "kv_tag_of (KvInt32 i) = TInt32"
| "kv_tag_of (KvFloat32 f) = TFloat32"
| "kv_tag_of (KvUInt64 i) = TUInt64"
| "kv_tag_of (KvInt64 i) = TInt64"
| "kv_tag_of (KvColor i) = TColor"
| "kv_tag_of (KvPointer i) = TPointer"
| "kv_tag_of (KvChildren m) = TNone"

text \<open>The bytes Steam sends for a tree.\<close>

definition null_string :: "string \<Rightarrow> bytes" where
  "null_string s = as_bytes s @ [0]"

function kv_write :: "key_value \<Rightarrow> bytes" and kv_value_write :: "kv_value \<Rightarrow> bytes" where
  "kv_write (KeyValue k v) = kv_tag_repr (kv_tag_of v) # null_string k @ kv_value_write v"
| "kv_value_write (KvString s) = null_string s"
| "kv_value_write (KvChildren m) = concat (map (\<lambda>x. kv_write (snd x)) m) @ [kv_tag_repr TEnd]"
| "kv_value_write (KvInt32 i) = to_le 4 i"
| "kv_value_write (KvFloat32 f) = to_le 4 f"
| "kv_value_write (KvUInt64 i) = to_le 8 i"
| "kv_value_write (KvInt64 i) = to_le 8 i"
| "kv_value_write (KvColor i) = to_le 4 i"
| "kv_value_write (KvPointer i) = to_le 4 i"
  by pat_completeness auto
termination
  by (relation "measure (case_sum size size)") (auto dest: size_child)

section \<open>Lemmas\<close>

lemma kv_tag_from_repr [simp]: "kv_tag_from_u8 (kv_tag_repr t) = Some t"
  by (cases t) (simp_all add: kv_tag_from_u8_def)

lemma kv_tag_repr_from: "kv_tag_from_u8 b = Some t \<Longrightarrow> kv_tag_repr t = b"
  by (auto simp: kv_tag_from_u8_def split: if_splits)

lemma kv_is_end_tag_of [simp]: "\<not> kv_is_end (kv_tag_of v)"
  by (cases v) (simp_all add: kv_is_end_def)

lemma parse_null_string_write [simp]:
  "name_ok s \<Longrightarrow> parse_null_string (null_string s @ r) = Inr (s, r)"
  by (simp add: parse_null_string_def null_string_def with_context_def kv_int_def name_ok_def
      take_until_append)

lemma lossy_no_nul: "0 \<notin> set bs \<Longrightarrow> 0 \<notin> set (lossy bs)"
proof (induction bs rule: lossy.induct)
  case (1 bs)
  then show ?case
    by (cases "bs = []")
      (auto simp: lossy.simps [of bs] REPLACEMENT_def dest: in_set_takeD in_set_dropD)
qed

lemma parse_null_string_result:
  "parse_null_string b = Inr (s, r) \<Longrightarrow> name_ok s \<and> suffix r b \<and> r \<noteq> b"
  by (auto simp: parse_null_string_def with_context_def kv_int_def name_ok_def
      from_utf8_lossy_def lossy_no_nul valid_str_def utf8_valid_lossy suffix_def
      elim!: and_thenE dest!: take_until_Some)

lemma with_context_Inr [simp]: "with_context l m = Inr x \<longleftrightarrow> m = Inr x"
  by (simp add: with_context_def)

lemma kv_int_Inr: "kv_int rd b = Inr x \<longleftrightarrow> rd b = Some x"
  by (simp add: kv_int_def)

lemma with_context_ok [simp]: "with_context l (Inr x) = Inr x"
  by (simp add: with_context_def)

lemma kv_int_reads [simp]:
  "kv_int read_u8 (b # r) = Inr (b, r)"
  "kv_int read_u32 (to_le 4 x @ r) = Inr (x, r)"
  "kv_int read_u64 (to_le 8 y @ r) = Inr (y, r)"
  by (simp_all add: kv_int_def)

lemma parse_node_write:
  assumes "name_ok k"
    and "parse_value (parse_children []) (kv_tag_of v) b = Inr (v, r)"
  shows "parse_node (kv_tag_repr (kv_tag_of v) # null_string k @ b) = Inr (KeyValue k v, r)"
  using assms by (simp add: parse_node.simps)

lemma starts_with_end_write [simp]: "\<not> starts_with_end (kv_write n @ r)"
  by (cases n) (simp add: starts_with_end_def)

lemma kv_write_not_Nil [simp]: "kv_write n \<noteq> []"
  by (cases n) simp

text \<open>A section is read node by node into the map, whatever ends it.\<close>

lemma parse_children_nodes:
  assumes "\<And>x r. x \<in> set m \<Longrightarrow> parse_node (kv_write (snd x) @ r) = Inr (snd x, r)"
    and "\<And>x. x \<in> set m \<Longrightarrow> kv_key (snd x) = fst x"
    and "\<And>c. parse_children c e = Inr (c, r)"
  shows "parse_children c (concat (map (\<lambda>x. kv_write (snd x)) m) @ e)
    = Inr (fold (\<lambda>(k, v). btree_insert k v) m c, r)"
  using assms
proof (induction m arbitrary: c)
  case Nil
  then show ?case by simp
next
  case (Cons x m)
  have "parse_children c (concat (map (\<lambda>x. kv_write (snd x)) (x # m)) @ e)
      = parse_children (btree_insert (fst x) (snd x) c) (concat (map (\<lambda>x. kv_write (snd x)) m) @ e)"
    using Cons.prems(1) [of x "concat (map (\<lambda>x. kv_write (snd x)) m) @ e"] Cons.prems(2) [of x]
    by (simp add: parse_children.simps [of c])
  also have "\<dots> = Inr (fold (\<lambda>(k, v). btree_insert k v) m (btree_insert (fst x) (snd x) c), r)"
    using Cons.prems by (intro Cons.IH) auto
  finally show ?case by (cases x) simp
qed

lemma parse_children_end:
  "parse_children c (kv_tag_repr TEnd # r) = Inr (c, r)" "parse_children c [] = Inr (c, [])"
  by (simp_all add: parse_children.simps [of c] starts_with_end_def kv_is_end_def del: kv_tag_repr.simps)

lemma kv_roundtrip:
  "kv_wf kv \<Longrightarrow> parse_node (kv_write kv @ r) = Inr (kv, r)"
  "kv_value_wf v \<Longrightarrow> parse_value (parse_children []) (kv_tag_of v) (kv_value_write v @ r) = Inr (v, r)"
proof (induction kv and v arbitrary: r and r rule: kv_wf_kv_value_wf.induct)
  case (1 k v)
  then show ?case by (simp add: parse_node_write)
next
  case (3 m)
  then have "parse_children [] (concat (map (\<lambda>x. kv_write (snd x)) m) @ kv_tag_repr TEnd # r)
      = Inr (fold (\<lambda>(k, v). btree_insert k v) m [], r)"
    by (intro parse_children_nodes parse_children_end) auto
  with 3 show ?case
    using btree_of_list_sorted [of m] by (simp add: parse_value_def btree_of_list_def)
qed (simp_all add: parse_value_def)

text \<open>Whatever is accepted is well-formed, and the input left over is the end of the input.\<close>

lemma parse_value_wf:
  assumes "parse_value sec tag b = Inr (v, r)"
    and "\<And>c. tag = TNone \<Longrightarrow> sec b = Inr (c, r) \<Longrightarrow> kv_value_wf (KvChildren c) \<and> suffix r b"
  shows "kv_value_wf v \<and> suffix r b"
proof -
  have "name_ok []" by (simp add: name_ok_def valid_str_def as_bytes_def)
  then show ?thesis
    using assms by (cases tag)
      (auto simp: parse_value_def map_ok_eq_Inr kv_int_Inr suffix_def
        dest!: parse_null_string_result reads_inverse simp del: kv_value_wf.simps(2))
qed

lemma parse_wf:
  "parse_node b = Inr (kv, r) \<Longrightarrow> kv_wf kv \<and> suffix r b \<and> length r + 2 \<le> length b"
  "parse_children m b' = Inr (c, r') \<Longrightarrow> kv_value_wf (KvChildren m) \<Longrightarrow>
     kv_value_wf (KvChildren c) \<and> suffix r' b'"
proof (induction b and m b' arbitrary: kv r and c r' rule: parse_node_parse_children.induct)
  case (1 input)
  from 1(2) obtain tb i1 tag key i2 v where
    a: "with_context ''kv type tag'' (kv_int read_u8 input) = Inr (tb, i1)"
    and t: "kv_tag_from_u8 tb = Some tag"
    and k: "with_context ''kv key name'' (parse_null_string i1) = Inr (key, i2)"
    and v: "parse_value (\<lambda>input. parse_children [] input) tag i2 = Inr (v, r)"
    and kv: "kv = KeyValue key v"
    by (auto simp: parse_node.simps [of input] elim!: and_thenE)
  have v: "kv_value_wf v" "suffix r i2"
    using parse_value_wf [OF v] 1(1) [OF a refl _ k refl] t by auto
  from a k have "name_ok key" "suffix i1 input" "suffix i2 i1"
    by (auto simp: kv_int_Inr suffix_def dest!: parse_null_string_result reads_inverse)
  with v kv suffix_length_le [of r i2] parse_node_prefix [OF a k] show ?case
    by (auto dest: suffix_order.trans)
next
  case (2 children input)
  show ?case
  proof (cases "input = [] \<or> starts_with_end input")
    case True
    with "2.prems" show ?thesis
      by (auto simp: parse_children.simps [of children] split: if_splits)
  next
    case False
    with "2.prems"(1) obtain n i where n: "parse_node input = Inr (n, i)"
      and c: "parse_children (btree_insert (kv_key n) n children) i = Inr (c, r')"
      by (auto simp: parse_children.simps [of children] elim!: and_thenE)
    from False "2.IH"(1) [OF _ _ n] have wf: "kv_wf n" "suffix i input" by auto
    with "2.prems"(2) have "kv_value_wf (KvChildren (btree_insert (kv_key n) n children))"
      using set_btree_insert_subset [of "kv_key n" n children]
      by (auto simp: btree_wf_insert)
    with False "2.IH"(2) [OF _ _ n refl c] have "kv_value_wf (KvChildren c)" "suffix r' i"
      by blast+
    with wf(2) show ?thesis by (metis suffix_order.trans)
  qed
qed

section \<open>Properties\<close>

text \<open>
  C29: the binary parser inverts the wire format exactly on the well-formed trees (sections
  ordered by name, every entry stored under its own name, names and strings free of NUL):
  a tree is read back from its bytes, with the bytes behind it untouched, if and only if
  it is well-formed.
\<close>

theorem parse_binary_kv_roundtrip:
  "parse_binary_kv (kv_write kv @ r) = Inr (kv, r) \<longleftrightarrow> kv_wf kv"
  using kv_roundtrip(1) parse_wf(1) by (auto simp: parse_binary_kv_def)

text \<open>
  Whatever bytes the parser accepts, hostile ones included, the tree it returns is
  well-formed and the input it leaves is the end of the input it was given, at least two
  bytes shorter.
\<close>

theorem parse_binary_kv_wf:
  assumes "parse_binary_kv b = Inr (kv, r)"
  shows "kv_wf kv \<and> suffix r b \<and> length r + 2 \<le> length b"
  using assms parse_wf(1) [of b kv r] by (simp add: parse_binary_kv_def)

theorem parse_binary_kv_wf_witness:
  "kv_wf (KeyValue ''a'' (KvInt32 7)) \<and> suffix [9] [2, 97, 0, 7, 0, 0, 0, 9 :: u8]"
proof -
  have "parse_binary_kv [2, 97, 0, 7, 0, 0, 0, 9] = Inr (KeyValue ''a'' (KvInt32 7), [9])"
    by code_simp
  from parse_binary_kv_wf [OF this] show ?thesis by simp
qed

text \<open>
  The end of the input closes an open section: a response that ends before the last
  end tag yields the same tree as the complete one.
\<close>

theorem parse_binary_kv_missing_end:
  assumes "kv_wf (KeyValue k (KvChildren m))"
  shows "parse_binary_kv (butlast (kv_write (KeyValue k (KvChildren m)))) = Inr (KeyValue k (KvChildren m), [])"
proof -
  let ?b = "concat (map (\<lambda>x. kv_write (snd x)) m)"
  have "parse_children [] (?b @ []) = Inr (fold (\<lambda>(k, v). btree_insert k v) m [], [])"
    by (intro parse_children_nodes parse_children_end) (use assms in \<open>auto simp: kv_roundtrip\<close>)
  with assms have "parse_children [] ?b = Inr (m, [])"
    using btree_of_list_sorted [of m] by (simp add: btree_of_list_def)
  then have "parse_value (parse_children []) (kv_tag_of (KvChildren m)) ?b = Inr (KvChildren m, [])"
    by (simp add: parse_value_def)
  with assms parse_node_write [of k "KvChildren m"] show ?thesis
    by (simp add: parse_binary_kv_def butlast_append null_string_def)
qed

theorem parse_binary_kv_missing_end_witness:
  "parse_binary_kv [0, 114, 0, 7, 98, 0, 5, 0, 0, 0, 0, 0, 0, 0]
    = Inr (KeyValue ''r'' (KvChildren [(''b'', KeyValue ''b'' (KvUInt64 5))]), [])"
proof -
  let ?kv = "KeyValue ''r'' (KvChildren [(''b'', KeyValue ''b'' (KvUInt64 5))])"
  have "kv_wf ?kv"
    by code_simp
  from parse_binary_kv_missing_end [OF this]
  have "parse_binary_kv (butlast (kv_write ?kv)) = Inr (?kv, [])" .
  moreover have "butlast (kv_write ?kv) = [0, 114, 0, 7, 98, 0, 5, 0, 0, 0, 0, 0, 0, 0]"
    by code_simp
  ultimately show ?thesis by simp
qed

end
