(* ===== verification/Trim.thy ===== *)
theory Trim
  imports Text
begin

text \<open>
  White space and the \<^verbatim>\<open>trim\<close> family of \<^verbatim>\<open>str\<close>.
\<close>

section \<open>White space\<close>

text \<open>
  \<^verbatim>\<open>char::is_whitespace\<close>: the UTF-8 sequences of the characters with the Unicode property
  White_Space. \<^verbatim>\<open>str::trim_start\<close>, \<^verbatim>\<open>str::trim_end\<close> and \<^verbatim>\<open>str::trim\<close> strip them; no
  sequence ends or begins inside another character of a valid string, so comparing bytes is
  comparing characters.
\<close>

definition white_seqs :: "string list" where
  "white_seqs =
    [[CHR 0x09], [CHR 0x0A], [CHR 0x0B], [CHR 0x0C], [CHR 0x0D], [CHR 0x20],
     [CHR 0xC2, CHR 0x85], [CHR 0xC2, CHR 0xA0], [CHR 0xE1, CHR 0x9A, CHR 0x80],
     [CHR 0xE2, CHR 0x80, CHR 0x80], [CHR 0xE2, CHR 0x80, CHR 0x81],
     [CHR 0xE2, CHR 0x80, CHR 0x82], [CHR 0xE2, CHR 0x80, CHR 0x83],
     [CHR 0xE2, CHR 0x80, CHR 0x84], [CHR 0xE2, CHR 0x80, CHR 0x85],
     [CHR 0xE2, CHR 0x80, CHR 0x86], [CHR 0xE2, CHR 0x80, CHR 0x87],
     [CHR 0xE2, CHR 0x80, CHR 0x88], [CHR 0xE2, CHR 0x80, CHR 0x89],
     [CHR 0xE2, CHR 0x80, CHR 0x8A], [CHR 0xE2, CHR 0x80, CHR 0xA8],
     [CHR 0xE2, CHR 0x80, CHR 0xA9], [CHR 0xE2, CHR 0x80, CHR 0xAF],
     [CHR 0xE2, CHR 0x81, CHR 0x9F], [CHR 0xE3, CHR 0x80, CHR 0x80]]"

definition strip_one :: "string list \<Rightarrow> string \<Rightarrow> string option" where
  "strip_one ws s = map_option (\<lambda>w. drop (length w) s) (find (\<lambda>w. prefix w s) ws)"

lemma strip_one_shorter:
  assumes "strip_one ws s = Some r" "[] \<notin> set ws"
  shows "length r < length s"
proof -
  from assms(1) obtain w where w: "find (\<lambda>w. prefix w s) ws = Some w" and r: "r = drop (length w) s"
    by (auto simp: strip_one_def)
  from w have "w \<in> set ws" and p: "prefix w s" by (auto simp: find_Some_iff)
  with assms(2) have "w \<noteq> []" by auto
  with p r show ?thesis by (auto simp: prefix_def)
qed

function strip_all :: "string list \<Rightarrow> string \<Rightarrow> string" where
  "strip_all ws s =
     (if [] \<in> set ws then s
      else case strip_one ws s of None \<Rightarrow> s | Some r \<Rightarrow> strip_all ws r)"
  by pat_completeness auto
termination
  by (relation "measure (length \<circ> snd)") (auto dest: strip_one_shorter)

declare strip_all.simps [simp del]

definition trim_start :: "string \<Rightarrow> string" where
  "trim_start s = strip_all white_seqs s"

definition trim_end :: "string \<Rightarrow> string" where
  "trim_end s = rev (strip_all (map rev white_seqs) (rev s))"

definition trim :: "string \<Rightarrow> string" where
  "trim s = trim_end (trim_start s)"

lemma strip_all_length: "length (strip_all ws s) \<le> length s"
proof (induction ws s rule: strip_all.induct)
  case (1 ws s)
  show ?case
  proof (cases "[] \<in> set ws \<or> strip_one ws s = None")
    case True
    then show ?thesis by (auto simp: strip_all.simps [of ws s])
  next
    case False
    then obtain r where "[] \<notin> set ws" "strip_one ws s = Some r" by auto
    with 1 [of r] strip_one_shorter [of ws s r] show ?thesis
      by (simp add: strip_all.simps [of ws s])
  qed
qed

lemma trim_start_length: "length (trim_start s) \<le> length s"
  by (simp add: trim_start_def strip_all_length)

lemma strip_all_keep: "strip_one ws s = None \<Longrightarrow> strip_all ws s = s"
  by (simp add: strip_all.simps [of ws s])

lemma strip_all_step: "[] \<notin> set ws \<Longrightarrow> strip_one ws s = Some r \<Longrightarrow> strip_all ws s = strip_all ws r"
  by (simp add: strip_all.simps [of ws s])

lemma strip_one_None: "strip_one ws s = None \<longleftrightarrow> (\<forall>w \<in> set ws. \<not> prefix w s)"
  by (auto simp: strip_one_def find_None_iff)

text \<open>A byte that begins (or ends) no white space character.\<close>

definition white_start :: "char \<Rightarrow> bool" where
  "white_start c \<longleftrightarrow> c \<in> hd ` set white_seqs"

definition white_end :: "char \<Rightarrow> bool" where
  "white_end c \<longleftrightarrow> c \<in> last ` set white_seqs"

lemma white_seqs_not_Nil: "[] \<notin> set white_seqs"
  by (simp add: white_seqs_def)

lemma trim_start_keep: "\<not> white_start c \<Longrightarrow> trim_start (c # s) = c # s"
  unfolding trim_start_def
  by (rule strip_all_keep, unfold strip_one_None white_start_def)
     (metis image_eqI list.sel(1) prefix_Cons white_seqs_not_Nil)

lemma trim_start_Nil [simp]: "trim_start [] = []"
  unfolding trim_start_def
  by (rule strip_all_keep) (use white_seqs_not_Nil in \<open>auto simp: strip_one_None\<close>)

lemma trim_end_keep: "\<not> white_end c \<Longrightarrow> trim_end (s @ [c]) = s @ [c]"
proof -
  assume c: "\<not> white_end c"
  have "strip_one (map rev white_seqs) (c # rev s) = None"
    unfolding strip_one_None
  proof (rule ballI, rule notI)
    fix w assume "w \<in> set (map rev white_seqs)" and p: "prefix w (c # rev s)"
    then obtain v where v: "v \<in> set white_seqs" "w = rev v" by auto
    with white_seqs_not_Nil have "v \<noteq> []" by auto
    with p v have "last v = c" by (cases v rule: rev_cases) auto
    with v c show False by (auto simp: white_end_def)
  qed
  then show ?thesis by (simp add: trim_end_def strip_all_keep)
qed

lemma white_ascii:
  "\<not> white_start (CHR 0x22)" "\<not> white_start (CHR 0x7B)" "\<not> white_start (CHR 0x7D)"
  "\<not> white_end (CHR 0x22)" "\<not> white_end (CHR 0x7D)" "\<not> white_start (CHR 0x2F)"
  by (simp_all add: white_start_def white_end_def white_seqs_def)

lemma strip_one_blank:
  "strip_one white_seqs (CHR 0x09 # s) = Some s"
  "strip_one white_seqs (CHR 0x0A # s) = Some s"
  "strip_one white_seqs (CHR 0x0D # s) = Some s"
  "strip_one white_seqs (CHR 0x20 # s) = Some s"
  unfolding strip_one_def white_seqs_def by simp_all

lemma trim_start_blank [simp]:
  "trim_start (CHR 0x09 # s) = trim_start s"
  "trim_start (CHR 0x0A # s) = trim_start s"
  "trim_start (CHR 0x0D # s) = trim_start s"
  "trim_start (CHR 0x20 # s) = trim_start s"
  unfolding trim_start_def by (rule strip_all_step [OF white_seqs_not_Nil], rule strip_one_blank)+

end
