(* ===== verification/Key_Value_Text.thy ===== *)
theory Key_Value_Text
  imports Key_Value Trim
begin

text \<open>
  The text KeyValue format of \<^verbatim>\<open>crates/steam/src/types/key_value.rs\<close>. The parser walks a
  \<^verbatim>\<open>&mut &str\<close>: every function takes the text and returns the text it leaves. Quotes,
  braces, slashes and escapes are ASCII, so a byte equal to one of them is that character.
\<close>

abbreviation QUOTE :: char where "QUOTE \<equiv> CHR 0x22"
abbreviation BACKSLASH :: char where "BACKSLASH \<equiv> CHR 0x5C"
abbreviation NEWLINE :: char where "NEWLINE \<equiv> CHR 0x0A"
abbreviation TAB :: char where "TAB \<equiv> CHR 0x09"
abbreviation OPEN_BRACE :: char where "OPEN_BRACE \<equiv> CHR 0x7B"
abbreviation CLOSE_BRACE :: char where "CLOSE_BRACE \<equiv> CHR 0x7D"

section \<open>The parser\<close>

datatype text_kv_error = TUnexpectedEof | ExpectedQuote | ExpectedOpenBrace

definition starts_with :: "char \<Rightarrow> string \<Rightarrow> bool" where
  "starts_with c s \<longleftrightarrow> prefix [c] s"

text \<open>The text behind the first newline, nothing when there is none.\<close>

definition skip_line :: "string \<Rightarrow> string" where
  "skip_line s = drop 1 (dropWhile (\<lambda>c. c \<noteq> NEWLINE) s)"

function skip_whitespace_and_comments :: "string \<Rightarrow> string" where
  "skip_whitespace_and_comments input =
     (let input = trim_start input
      in if prefix ''//'' input then skip_whitespace_and_comments (skip_line input) else input)"
  by pat_completeness auto
termination
proof (relation "measure length", goal_cases)
  case (2 input x)
  have "length (skip_line x) < length x"
  proof -
    have "0 < length x" using 2 by auto
    with length_dropWhile_le [of "\<lambda>c. c \<noteq> NEWLINE" x] show ?thesis
      unfolding skip_line_def length_drop by linarith
  qed
  with 2 trim_start_length [of input] show ?case by simp
qed simp

declare skip_whitespace_and_comments.simps [simp del]

text \<open>The loop of \<^verbatim>\<open>parse_quoted_string\<close> behind the opening quote.\<close>

fun quoted_loop :: "string \<Rightarrow> string \<Rightarrow> text_kv_error + string \<times> string" where
  "quoted_loop result [] = Inl TUnexpectedEof"
| "quoted_loop result (c # cs) =
     (if c = QUOTE then Inr (result, cs)
      else if c = BACKSLASH then
        (case cs of
           [] \<Rightarrow> Inl TUnexpectedEof
         | e # es \<Rightarrow>
             (if e = CHR ''n'' then quoted_loop (result @ [NEWLINE]) es
              else if e = CHR ''t'' then quoted_loop (result @ [TAB]) es
              else if e = BACKSLASH then quoted_loop (result @ [BACKSLASH]) es
              else if e = QUOTE then quoted_loop (result @ [QUOTE]) es
              else quoted_loop (result @ [BACKSLASH, e]) es))
      else quoted_loop (result @ [c]) cs)"

definition parse_quoted_string :: "string \<Rightarrow> text_kv_error + string \<times> string" where
  "parse_quoted_string input =
     (let input = skip_whitespace_and_comments input
      in if \<not> starts_with QUOTE input then Inl ExpectedQuote else quoted_loop [] (drop 1 input))"

lemma skip_length: "length (skip_whitespace_and_comments s) \<le> length s"
proof (induction s rule: skip_whitespace_and_comments.induct)
  case (1 s)
  have "length (skip_line (trim_start s)) \<le> length s"
    using length_dropWhile_le [of "\<lambda>c. c \<noteq> NEWLINE" "trim_start s"] trim_start_length [of s]
    by (simp add: skip_line_def)
  with 1 trim_start_length [of s] show ?case
    by (auto simp: skip_whitespace_and_comments.simps [of s] Let_def)
qed

lemma quoted_loop_length: "quoted_loop acc cs = Inr (s, r) \<Longrightarrow> length r < length cs"
  by (induction acc cs rule: quoted_loop.induct) (auto split: if_splits list.splits)

lemma parse_quoted_length: "parse_quoted_string i = Inr (s, r) \<Longrightarrow> length r + 2 \<le> length i"
  using skip_length [of i]
  by (auto simp: parse_quoted_string_def Let_def starts_with_def prefix_def split: if_splits
      dest!: quoted_loop_length)

function parse_text_node :: "string \<Rightarrow> text_kv_error + key_value \<times> string"
  and parse_text_children :: "key_value btree \<Rightarrow> string \<Rightarrow> text_kv_error + key_value btree \<times> string" where
  "parse_text_node input =
     (let input = skip_whitespace_and_comments input
      in and_then (parse_quoted_string input) (\<lambda>(key, input).
         let input = skip_whitespace_and_comments input
         in if starts_with OPEN_BRACE input
            then and_then (parse_text_children [] (drop 1 input)) (\<lambda>(children, input).
                 Inr (KeyValue key (KvChildren children), input))
            else if starts_with QUOTE input
            then and_then (parse_quoted_string input) (\<lambda>(value, input).
                 Inr (KeyValue key (KvString value), input))
            else Inl TUnexpectedEof))"
| "parse_text_children children input =
     (let input = skip_whitespace_and_comments input
      in if input = [] then Inr (children, input)
         else if starts_with CLOSE_BRACE input then Inr (children, drop 1 input)
         else and_then (parse_text_node input) (\<lambda>(node, input).
              parse_text_children (btree_insert (kv_key node) node children) input))"
  by pat_completeness auto

lemma parse_key_length:
  "parse_quoted_string (skip_whitespace_and_comments i) = Inr (s, r) \<Longrightarrow>
     length (skip_whitespace_and_comments r) + 2 \<le> length i"
  using skip_length [of i] skip_length [of r] by (auto dest!: parse_quoted_length)

lemma parse_text_shorter_aux:
  "parse_text_node_parse_text_children_dom (Inl input) \<Longrightarrow>
     \<forall>kv r. parse_text_node input = Inr (kv, r) \<longrightarrow> length r + 2 \<le> length input"
  "parse_text_node_parse_text_children_dom (Inr (children, input')) \<Longrightarrow>
     \<forall>c r. parse_text_children children input' = Inr (c, r) \<longrightarrow> length r \<le> length input'"
proof (induction input and children input' rule: parse_text_node_parse_text_children.pinduct)
  case (1 input)
  have "length r + 2 \<le> length input" if p: "parse_text_node input = Inr (kv, r)" for kv r
  proof -
    from p 1(1) obtain key i where
      k: "parse_quoted_string (skip_whitespace_and_comments input) = Inr (key, i)"
      by (auto simp: parse_text_node.psimps Let_def elim!: and_thenE)
    let ?i = "skip_whitespace_and_comments i"
    have sub: "parse_text_children [] (drop (Suc 0) ?i) = Inr (c, r) \<Longrightarrow> starts_with OPEN_BRACE ?i \<Longrightarrow>
        length r \<le> length ?i" for c r
      using 1(2) [OF refl k refl refl] by (force simp del: drop_Suc_Cons)
    from p 1(1) k parse_key_length [OF k] show ?thesis
      by (auto simp: parse_text_node.psimps Let_def elim!: and_thenE split: if_splits
          dest!: sub parse_quoted_length)
  qed
  then show ?case by simp
next
  case (2 children input)
  have "length r \<le> length input" if p: "parse_text_children children input = Inr (c, r)" for c r
  proof (cases "skip_whitespace_and_comments input = []
      \<or> starts_with CLOSE_BRACE (skip_whitespace_and_comments input)")
    case True
    with p 2(1) skip_length [of input] show ?thesis
      by (auto simp: parse_text_children.psimps Let_def split: if_splits)
  next
    case False
    with p 2(1) obtain n i where
      n: "parse_text_node (skip_whitespace_and_comments input) = Inr (n, i)"
      and c: "parse_text_children (btree_insert (kv_key n) n children) i = Inr (c, r)"
      by (auto simp: parse_text_children.psimps Let_def elim!: and_thenE)
    from False 2(2) [OF refl] n have "length i + 2 \<le> length (skip_whitespace_and_comments input)"
      by blast
    moreover from False 2(3) [OF refl _ _ n refl] c have "length r \<le> length i" by blast
    ultimately show ?thesis using skip_length [of input] by simp
  qed
  then show ?case by simp
qed

termination parse_text_node
proof (relation "measure (\<lambda>x. case x of Inl input \<Rightarrow> 2 * length input
    | Inr (children, input) \<Rightarrow> 2 * length input + 1)", goal_cases)
  case 1
  then show ?case by simp
next
  case (2 input x a key r xa)
  then show ?case by (auto dest!: parse_key_length)
next
  case (3 children input x)
  then show ?case using skip_length [of input] by (simp add: less_Suc_eq_le)
next
  case (4 children input x a node r)
  then show ?case
    using parse_text_shorter_aux(1) [of x] skip_length [of input] by force
qed

declare parse_text_node.simps [simp del] parse_text_children.simps [simp del]

definition parse_text_kv :: "string \<Rightarrow> text_kv_error + key_value" where
  "parse_text_kv input = map_ok fst (parse_text_node (trim input))"

section \<open>Writing a tree as text\<close>

text \<open>
  The text form carries strings and sections only. A string may hold any character: the
  writer escapes the four the parser treats specially.
\<close>

fun escape :: "string \<Rightarrow> string" where
  "escape [] = []"
| "escape (c # cs) =
     (if c = NEWLINE then [BACKSLASH, CHR ''n'']
      else if c = TAB then [BACKSLASH, CHR ''t'']
      else if c = BACKSLASH then [BACKSLASH, BACKSLASH]
      else if c = QUOTE then [BACKSLASH, QUOTE]
      else [c]) @ escape cs"

definition quote :: "string \<Rightarrow> string" where
  "quote s = QUOTE # escape s @ [QUOTE]"

function text_wf :: "key_value \<Rightarrow> bool" and text_value_wf :: "kv_value \<Rightarrow> bool" where
  "text_wf (KeyValue k v) \<longleftrightarrow> text_value_wf v"
| "text_value_wf (KvString s) \<longleftrightarrow> True"
| "text_value_wf (KvChildren m) \<longleftrightarrow>
     btree_wf m \<and> (\<forall>x \<in> set m. kv_key (snd x) = fst x \<and> text_wf (snd x))"
| "text_value_wf (KvInt32 i) \<longleftrightarrow> False"
| "text_value_wf (KvFloat32 f) \<longleftrightarrow> False"
| "text_value_wf (KvUInt64 i) \<longleftrightarrow> False"
| "text_value_wf (KvInt64 i) \<longleftrightarrow> False"
| "text_value_wf (KvColor i) \<longleftrightarrow> False"
| "text_value_wf (KvPointer i) \<longleftrightarrow> False"
  by pat_completeness auto
termination
  by (relation "measure (case_sum size size)") (auto dest: size_child)

function text_write :: "key_value \<Rightarrow> string" and text_value_write :: "kv_value \<Rightarrow> string" where
  "text_write (KeyValue k v) = quote k @ NEWLINE # text_value_write v"
| "text_value_write (KvString s) = quote s"
| "text_value_write (KvChildren m) =
     OPEN_BRACE # concat (map (\<lambda>x. NEWLINE # text_write (snd x)) m) @ [NEWLINE, CLOSE_BRACE]"
| "text_value_write (KvInt32 i) = []"
| "text_value_write (KvFloat32 f) = []"
| "text_value_write (KvUInt64 i) = []"
| "text_value_write (KvInt64 i) = []"
| "text_value_write (KvColor i) = []"
| "text_value_write (KvPointer i) = []"
  by pat_completeness auto
termination
  by (relation "measure (case_sum size size)") (auto dest: size_child)

section \<open>Lemmas\<close>

lemma quoted_loop_escape: "quoted_loop acc (escape s @ QUOTE # r) = Inr (acc @ s, r)"
  by (induction s arbitrary: acc) auto

lemma skip_keep:
  "\<not> white_start c \<Longrightarrow> c \<noteq> CHR ''/'' \<Longrightarrow> skip_whitespace_and_comments (c # s) = c # s"
  by (simp add: skip_whitespace_and_comments.simps [of "c # s"] trim_start_keep)

lemma skip_simps [simp]:
  "skip_whitespace_and_comments (QUOTE # s) = QUOTE # s"
  "skip_whitespace_and_comments (OPEN_BRACE # s) = OPEN_BRACE # s"
  "skip_whitespace_and_comments (CLOSE_BRACE # s) = CLOSE_BRACE # s"
  "skip_whitespace_and_comments [] = []"
  by (simp_all add: skip_keep white_ascii) (simp add: skip_whitespace_and_comments.simps)

lemma skip_newline [simp]:
  "skip_whitespace_and_comments (NEWLINE # s) = skip_whitespace_and_comments s"
  by (simp add: skip_whitespace_and_comments.simps [of "NEWLINE # s"]
      skip_whitespace_and_comments.simps [of s])

lemma starts_with_simps [simp]: "starts_with c (d # s) \<longleftrightarrow> c = d" "\<not> starts_with c []"
  by (auto simp: starts_with_def)

lemma parse_quoted_quote [simp]: "parse_quoted_string (quote s @ r) = Inr (s, r)"
  by (simp add: quote_def parse_quoted_string_def quoted_loop_escape)

lemma quote_skip [simp]: "skip_whitespace_and_comments (quote s @ r) = quote s @ r"
  by (simp add: quote_def)

lemma quote_start [simp]:
  "starts_with c (quote s @ r) \<longleftrightarrow> c = QUOTE" "quote s @ r \<noteq> []" "quote s \<noteq> []"
  by (simp_all add: quote_def)

lemma text_write_start [simp]:
  "skip_whitespace_and_comments (text_write kv @ r) = text_write kv @ r"
  "starts_with c (text_write kv @ r) \<longleftrightarrow> c = QUOTE"
  "text_write kv \<noteq> []"
  by (cases kv; simp)+

lemma parse_text_children_nodes:
  assumes "\<And>x r. x \<in> set m \<Longrightarrow> parse_text_node (text_write (snd x) @ r) = Inr (snd x, r)"
    and "\<And>x. x \<in> set m \<Longrightarrow> kv_key (snd x) = fst x"
    and "\<And>c. parse_text_children c e = Inr (c, r)"
  shows "parse_text_children c (concat (map (\<lambda>x. NEWLINE # text_write (snd x)) m) @ e)
    = Inr (fold (\<lambda>(k, v). btree_insert k v) m c, r)"
  using assms
proof (induction m arbitrary: c)
  case Nil
  then show ?case by simp
next
  case (Cons x m)
  have "parse_text_children c (concat (map (\<lambda>x. NEWLINE # text_write (snd x)) (x # m)) @ e)
      = parse_text_children (btree_insert (fst x) (snd x) c)
          (concat (map (\<lambda>x. NEWLINE # text_write (snd x)) m) @ e)"
    using Cons.prems(1) [of x "concat (map (\<lambda>x. NEWLINE # text_write (snd x)) m) @ e"]
      Cons.prems(2) [of x]
    by (simp add: parse_text_children.simps [of c] Let_def)
  also have "\<dots> = Inr (fold (\<lambda>(k, v). btree_insert k v) m (btree_insert (fst x) (snd x) c), r)"
    using Cons.prems by (intro Cons.IH) auto
  finally show ?case by (cases x) simp
qed

lemma text_roundtrip:
  "text_wf kv \<Longrightarrow> parse_text_node (text_write kv @ r) = Inr (kv, r)"
  "text_value_wf v \<Longrightarrow> parse_text_node (quote k @ NEWLINE # text_value_write v @ r) = Inr (KeyValue k v, r)"
proof (induction kv and v arbitrary: r and r k rule: text_wf_text_value_wf.induct)
  case (2 s)
  then show ?case
    by (simp add: parse_text_node.simps Let_def)
next
  case (3 m)
  have "parse_text_children [] (concat (map (\<lambda>x. NEWLINE # text_write (snd x)) m) @ NEWLINE # CLOSE_BRACE # r)
      = Inr (fold (\<lambda>(k, v). btree_insert k v) m [], r)"
    by (rule parse_text_children_nodes) (use 3 in \<open>auto simp: parse_text_children.simps Let_def\<close>)
  with 3 show ?case
    using btree_of_list_sorted [of m]
    by (simp add: parse_text_node.simps Let_def btree_of_list_def)
qed simp_all

text \<open>What the parser accepts is a tree of strings and ordered sections.\<close>

lemma parse_text_wf:
  "parse_text_node b = Inr (kv, r) \<Longrightarrow> text_wf kv"
  "parse_text_children m b' = Inr (c, r') \<Longrightarrow> text_value_wf (KvChildren m) \<Longrightarrow> text_value_wf (KvChildren c)"
proof (induction b and m b' arbitrary: kv r and c r' rule: parse_text_node_parse_text_children.induct)
  case (1 input)
  from 1(2) obtain key i where
    k: "parse_quoted_string (skip_whitespace_and_comments input) = Inr (key, i)"
    by (auto simp: parse_text_node.simps Let_def elim!: and_thenE)
  with 1(2) 1(1) [OF refl k refl refl] show ?case
    by (auto simp: parse_text_node.simps [of input] Let_def elim!: and_thenE split: if_splits)
next
  case (2 children input)
  show ?case
  proof (cases "skip_whitespace_and_comments input = []
      \<or> starts_with CLOSE_BRACE (skip_whitespace_and_comments input)")
    case True
    with "2.prems" show ?thesis
      by (auto simp: parse_text_children.simps [of children input] Let_def split: if_splits)
  next
    case False
    with "2.prems"(1) obtain n i where
      n: "parse_text_node (skip_whitespace_and_comments input) = Inr (n, i)"
      and c: "parse_text_children (btree_insert (kv_key n) n children) i = Inr (c, r')"
      by (auto simp: parse_text_children.simps [of children input] Let_def elim!: and_thenE)
    from False 2(1) [OF refl _ _ n] have "text_wf n" by blast
    with "2.prems"(2) have "text_value_wf (KvChildren (btree_insert (kv_key n) n children))"
      using set_btree_insert_subset [of "kv_key n" n children]
      by (auto simp: btree_wf_insert)
    with False 2(2) [OF refl _ _ n refl c] show ?thesis by blast
  qed
qed

lemma escape_last: "quote s = q @ [c] \<Longrightarrow> c = QUOTE"
  by (simp add: quote_def)

lemma text_value_write_last:
  "text_value_wf v \<Longrightarrow> \<exists>q c. text_value_write v = q @ [c] \<and> (c = QUOTE \<or> c = CLOSE_BRACE)"
  by (cases v) (auto simp: quote_def)

lemma trim_text_write: "text_wf kv \<Longrightarrow> trim (text_write kv) = text_write kv"
proof (cases kv)
  case (KeyValue k v)
  assume "text_wf kv"
  with KeyValue obtain q c where v: "text_value_write v = q @ [c]" "c = QUOTE \<or> c = CLOSE_BRACE"
    using text_value_write_last [of v] by auto
  then have "\<not> white_end c" using white_ascii by auto
  with v KeyValue trim_end_keep [of c "QUOTE # escape k @ QUOTE # NEWLINE # q"]
  show ?thesis by (simp add: trim_def quote_def trim_start_keep white_ascii)
qed

lemma quoted_loop_error: "quoted_loop acc cs = Inl e \<Longrightarrow> e = TUnexpectedEof"
  by (induction acc cs rule: quoted_loop.induct) (auto split: if_splits list.splits)

lemma parse_quoted_error: "parse_quoted_string i = Inl e \<Longrightarrow> e = ExpectedQuote \<or> e = TUnexpectedEof"
  by (auto simp: parse_quoted_string_def Let_def dest: quoted_loop_error split: if_splits)

lemma parse_text_error:
  "parse_text_node b = Inl e \<Longrightarrow> e \<noteq> ExpectedOpenBrace"
  "parse_text_children m b' = Inl e' \<Longrightarrow> e' \<noteq> ExpectedOpenBrace"
proof (induction b and m b' arbitrary: e and e' rule: parse_text_node_parse_text_children.induct)
  case (1 input)
  show ?case
  proof (cases "parse_quoted_string (skip_whitespace_and_comments input)")
    case (Inl e1)
    with 1(2) parse_quoted_error [OF Inl] show ?thesis
      by (auto simp: parse_text_node.simps [of input] Let_def)
  next
    case (Inr p)
    obtain key i where p: "p = (key, i)" by (cases p)
    from 1(2) 1(1) [OF refl Inr p [symmetric] refl] Inr p show ?thesis
      by (auto simp: parse_text_node.simps [of input] Let_def and_then_eq_Inl split: if_splits
          dest: parse_quoted_error)
  qed
next
  case (2 children input)
  then show ?case
    by (force simp: parse_text_children.simps [of children input] Let_def and_then_eq_Inl
        split: if_splits)
qed

section \<open>Properties\<close>

text \<open>
  C30: the text parser reads every tree back from its text form, strings with quotes,
  backslashes, newlines, comments and braces in them included, and it produces only trees
  that have such a form: a tree is read back if and only if it holds strings and ordered
  sections only.
\<close>

theorem parse_text_kv_roundtrip: "parse_text_kv (text_write kv) = Inr kv \<longleftrightarrow> text_wf kv"
proof
  assume "text_wf kv"
  then show "parse_text_kv (text_write kv) = Inr kv"
    using text_roundtrip(1) [of kv "[]"] by (simp add: parse_text_kv_def trim_text_write)
next
  assume "parse_text_kv (text_write kv) = Inr kv"
  then show "text_wf kv"
    by (auto simp: parse_text_kv_def map_ok_eq_Inr dest: parse_text_wf(1))
qed

text \<open>
  The text parser never reports the error \<^verbatim>\<open>ExpectedOpenBrace\<close> that its error type
  declares for a name with no value behind it: the only errors are a missing quote and an
  unexpected end.
\<close>

theorem parse_text_kv_no_open_brace_error: "parse_text_kv input \<noteq> Inl ExpectedOpenBrace"
  using parse_text_error(1) by (cases "parse_text_node (trim input)") (auto simp: parse_text_kv_def)

end
