(* ===== verification/Enums.thy ===== *)
theory Enums
  imports Text
begin

text \<open>
  \<^verbatim>\<open>crates/steam/src/enums.rs\<close>: the Steam result codes, the depot file flags and the
  magic numbers of the manifest sections. The constructors of the result codes carry an
  \<open>E\<close> in front of the source's name, since some of them are names of the library.
\<close>

section \<open>EResultError\<close>

datatype eresult_error =
    EInvalid
  | EFail
  | ENoConnection
  | EInvalidPassword
  | ELoggedInElsewhere
  | EInvalidProtocolVer
  | EInvalidParam
  | EFileNotFound
  | EBusy
  | EInvalidState
  | EInvalidName
  | EInvalidEmail
  | EDuplicateName
  | EAccessDenied
  | ETimeout
  | EBanned
  | EAccountNotFound
  | EInvalidSteamID
  | EServiceUnavailable
  | ENotLoggedOn
  | EPending
  | EEncryptionFailure
  | EInsufficientPrivilege
  | ELimitExceeded
  | ERevoked
  | EExpired
  | EAlreadyRedeemed
  | EDuplicateRequest
  | EAlreadyOwned
  | EIPNotFound
  | EPersistFailed
  | ELockingFailed
  | ELogonSessionReplaced
  | ERateLimitExceeded
  | ETwoFactorRequired
  | ELoginDeniedThrottle
  | ETwoFactorCodeMismatch
  | ETwoFactorActivationCodeMismatch
  | EUnknown i32

text \<open>The match arms of \<^verbatim>\<open>EResultError::from_i32\<close> other than \<^verbatim>\<open>1\<close> and the last one.\<close>

definition eresult_arms :: "(i32 \<times> eresult_error) list" where
  "eresult_arms =
    [(0, EInvalid),
     (2, EFail),
     (3, ENoConnection),
     (5, EInvalidPassword),
     (6, ELoggedInElsewhere),
     (7, EInvalidProtocolVer),
     (8, EInvalidParam),
     (9, EFileNotFound),
     (10, EBusy),
     (11, EInvalidState),
     (12, EInvalidName),
     (13, EInvalidEmail),
     (14, EDuplicateName),
     (15, EAccessDenied),
     (16, ETimeout),
     (17, EBanned),
     (18, EAccountNotFound),
     (19, EInvalidSteamID),
     (20, EServiceUnavailable),
     (21, ENotLoggedOn),
     (22, EPending),
     (23, EEncryptionFailure),
     (24, EInsufficientPrivilege),
     (25, ELimitExceeded),
     (26, ERevoked),
     (27, EExpired),
     (28, EAlreadyRedeemed),
     (29, EDuplicateRequest),
     (30, EAlreadyOwned),
     (31, EIPNotFound),
     (32, EPersistFailed),
     (33, ELockingFailed),
     (34, ELogonSessionReplaced),
     (84, ERateLimitExceeded),
     (85, ETwoFactorRequired),
     (87, ELoginDeniedThrottle),
     (88, ETwoFactorCodeMismatch),
     (89, ETwoFactorActivationCodeMismatch)]"

definition from_i32 :: "i32 \<Rightarrow> eresult_error + unit" where
  "from_i32 v =
     (if v = 1 then Inr ()
      else case map_of eresult_arms v of Some e \<Rightarrow> Inl e | None \<Rightarrow> Inl (EUnknown v))"

text \<open>\<^verbatim>\<open>Display\<close>, from the \<^verbatim>\<open>#[error(...)]\<close> attributes.\<close>

primrec eresult_display :: "eresult_error \<Rightarrow> string" where
  "eresult_display EInvalid = ''invalid (0)''"
| "eresult_display EFail = ''fail (2)''"
| "eresult_display ENoConnection = ''no connection (3)''"
| "eresult_display EInvalidPassword = ''invalid password (5)''"
| "eresult_display ELoggedInElsewhere = ''logged in elsewhere (6)''"
| "eresult_display EInvalidProtocolVer = ''invalid protocol version (7)''"
| "eresult_display EInvalidParam = ''invalid param (8)''"
| "eresult_display EFileNotFound = ''file not found (9)''"
| "eresult_display EBusy = ''busy (10)''"
| "eresult_display EInvalidState = ''invalid state (11)''"
| "eresult_display EInvalidName = ''invalid name (12)''"
| "eresult_display EInvalidEmail = ''invalid email (13)''"
| "eresult_display EDuplicateName = ''duplicate name (14)''"
| "eresult_display EAccessDenied = ''access denied (15)''"
| "eresult_display ETimeout = ''timeout (16)''"
| "eresult_display EBanned = ''banned (17)''"
| "eresult_display EAccountNotFound = ''account not found (18)''"
| "eresult_display EInvalidSteamID = ''invalid steam ID (19)''"
| "eresult_display EServiceUnavailable = ''service unavailable (20)''"
| "eresult_display ENotLoggedOn = ''not logged on (21)''"
| "eresult_display EPending = ''pending (22)''"
| "eresult_display EEncryptionFailure = ''encryption failure (23)''"
| "eresult_display EInsufficientPrivilege = ''insufficient privilege (24)''"
| "eresult_display ELimitExceeded = ''limit exceeded (25)''"
| "eresult_display ERevoked = ''revoked (26)''"
| "eresult_display EExpired = ''expired (27)''"
| "eresult_display EAlreadyRedeemed = ''already redeemed (28)''"
| "eresult_display EDuplicateRequest = ''duplicate request (29)''"
| "eresult_display EAlreadyOwned = ''already owned (30)''"
| "eresult_display EIPNotFound = ''IP not found (31)''"
| "eresult_display EPersistFailed = ''persist failed (32)''"
| "eresult_display ELockingFailed = ''locking failed (33)''"
| "eresult_display ELogonSessionReplaced = ''logon session replaced (34)''"
| "eresult_display ERateLimitExceeded = ''rate limit exceeded (84)''"
| "eresult_display ETwoFactorRequired = ''two factor required (85)''"
| "eresult_display ELoginDeniedThrottle = ''login denied, throttled (87)''"
| "eresult_display ETwoFactorCodeMismatch = ''two factor code mismatch (88)''"
| "eresult_display ETwoFactorActivationCodeMismatch = ''two factor activation code mismatch (89)''"
| "eresult_display (EUnknown v) = ''unknown error ('' @ dec_int (sint v) @ '')''"

section \<open>DepotFileFlags\<close>

datatype depot_file_flags = DepotFileFlags u32

abbreviation flag_NONE :: depot_file_flags where "flag_NONE \<equiv> DepotFileFlags 0x00"
abbreviation flag_EXECUTABLE :: depot_file_flags where "flag_EXECUTABLE \<equiv> DepotFileFlags 0x04"
abbreviation flag_DIRECTORY :: depot_file_flags where "flag_DIRECTORY \<equiv> DepotFileFlags 0x40"
abbreviation flag_HIDDEN :: depot_file_flags where "flag_HIDDEN \<equiv> DepotFileFlags 0x80"
abbreviation flag_READ_ONLY :: depot_file_flags where "flag_READ_ONLY \<equiv> DepotFileFlags 0x100"

fun flags_contains :: "depot_file_flags \<Rightarrow> depot_file_flags \<Rightarrow> bool" where
  "flags_contains (DepotFileFlags a) (DepotFileFlags b) \<longleftrightarrow> a AND b \<noteq> 0"

definition is_directory :: "depot_file_flags \<Rightarrow> bool" where
  "is_directory f = flags_contains f flag_DIRECTORY"

definition is_executable :: "depot_file_flags \<Rightarrow> bool" where
  "is_executable f = flags_contains f flag_EXECUTABLE"

section \<open>Account types, universes and the other numeric enums\<close>

datatype e_account_type =
    AT_Invalid | AT_Individual | AT_Multiseat | AT_GameServer | AT_AnonGameServer | AT_Pending
  | AT_ContentServer | AT_Clan | AT_Chat | AT_AnonUser

primrec account_type_u8 :: "e_account_type \<Rightarrow> u8" where
  "account_type_u8 AT_Invalid = 0"
| "account_type_u8 AT_Individual = 1"
| "account_type_u8 AT_Multiseat = 2"
| "account_type_u8 AT_GameServer = 3"
| "account_type_u8 AT_AnonGameServer = 4"
| "account_type_u8 AT_Pending = 5"
| "account_type_u8 AT_ContentServer = 6"
| "account_type_u8 AT_Clan = 7"
| "account_type_u8 AT_Chat = 8"
| "account_type_u8 AT_AnonUser = 10"

datatype e_universe = UV_Invalid | UV_Public | UV_Beta | UV_Internal | UV_Dev

primrec universe_u8 :: "e_universe \<Rightarrow> u8" where
  "universe_u8 UV_Invalid = 0"
| "universe_u8 UV_Public = 1"
| "universe_u8 UV_Beta = 2"
| "universe_u8 UV_Internal = 3"
| "universe_u8 UV_Dev = 4"

datatype e_os_type = LinuxUnknown | MacOSUnknown | WindowsUnknown | Windows11 | Windows10

primrec os_type_i32 :: "e_os_type \<Rightarrow> i32" where
  "os_type_i32 LinuxUnknown = - 203"
| "os_type_i32 MacOSUnknown = - 102"
| "os_type_i32 WindowsUnknown = 0"
| "os_type_i32 Windows11 = 203"
| "os_type_i32 Windows10 = 202"

datatype e_auth_token_platform_type = PT_Unknown | PT_SteamClient | PT_WebBrowser | PT_MobileApp

primrec platform_type_i32 :: "e_auth_token_platform_type \<Rightarrow> i32" where
  "platform_type_i32 PT_Unknown = 0"
| "platform_type_i32 PT_SteamClient = 1"
| "platform_type_i32 PT_WebBrowser = 2"
| "platform_type_i32 PT_MobileApp = 3"

datatype e_session_persistence = Ephemeral | Persistent

primrec persistence_i32 :: "e_session_persistence \<Rightarrow> i32" where
  "persistence_i32 Ephemeral = 0"
| "persistence_i32 Persistent = 1"

section \<open>ManifestMagic\<close>

datatype manifest_magic = PayloadV5 | Metadata | Signature | EndOfManifest | V4

primrec magic_u32 :: "manifest_magic \<Rightarrow> u32" where
  "magic_u32 PayloadV5 = 0x71F617D0"
| "magic_u32 Metadata = 0x1F4812BE"
| "magic_u32 Signature = 0x1B81B817"
| "magic_u32 EndOfManifest = 0x32C415AB"
| "magic_u32 V4 = 0x16349781"

definition magic_from_u32 :: "u32 \<Rightarrow> manifest_magic option" where
  "magic_from_u32 v =
     (if v = 0x71F617D0 then Some PayloadV5
      else if v = 0x1F4812BE then Some Metadata
      else if v = 0x1B81B817 then Some Signature
      else if v = 0x32C415AB then Some EndOfManifest
      else if v = 0x16349781 then Some V4
      else None)"

section \<open>Lemmas\<close>

text \<open>Each code has its own arm, and no code is listed twice.\<close>

lemma eresult_arms_distinct:
  "distinct (map fst eresult_arms)" "distinct (map snd eresult_arms)"
  by (simp_all add: eresult_arms_def)

lemma eresult_arms_no_unknown: "EUnknown v \<notin> snd ` set eresult_arms"
  by (simp add: eresult_arms_def)

lemma from_i32_success [simp]: "from_i32 v = Inr u \<longleftrightarrow> v = 1"
  by (auto simp: from_i32_def split: option.splits)

lemma is_directory_bit: "is_directory (DepotFileFlags w) \<longleftrightarrow> bit w 6"
proof -
  have "(0x40 :: u32) = 2 ^ 6" by simp
  then show ?thesis
    by (simp only: is_directory_def flags_contains.simps and_exp_eq_0_iff_not_bit not_not)
qed

lemma magic_from_u32_u32 [simp]: "magic_from_u32 (magic_u32 m) = Some m"
  by (cases m) (simp_all add: magic_from_u32_def)

lemma magic_from_u32_Some: "magic_from_u32 v = Some m \<longleftrightarrow> v = magic_u32 m"
  by (cases m) (auto simp: magic_from_u32_def)

lemma eresult_arm_unique:
  "map_of eresult_arms v = Some e \<Longrightarrow> map_of eresult_arms w = Some e \<Longrightarrow> v = w"
  using eresult_arms_distinct(2) by (fastforce dest!: map_of_SomeD simp: distinct_map inj_on_def)

lemma eresult_arm_known: "map_of eresult_arms v = Some e \<Longrightarrow> e \<noteq> EUnknown w"
  using eresult_arms_no_unknown [of w] by (force dest!: map_of_SomeD simp: image_iff)

text \<open>The number a message ends in.\<close>

definition eresult_code_suffix :: "i32 \<Rightarrow> string" where
  "eresult_code_suffix v = ''('' @ dec_int (sint v) @ '')''"

lemma eresult_arms_display:
  "\<forall>(v, e) \<in> set eresult_arms. suffix (eresult_code_suffix v) (eresult_display e)"
  by (simp add: eresult_arms_def eresult_code_suffix_def dec_int_def dec_string.simps digit_char_def
      char_of_def bit_0 suffix_def)

section \<open>Properties\<close>

text \<open>
  \<^verbatim>\<open>EResultError::from_i32\<close> loses nothing: success is exactly the code 1, and
  two different codes never give the same error, so no failure is reported as another
  one (codes without a name keep their number in \<^verbatim>\<open>Unknown\<close>).
\<close>

theorem from_i32_injective: "inj from_i32"
proof (rule injI)
  fix v w assume eq: "from_i32 v = from_i32 w"
  show "v = w"
  proof (cases "v = 1 \<or> w = 1")
    case True
    with eq show ?thesis by (metis from_i32_success)
  next
    case False
    with eq show ?thesis
      by (auto simp: from_i32_def dest: eresult_arm_unique eresult_arm_known split: option.splits)
  qed
qed

text \<open>
  The message of every result code ends in the code it stands for, in parentheses:
  the \<^verbatim>\<open>#[error(...)]\<close> attributes agree with the match arms of \<^verbatim>\<open>from_i32\<close> on all
  codes.
\<close>

theorem eresult_display_code:
  "case from_i32 v of Inr _ \<Rightarrow> v = 1
   | Inl e \<Rightarrow> suffix (eresult_code_suffix v) (eresult_display e)"
proof (cases "map_of eresult_arms v")
  case None
  then show ?thesis
    by (auto simp: from_i32_def eresult_code_suffix_def suffix_def)
next
  case (Some e)
  with eresult_arms_display show ?thesis
    by (auto simp: from_i32_def dest: map_of_SomeD)
qed

end
