(* ===== verification/Ids.thy ===== *)
theory Ids
  imports Enums
begin

text \<open>
  The identifier types: the newtypes of \<^verbatim>\<open>crates/steam/src/depot/mod.rs\<close> and the
  packed 64-bit identifiers of \<^verbatim>\<open>types/steam_id.rs\<close> and \<^verbatim>\<open>types/game_id.rs\<close>.
\<close>

section \<open>Newtypes\<close>

datatype app_id = AppId (app_id_0: u32)
datatype depot_id = DepotId (depot_id_0: u32)
datatype manifest_id = ManifestId (manifest_id_0: u64)
datatype package_id = PackageId (package_id_0: u32)
datatype cell_id = CellId (cell_id_0: u32)
datatype build_id = BuildId (build_id_0: u32)

text \<open>\<^verbatim>\<open>ChunkId(pub [u8; 20])\<close>: the 20 bytes of a SHA-1 hash.\<close>

datatype chunk_id = ChunkId (chunk_id_0: bytes)

datatype depot_key = DepotKey (depot_key_0: bytes)

definition depot_id_display :: "depot_id \<Rightarrow> string" where
  "depot_id_display d = dec_string (unat (depot_id_0 d))"

definition manifest_id_display :: "manifest_id \<Rightarrow> string" where
  "manifest_id_display m = dec_string (unat (manifest_id_0 m))"

definition build_id_display :: "build_id \<Rightarrow> string" where
  "build_id_display b = dec_string (unat (build_id_0 b))"

definition chunk_id_display :: "chunk_id \<Rightarrow> string" where
  "chunk_id_display c = hex_bytes (chunk_id_0 c)"

text \<open>The debug texts: that of a depot key does not show the key.\<close>

definition newtype_debug :: "string \<Rightarrow> nat \<Rightarrow> string" where
  "newtype_debug name n = name @ ''('' @ dec_string n @ '')''"

definition chunk_id_debug :: "chunk_id \<Rightarrow> string" where
  "chunk_id_debug c = ''ChunkId('' @ hex_bytes (chunk_id_0 c) @ '')''"

definition depot_key_debug :: "depot_key \<Rightarrow> string" where
  "depot_key_debug k = ''DepotKey([redacted])''"

lemma chunk_id_debug_inject: "chunk_id_debug c = chunk_id_debug d \<longleftrightarrow> c = d"
  by (cases c; cases d) (auto simp: chunk_id_debug_def dest: hex_bytes_inject)

section \<open>SteamId\<close>

datatype steam_id = SteamId u64

primrec steam_id_raw :: "steam_id \<Rightarrow> u64" where
  "steam_id_raw (SteamId x) = x"

primrec account_id :: "steam_id \<Rightarrow> u32" where
  "account_id (SteamId x) = ucast x"

primrec instance_of :: "steam_id \<Rightarrow> u32" where
  "instance_of (SteamId x) = ucast (drop_bit 32 x AND 0xFFFFF)"

primrec account_type :: "steam_id \<Rightarrow> u8" where
  "account_type (SteamId x) = ucast (drop_bit 52 x AND 0xF)"

primrec universe :: "steam_id \<Rightarrow> u8" where
  "universe (SteamId x) = ucast (drop_bit 56 x AND 0xF)"

definition steam_id_from_parts :: "u8 \<Rightarrow> u8 \<Rightarrow> u32 \<Rightarrow> u32 \<Rightarrow> steam_id" where
  "steam_id_from_parts un ty inst acc =
     (let i0 = ucast acc;
          i1 = i0 OR push_bit 32 (ucast inst AND 0xFFFFF);
          i2 = i1 OR push_bit 52 (ucast ty AND 0xF);
          i3 = i2 OR push_bit 56 (ucast un AND 0xF)
      in SteamId i3)"

definition steam_id_letter :: "u8 \<Rightarrow> char" where
  "steam_id_letter t =
     (if t = 0 then CHR ''I'' else if t = 1 then CHR ''U'' else if t = 2 then CHR ''M''
      else if t = 3 then CHR ''G'' else if t = 4 then CHR ''A'' else if t = 5 then CHR ''P''
      else if t = 6 then CHR ''C'' else if t = 7 then CHR ''g'' else if t = 8 then CHR ''T''
      else if t = 10 then CHR ''a'' else CHR ''?'')"

definition steam_id_display :: "steam_id \<Rightarrow> string" where
  "steam_id_display s =
     ''['' @ [steam_id_letter (account_type s)] @ '':'' @ dec_string (unat (universe s)) @ '':''
       @ dec_string (unat (account_id s)) @ '']''"

definition steam_id_debug :: "steam_id \<Rightarrow> string" where
  "steam_id_debug s =
     ''SteamId('' @ dec_string (unat (steam_id_raw s)) @ '' | U:'' @ dec_string (unat (universe s))
       @ '' T:'' @ dec_string (unat (account_type s)) @ '' I:'' @ dec_string (unat (instance_of s))
       @ '' A:'' @ dec_string (unat (account_id s)) @ '')''"

section \<open>GameId\<close>

datatype game_id = GameId u64

primrec game_id_raw :: "game_id \<Rightarrow> u64" where
  "game_id_raw (GameId x) = x"

definition game_id_from_app_id :: "u32 \<Rightarrow> game_id" where
  "game_id_from_app_id a = GameId ((ucast a AND 0xFFFFFF) OR push_bit 24 1)"

primrec game_app_id :: "game_id \<Rightarrow> u32" where
  "game_app_id (GameId x) = ucast (x AND 0xFFFFFF)"

primrec game_type :: "game_id \<Rightarrow> u8" where
  "game_type (GameId x) = ucast (drop_bit 24 x AND 0xFF)"

primrec mod_id :: "game_id \<Rightarrow> u32" where
  "mod_id (GameId x) = ucast (drop_bit 32 x)"

definition game_id_debug :: "game_id \<Rightarrow> string" where
  "game_id_debug g =
     ''GameId(app:'' @ dec_string (unat (game_app_id g)) @ '' type:'' @ dec_string (unat (game_type g))
       @ '' mod:'' @ dec_string (unat (mod_id g)) @ '')''"

section \<open>Lemmas\<close>

text \<open>The masks of the source are runs of low bits.\<close>

lemma and_low_masks:
  "(w :: 'a::len word) AND 0xF = take_bit 4 w" "w AND 0xFF = take_bit 8 w"
  "w AND 0xFFFFF = take_bit 20 w" "w AND 0xFFFFFF = take_bit 24 w"
  by (simp_all add: take_bit_eq_mask mask_eq_exp_minus_1)

lemmas id_field_simps = and_low_masks bit_simps bit_ucast_iff

lemma chunk_id_display_inject: "chunk_id_display a = chunk_id_display b \<Longrightarrow> a = b"
  by (auto simp: chunk_id_display_def intro: chunk_id.expand dest: hex_bytes_inject)

lemma length_chunk_id_display: "length (chunk_id_0 c) = 20 \<Longrightarrow> length (chunk_id_display c) = 40"
  by (simp add: chunk_id_display_def)

section \<open>Properties\<close>

text \<open>
  Packing a Steam id from parts and reading the parts back gives the universe and
  the account type truncated to 4 bits, the instance truncated to 20 bits and the account
  id unchanged: no field overlaps another one.
\<close>

theorem steam_id_parts:
  "universe (steam_id_from_parts un ty inst acc) = take_bit 4 un \<and>
   account_type (steam_id_from_parts un ty inst acc) = take_bit 4 ty \<and>
   instance_of (steam_id_from_parts un ty inst acc) = take_bit 20 inst \<and>
   account_id (steam_id_from_parts un ty inst acc) = acc"
  by (intro conjI bit_eqI)
     (auto simp: id_field_simps steam_id_from_parts_def Let_def dest: bit_imp_le_length)

text \<open>
  Reading the parts of a raw Steam id and packing them again gives the same id with
  its unused top four bits cleared, so two raw ids with the same parts differ at most
  there.
\<close>

theorem steam_id_repack:
  "steam_id_from_parts (universe s) (account_type s) (instance_of s) (account_id s)
     = SteamId (take_bit 60 (steam_id_raw s))"
proof (cases s)
  case (SteamId x)
  have "ucast (account_id s) OR push_bit 32 (ucast (instance_of s) AND 0xFFFFF)
      OR push_bit 52 (ucast (account_type s) AND 0xF) OR push_bit 56 (ucast (universe s) AND 0xF)
      = take_bit 60 x"
  proof (rule bit_eqI)
    fix n
    show "bit (ucast (account_id s) OR push_bit 32 (ucast (instance_of s) AND 0xFFFFF)
        OR push_bit 52 (ucast (account_type s) AND 0xF) OR push_bit 56 (ucast (universe s) AND 0xF) :: u64) n
        = bit (take_bit 60 x) n"
      unfolding SteamId
      by (cases "56 \<le> n"; cases "52 \<le> n") (auto simp: id_field_simps dest: bit_imp_le_length)
  qed
  with SteamId show ?thesis by (simp add: steam_id_from_parts_def Let_def or.assoc)
qed

text \<open>
  A game id built from an app id has type 1 and no mod, and gives back the low 24 bits
  of the app id.
\<close>

theorem game_id_from_app_id_parts:
  "game_app_id (game_id_from_app_id a) = take_bit 24 a \<and>
   game_type (game_id_from_app_id a) = 1 \<and> mod_id (game_id_from_app_id a) = 0"
  by (intro conjI bit_eqI)
     (auto simp: id_field_simps game_id_from_app_id_def bit_1_iff dest: bit_imp_le_length)

end
