(* ===== verification/Emsg.thy ===== *)
theory Emsg
  imports Text
begin

text \<open>
  \<^verbatim>\<open>crates/steam/src/messages/emsg.rs\<close> and \<^verbatim>\<open>messages/mod.rs\<close>: the message types of
  the Steam network protocol, their names, and the raw form with the protobuf flag in
  bit 31.
\<close>

section \<open>EMsg\<close>

datatype emsg = EMsg (emsg_0: u32)

abbreviation EMSG_INVALID :: emsg where "EMSG_INVALID \<equiv> EMsg 0"
abbreviation EMSG_MULTI :: emsg where "EMSG_MULTI \<equiv> EMsg 1"
abbreviation EMSG_SERVICE_METHOD :: emsg where "EMSG_SERVICE_METHOD \<equiv> EMsg 146"
abbreviation EMSG_SERVICE_METHOD_RESPONSE :: emsg where "EMSG_SERVICE_METHOD_RESPONSE \<equiv> EMsg 147"
abbreviation EMSG_SERVICE_METHOD_CALL_FROM_CLIENT :: emsg where "EMSG_SERVICE_METHOD_CALL_FROM_CLIENT \<equiv> EMsg 151"
abbreviation EMSG_SERVICE_METHOD_SEND_TO_CLIENT :: emsg where "EMSG_SERVICE_METHOD_SEND_TO_CLIENT \<equiv> EMsg 152"
abbreviation EMSG_CLIENT_HEART_BEAT :: emsg where "EMSG_CLIENT_HEART_BEAT \<equiv> EMsg 703"
abbreviation EMSG_CLIENT_LOGOFF :: emsg where "EMSG_CLIENT_LOGOFF \<equiv> EMsg 706"
abbreviation EMSG_CLIENT_GAMES_PLAYED :: emsg where "EMSG_CLIENT_GAMES_PLAYED \<equiv> EMsg 742"
abbreviation EMSG_CLIENT_LOG_ON_RESPONSE :: emsg where "EMSG_CLIENT_LOG_ON_RESPONSE \<equiv> EMsg 751"
abbreviation EMSG_CLIENT_SET_HEARTBEAT_RATE :: emsg where "EMSG_CLIENT_SET_HEARTBEAT_RATE \<equiv> EMsg 755"
abbreviation EMSG_CLIENT_LOGGED_OFF :: emsg where "EMSG_CLIENT_LOGGED_OFF \<equiv> EMsg 757"
abbreviation EMSG_CLIENT_PERSONA_STATE :: emsg where "EMSG_CLIENT_PERSONA_STATE \<equiv> EMsg 766"
abbreviation EMSG_CLIENT_FRIENDS_LIST :: emsg where "EMSG_CLIENT_FRIENDS_LIST \<equiv> EMsg 767"
abbreviation EMSG_CLIENT_ACCOUNT_INFO :: emsg where "EMSG_CLIENT_ACCOUNT_INFO \<equiv> EMsg 768"
abbreviation EMSG_CLIENT_LICENSE_LIST :: emsg where "EMSG_CLIENT_LICENSE_LIST \<equiv> EMsg 780"
abbreviation EMSG_CLIENT_PING :: emsg where "EMSG_CLIENT_PING \<equiv> EMsg 764"
abbreviation EMSG_CLIENT_GET_APP_OWNERSHIP_TICKET :: emsg where "EMSG_CLIENT_GET_APP_OWNERSHIP_TICKET \<equiv> EMsg 857"
abbreviation EMSG_CLIENT_GET_APP_OWNERSHIP_TICKET_RESPONSE :: emsg where "EMSG_CLIENT_GET_APP_OWNERSHIP_TICKET_RESPONSE \<equiv> EMsg 858"
abbreviation EMSG_CHANNEL_ENCRYPT_REQUEST :: emsg where "EMSG_CHANNEL_ENCRYPT_REQUEST \<equiv> EMsg 1303"
abbreviation EMSG_CHANNEL_ENCRYPT_RESPONSE :: emsg where "EMSG_CHANNEL_ENCRYPT_RESPONSE \<equiv> EMsg 1304"
abbreviation EMSG_CHANNEL_ENCRYPT_RESULT :: emsg where "EMSG_CHANNEL_ENCRYPT_RESULT \<equiv> EMsg 1305"
abbreviation EMSG_CLIENT_LOGON :: emsg where "EMSG_CLIENT_LOGON \<equiv> EMsg 5514"
abbreviation EMSG_CLIENT_CHECK_APP_BETA_PASSWORD :: emsg where "EMSG_CLIENT_CHECK_APP_BETA_PASSWORD \<equiv> EMsg 5450"
abbreviation EMSG_CLIENT_CHECK_APP_BETA_PASSWORD_RESPONSE :: emsg where "EMSG_CLIENT_CHECK_APP_BETA_PASSWORD_RESPONSE \<equiv> EMsg 5451"
abbreviation EMSG_CLIENT_GET_DEPOT_DECRYPTION_KEY :: emsg where "EMSG_CLIENT_GET_DEPOT_DECRYPTION_KEY \<equiv> EMsg 5438"
abbreviation EMSG_CLIENT_GET_DEPOT_DECRYPTION_KEY_RESPONSE :: emsg where "EMSG_CLIENT_GET_DEPOT_DECRYPTION_KEY_RESPONSE \<equiv> EMsg 5439"
abbreviation EMSG_CLIENT_GET_CDN_AUTH_TOKEN :: emsg where "EMSG_CLIENT_GET_CDN_AUTH_TOKEN \<equiv> EMsg 5546"
abbreviation EMSG_CLIENT_GET_CDN_AUTH_TOKEN_RESPONSE :: emsg where "EMSG_CLIENT_GET_CDN_AUTH_TOKEN_RESPONSE \<equiv> EMsg 5547"
abbreviation EMSG_CLIENT_PICS_CHANGES_SINCE_REQUEST :: emsg where "EMSG_CLIENT_PICS_CHANGES_SINCE_REQUEST \<equiv> EMsg 8901"
abbreviation EMSG_CLIENT_PICS_CHANGES_SINCE_RESPONSE :: emsg where "EMSG_CLIENT_PICS_CHANGES_SINCE_RESPONSE \<equiv> EMsg 8902"
abbreviation EMSG_CLIENT_PICS_PRODUCT_INFO_REQUEST :: emsg where "EMSG_CLIENT_PICS_PRODUCT_INFO_REQUEST \<equiv> EMsg 8903"
abbreviation EMSG_CLIENT_PICS_PRODUCT_INFO_RESPONSE :: emsg where "EMSG_CLIENT_PICS_PRODUCT_INFO_RESPONSE \<equiv> EMsg 8904"
abbreviation EMSG_CLIENT_PICS_ACCESS_TOKEN_REQUEST :: emsg where "EMSG_CLIENT_PICS_ACCESS_TOKEN_REQUEST \<equiv> EMsg 8905"
abbreviation EMSG_CLIENT_PICS_ACCESS_TOKEN_RESPONSE :: emsg where "EMSG_CLIENT_PICS_ACCESS_TOKEN_RESPONSE \<equiv> EMsg 8906"
abbreviation EMSG_SERVICE_METHOD_CALL_FROM_CLIENT_NON_AUTHED :: emsg where "EMSG_SERVICE_METHOD_CALL_FROM_CLIENT_NON_AUTHED \<equiv> EMsg 9804"
abbreviation EMSG_CLIENT_HELLO :: emsg where "EMSG_CLIENT_HELLO \<equiv> EMsg 9805"

text \<open>The named arms of \<^verbatim>\<open>Display\<close>.\<close>

definition emsg_names :: "(emsg \<times> string) list" where
  "emsg_names =
    [(EMSG_INVALID, ''Invalid''),
     (EMSG_MULTI, ''Multi''),
     (EMSG_SERVICE_METHOD, ''ServiceMethod''),
     (EMSG_SERVICE_METHOD_RESPONSE, ''ServiceMethodResponse''),
     (EMSG_SERVICE_METHOD_CALL_FROM_CLIENT, ''ServiceMethodCallFromClient''),
     (EMSG_SERVICE_METHOD_SEND_TO_CLIENT, ''ServiceMethodSendToClient''),
     (EMSG_CLIENT_HEART_BEAT, ''ClientHeartBeat''),
     (EMSG_CLIENT_LOGOFF, ''ClientLogOff''),
     (EMSG_CLIENT_LOG_ON_RESPONSE, ''ClientLogOnResponse''),
     (EMSG_CLIENT_LOGGED_OFF, ''ClientLoggedOff''),
     (EMSG_CLIENT_LICENSE_LIST, ''ClientLicenseList''),
     (EMSG_CLIENT_ACCOUNT_INFO, ''ClientAccountInfo''),
     (EMSG_CHANNEL_ENCRYPT_REQUEST, ''ChannelEncryptRequest''),
     (EMSG_CHANNEL_ENCRYPT_RESPONSE, ''ChannelEncryptResponse''),
     (EMSG_CHANNEL_ENCRYPT_RESULT, ''ChannelEncryptResult''),
     (EMSG_CLIENT_CHECK_APP_BETA_PASSWORD, ''ClientCheckAppBetaPassword''),
     (EMSG_CLIENT_CHECK_APP_BETA_PASSWORD_RESPONSE, ''ClientCheckAppBetaPasswordResponse''),
     (EMSG_CLIENT_LOGON, ''ClientLogon''),
     (EMSG_CLIENT_GET_DEPOT_DECRYPTION_KEY, ''ClientGetDepotDecryptionKey''),
     (EMSG_CLIENT_GET_DEPOT_DECRYPTION_KEY_RESPONSE, ''ClientGetDepotDecryptionKeyResponse''),
     (EMSG_CLIENT_GET_CDN_AUTH_TOKEN, ''ClientGetCDNAuthToken''),
     (EMSG_CLIENT_GET_CDN_AUTH_TOKEN_RESPONSE, ''ClientGetCDNAuthTokenResponse''),
     (EMSG_CLIENT_PICS_PRODUCT_INFO_REQUEST, ''ClientPICSProductInfoRequest''),
     (EMSG_CLIENT_PICS_PRODUCT_INFO_RESPONSE, ''ClientPICSProductInfoResponse''),
     (EMSG_CLIENT_PICS_ACCESS_TOKEN_REQUEST, ''ClientPICSAccessTokenRequest''),
     (EMSG_CLIENT_PICS_ACCESS_TOKEN_RESPONSE, ''ClientPICSAccessTokenResponse''),
     (EMSG_CLIENT_HELLO, ''ClientHello'')]"

definition emsg_display :: "emsg \<Rightarrow> string" where
  "emsg_display e =
     (case map_of emsg_names e of Some name \<Rightarrow> name
      | None \<Rightarrow> ''EMsg('' @ dec_string (unat (emsg_0 e)) @ '')'')"

section \<open>Raw message ids\<close>

definition PROTO_MASK :: u32 where
  "PROTO_MASK = 0x80000000"

definition EMSG_MASK :: u32 where
  "EMSG_MASK = NOT PROTO_MASK"

datatype raw_emsg = RawEMsg (raw_emsg_0: u32)

definition raw_is_protobuf :: "raw_emsg \<Rightarrow> bool" where
  "raw_is_protobuf r \<longleftrightarrow> raw_emsg_0 r AND PROTO_MASK \<noteq> 0"

definition raw_emsg_value :: "raw_emsg \<Rightarrow> emsg" where
  "raw_emsg_value r = EMsg (raw_emsg_0 r AND EMSG_MASK)"

definition with_proto :: "emsg \<Rightarrow> raw_emsg" where
  "with_proto e = RawEMsg (emsg_0 e OR PROTO_MASK)"

definition without_proto :: "emsg \<Rightarrow> raw_emsg" where
  "without_proto e = RawEMsg (emsg_0 e)"

section \<open>Lemmas\<close>

text \<open>A message id proper leaves the flag bit clear.\<close>

definition emsg_plain :: "emsg \<Rightarrow> bool" where
  "emsg_plain e \<longleftrightarrow> emsg_0 e AND PROTO_MASK = 0"

lemma PROTO_MASK_exp: "PROTO_MASK = 2 ^ 31"
  by (simp add: PROTO_MASK_def)

lemma PROTO_MASK_nonzero [simp]: "PROTO_MASK \<noteq> 0"
  by (simp add: PROTO_MASK_def)

lemma proto_mask_bit: "w AND PROTO_MASK = 0 \<longleftrightarrow> \<not> bit w 31"
  unfolding PROTO_MASK_exp by (rule and_exp_eq_0_iff_not_bit)

lemma bit_PROTO_MASK: "bit PROTO_MASK n \<longleftrightarrow> n = 31"
  unfolding PROTO_MASK_exp bit_exp_iff by (auto simp: possible_bit_def)

lemma bit_EMSG_MASK: "bit EMSG_MASK n \<longleftrightarrow> n < 31"
  by (auto simp: EMSG_MASK_def bit_not_iff bit_PROTO_MASK possible_bit_def)

lemmas emsg_bits = bit_PROTO_MASK bit_EMSG_MASK bit_and_iff bit_or_iff

lemma bit_u32_less: "bit (w :: u32) n \<Longrightarrow> n < 31 \<or> n = 31"
  using bit_imp_le_length [of w n] by auto

lemma emsg_mask_plain: "w AND PROTO_MASK = 0 \<Longrightarrow> w AND EMSG_MASK = w"
  by (rule bit_eqI) (auto simp: emsg_bits proto_mask_bit dest: bit_u32_less)

lemma emsg_mask_flagged: "w AND PROTO_MASK = 0 \<Longrightarrow> (w OR PROTO_MASK) AND EMSG_MASK = w"
  by (rule bit_eqI) (auto simp: emsg_bits proto_mask_bit dest: bit_u32_less)

lemma emsg_mask_recover: "(w OR PROTO_MASK) AND PROTO_MASK \<noteq> 0"
  unfolding proto_mask_bit by (simp add: emsg_bits)

lemma emsg_mask_and_proto: "(w AND EMSG_MASK) AND PROTO_MASK = 0"
  by (simp add: proto_mask_bit emsg_bits)

lemma emsg_mask_split:
  "w AND PROTO_MASK \<noteq> 0 \<Longrightarrow> (w AND EMSG_MASK) OR PROTO_MASK = w"
  by (rule bit_eqI) (auto simp: emsg_bits proto_mask_bit dest: bit_u32_less)

lemma emsg_names_distinct: "distinct (map fst emsg_names)" "distinct (map snd emsg_names)"
  by (simp_all add: emsg_names_def)

lemma emsg_names_no_numeric: "\<forall>(e, n) \<in> set emsg_names. take 5 n \<noteq> ''EMsg(''"
  by (simp add: emsg_names_def)

section \<open>Properties\<close>

text \<open>
  The display of message types is unambiguous: two different message types are never
  logged under the same text, named or numeric.
\<close>

theorem emsg_display_injective: "inj emsg_display"
proof (rule injI)
  fix a b assume eq: "emsg_display a = emsg_display b"
  have numeric: "take 5 (emsg_display e) = ''EMsg('' \<longleftrightarrow> map_of emsg_names e = None" for e
    using emsg_names_no_numeric
    by (cases "map_of emsg_names e") (auto simp: emsg_display_def dest: map_of_SomeD)
  show "a = b"
  proof (cases "map_of emsg_names a")
    case None
    with numeric eq have "map_of emsg_names b = None" by metis
    with None eq have "unat (emsg_0 a) = unat (emsg_0 b)"
      by (auto simp: emsg_display_def intro: dec_string_inject)
    then show ?thesis by (simp add: emsg.expand word_unat_eq_iff)
  next
    case (Some n)
    with numeric eq obtain m where "map_of emsg_names b = Some m" by (metis option.exhaust)
    with Some eq have "(a, n) \<in> set emsg_names" "(b, n) \<in> set emsg_names"
      by (auto simp: emsg_display_def dest: map_of_SomeD)
    with emsg_names_distinct(2) show ?thesis
      by (fastforce simp: distinct_map inj_on_def)
  qed
qed

text \<open>
  Flagging a message id for protobuf and unflagging it are inverse: the raw id says
  protobuf exactly when it was flagged, and the id comes back unchanged when it fits in
  31 bits; every raw id is the flagged or unflagged form of its message id.
\<close>

theorem raw_emsg_roundtrip:
  "raw_is_protobuf (with_proto e) \<and>
   (if emsg_plain e then raw_emsg_value (with_proto e) = e \<and> raw_emsg_value (without_proto e) = e
      \<and> \<not> raw_is_protobuf (without_proto e) else True) \<and>
   r = (if raw_is_protobuf r then with_proto (raw_emsg_value r) else without_proto (raw_emsg_value r))"
  by (auto simp: raw_is_protobuf_def raw_emsg_value_def with_proto_def without_proto_def
      emsg_plain_def emsg_mask_plain emsg_mask_flagged emsg_mask_recover emsg_mask_split)

end
