(* ===== verification/Errors.thy ===== *)
theory Errors
  imports Ids Emsg
begin

text \<open>
  The error types of \<^verbatim>\<open>crates/steam/src/error.rs\<close>. Errors of the standard library and
  of third-party crates keep what the program looks at: the kind of an I/O error, the
  HTTP status of a \<^verbatim>\<open>reqwest\<close> error.
\<close>

datatype io_error_kind = TimedOut | ConnectionReset | UnexpectedEof | NotFound | InvalidData | OtherKind

datatype parse_error = PUnexpectedEof | InvalidProtobufHeader | Winnow

datatype crypto_error =
    InvalidKeyLength nat nat
  | DecryptionFailed
  | InvalidPadding
  | Rsa

datatype manifest_error =
    InvalidMagic u32
  | MissingSection string
  | ManifestChecksumMismatch string string

datatype connection_error =
    UnexpectedEMsg emsg emsg
  | BadMagic u32 u32
  | PacketTooShort nat nat
  | DnsResolutionFailed string
  | EncryptionFailed eresult_error
  | LogonFailed eresult_error
  | ServiceMethodFailed eresult_error
  | DepotAccessDenied depot_id eresult_error
  | Parse parse_error
  | Disconnected
  | ConnectionIo io_error_kind

datatype steam_error =
    Connection connection_error
  | Crypto crypto_error
  | ProtobufDecode
  | Manifest manifest_error
  | Http "u16 option"
  | Io io_error_kind

type_synonym 'a steam_result = "steam_error + 'a"

end
