(* ===== verification/Crypto.thy ===== *)
theory Crypto
  imports Errors
begin

text \<open>
  \<^verbatim>\<open>crates/steam/src/crypto/mod.rs\<close>, \<^verbatim>\<open>crypto/rsa.rs\<close> and the session cipher of
  \<^verbatim>\<open>connection/encryption.rs\<close>. The block ciphers, the padding, the HMAC and RSA are those
  of the crates \<^verbatim>\<open>aes\<close>, \<^verbatim>\<open>cbc\<close>, \<^verbatim>\<open>hmac\<close> and \<^verbatim>\<open>rsa\<close>: a record of functions that is an
  argument of every definition. Random bytes are arguments too.
\<close>

section \<open>The primitives\<close>

record crypto =
  ecb_encrypt_block :: "bytes \<Rightarrow> bytes \<Rightarrow> bytes"
  ecb_decrypt_block :: "bytes \<Rightarrow> bytes \<Rightarrow> bytes"
  cbc_encrypt_padded :: "bytes \<Rightarrow> bytes \<Rightarrow> bytes \<Rightarrow> bytes"
  cbc_decrypt_padded :: "bytes \<Rightarrow> bytes \<Rightarrow> bytes \<Rightarrow> bytes option"
  hmac_sha1 :: "bytes \<Rightarrow> bytes \<Rightarrow> bytes"

text \<open>
  What is documented of them: AES is a permutation of 16-byte blocks under every 32-byte
  key; CBC with PKCS7 padding yields at least one block, decrypts to what was encrypted,
  and accepts nothing else; an HMAC-SHA1 has 20 bytes.
\<close>

definition ecb_ok :: "('x crypto_scheme) \<Rightarrow> bool" where
  "ecb_ok C \<longleftrightarrow>
     (\<forall>k b. length k = 32 \<longrightarrow> length b = 16 \<longrightarrow>
        length (ecb_encrypt_block C k b) = 16 \<and> length (ecb_decrypt_block C k b) = 16
        \<and> ecb_decrypt_block C k (ecb_encrypt_block C k b) = b
        \<and> ecb_encrypt_block C k (ecb_decrypt_block C k b) = b)"

definition cbc_ok :: "('x crypto_scheme) \<Rightarrow> bool" where
  "cbc_ok C \<longleftrightarrow>
     (\<forall>k iv p c. length k = 32 \<longrightarrow> length iv = 16 \<longrightarrow>
        16 \<le> length (cbc_encrypt_padded C k iv p)
        \<and> (cbc_decrypt_padded C k iv c = Some p \<longleftrightarrow> c = cbc_encrypt_padded C k iv p))"

definition hmac_ok :: "('x crypto_scheme) \<Rightarrow> bool" where
  "hmac_ok C \<longleftrightarrow> (\<forall>k m. length (hmac_sha1 C k m) = 20)"

definition crypto_ok :: "('x crypto_scheme) \<Rightarrow> bool" where
  "crypto_ok C \<longleftrightarrow> ecb_ok C \<and> cbc_ok C \<and> hmac_ok C"

section \<open>Symmetric encryption\<close>

definition symmetric_decrypt_ecb :: "('x crypto_scheme) \<Rightarrow> bytes \<Rightarrow> bytes \<Rightarrow> crypto_error + bytes" where
  "symmetric_decrypt_ecb C key data =
     (if length data < 32 then Inl DecryptionFailed
      else
        let iv = ecb_decrypt_block C key (take 16 data)
        in ok_or (cbc_decrypt_padded C key iv (drop 16 data)) InvalidPadding)"

definition symmetric_encrypt_cbc :: "('x crypto_scheme) \<Rightarrow> bytes \<Rightarrow> bytes \<Rightarrow> bytes \<Rightarrow> bytes" where
  "symmetric_encrypt_cbc C key iv plaintext = cbc_encrypt_padded C key iv plaintext"

definition symmetric_decrypt_cbc ::
  "('x crypto_scheme) \<Rightarrow> bytes \<Rightarrow> bytes \<Rightarrow> bytes \<Rightarrow> crypto_error + bytes" where
  "symmetric_decrypt_cbc C key iv ciphertext =
     ok_or (cbc_decrypt_padded C key iv ciphertext) InvalidPadding"

section \<open>The RSA key exchange\<close>

definition STEAM_PUBLIC_KEY_DER :: bytes where
  "STEAM_PUBLIC_KEY_DER =
    [0x30, 0x81, 0x9D, 0x30, 0x0D, 0x06, 0x09, 0x2A, 0x86, 0x48, 0x86, 0xF7, 0x0D, 0x01, 0x01, 0x01,
     0x05, 0x00, 0x03, 0x81, 0x8B, 0x00, 0x30, 0x81, 0x87, 0x02, 0x81, 0x81, 0x00, 0xDF, 0xEC, 0x1A,
     0xD6, 0x2C, 0x10, 0x66, 0x2C, 0x17, 0x35, 0x3A, 0x14, 0xB0, 0x7C, 0x59, 0x11, 0x7F, 0x9D, 0xD3,
     0xD8, 0x2B, 0x7A, 0xE3, 0xE0, 0x15, 0xCD, 0x19, 0x1E, 0x46, 0xE8, 0x7B, 0x87, 0x74, 0xA2, 0x18,
     0x46, 0x31, 0xA9, 0x03, 0x14, 0x79, 0x82, 0x8E, 0xE9, 0x45, 0xA2, 0x49, 0x12, 0xA9, 0x23, 0x68,
     0x73, 0x89, 0xCF, 0x69, 0xA1, 0xB1, 0x61, 0x46, 0xBD, 0xC1, 0xBE, 0xBF, 0xD6, 0x01, 0x1B, 0xD8,
     0x81, 0xD4, 0xDC, 0x90, 0xFB, 0xFE, 0x4F, 0x52, 0x73, 0x66, 0xCB, 0x95, 0x70, 0xD7, 0xC5, 0x8E,
     0xBA, 0x1C, 0x7A, 0x33, 0x75, 0xA1, 0x62, 0x34, 0x46, 0xBB, 0x60, 0xB7, 0x80, 0x68, 0xFA, 0x13,
     0xA7, 0x7A, 0x8A, 0x37, 0x4B, 0x9E, 0xC6, 0xF4, 0x5D, 0x5F, 0x3A, 0x99, 0xF9, 0x9E, 0xC4, 0x3A,
     0xE9, 0x63, 0xA2, 0xBB, 0x88, 0x19, 0x28, 0xE0, 0xE7, 0x14, 0xC0, 0x42, 0x89, 0x02, 0x01, 0x11]"

definition encrypt_with_steam_public_key ::
  "(bytes \<Rightarrow> 'k option) \<Rightarrow> ('k \<Rightarrow> bytes \<Rightarrow> bytes option) \<Rightarrow> bytes \<Rightarrow> crypto_error + bytes" where
  "encrypt_with_steam_public_key from_public_key_der oaep_sha1_encrypt data =
     and_then (ok_or (from_public_key_der STEAM_PUBLIC_KEY_DER) Rsa) (\<lambda>public_key.
     ok_or (oaep_sha1_encrypt public_key data) Rsa)"

section \<open>The session cipher\<close>

definition AES_BLOCK_SIZE :: nat where "AES_BLOCK_SIZE = 16"
definition HMAC_IV_BYTES :: nat where "HMAC_IV_BYTES = 13"
definition RANDOM_IV_BYTES :: nat where "RANDOM_IV_BYTES = AES_BLOCK_SIZE - HMAC_IV_BYTES"

lemmas cipher_sizes = AES_BLOCK_SIZE_def HMAC_IV_BYTES_def RANDOM_IV_BYTES_def

record session_cipher =
  aes_key :: bytes
  hmac_key :: bytes

definition session_cipher_new :: "bytes \<Rightarrow> session_cipher" where
  "session_cipher_new session_key = \<lparr>aes_key = session_key, hmac_key = take AES_BLOCK_SIZE session_key\<rparr>"

text \<open>The IV: 13 bytes of HMAC over the random bytes and the plaintext, then the random bytes.\<close>

definition build_iv :: "('x crypto_scheme) \<Rightarrow> session_cipher \<Rightarrow> bytes \<Rightarrow> bytes \<Rightarrow> bytes" where
  "build_iv C s random plaintext =
     take HMAC_IV_BYTES (hmac_sha1 C (hmac_key s) (random @ plaintext)) @ random"

definition session_encrypt :: "('x crypto_scheme) \<Rightarrow> session_cipher \<Rightarrow> bytes \<Rightarrow> bytes \<Rightarrow> bytes" where
  "session_encrypt C s random plaintext =
     (let iv = build_iv C s random plaintext
      in ecb_encrypt_block C (aes_key s) iv @ cbc_encrypt_padded C (aes_key s) iv plaintext)"

definition session_decrypt :: "('x crypto_scheme) \<Rightarrow> session_cipher \<Rightarrow> bytes \<Rightarrow> crypto_error + bytes" where
  "session_decrypt C s data =
     (if length data < AES_BLOCK_SIZE * 2 then Inl DecryptionFailed
      else
        let iv = ecb_decrypt_block C (aes_key s) (take AES_BLOCK_SIZE data)
        in and_then (ok_or (cbc_decrypt_padded C (aes_key s) iv (drop AES_BLOCK_SIZE data)) InvalidPadding)
             (\<lambda>plaintext.
           let random = drop HMAC_IV_BYTES iv;
               expected_iv = build_iv C s random plaintext
           in if take HMAC_IV_BYTES expected_iv \<noteq> take HMAC_IV_BYTES iv then Inl DecryptionFailed
              else Inr plaintext))"

section \<open>Lemmas\<close>

lemma ecb_okD:
  assumes "ecb_ok C" "length k = 32" "length b = 16"
  shows "length (ecb_encrypt_block C k b) = 16" "length (ecb_decrypt_block C k b) = 16"
    "ecb_decrypt_block C k (ecb_encrypt_block C k b) = b"
    "ecb_encrypt_block C k (ecb_decrypt_block C k b) = b"
  using assms by (auto simp: ecb_ok_def)

lemma cbc_okD:
  assumes "cbc_ok C" "length k = 32" "length iv = 16"
  shows "16 \<le> length (cbc_encrypt_padded C k iv p)"
    "cbc_decrypt_padded C k iv c = Some p \<longleftrightarrow> c = cbc_encrypt_padded C k iv p"
  using assms by (auto simp: cbc_ok_def)

lemma build_iv_length: "hmac_ok C \<Longrightarrow> length r = 3 \<Longrightarrow> length (build_iv C s r p) = 16"
  by (simp add: build_iv_def hmac_ok_def cipher_sizes)

lemma build_iv_split:
  "hmac_ok C \<Longrightarrow> take 13 (build_iv C s r p) = take 13 (hmac_sha1 C (hmac_key s) (r @ p))"
  "hmac_ok C \<Longrightarrow> drop 13 (build_iv C s r p) = r"
  by (simp_all add: build_iv_def hmac_ok_def cipher_sizes)

lemma symmetric_decrypt_ecb_Inr:
  assumes "crypto_ok C" "length key = 32"
  shows "symmetric_decrypt_ecb C key data = Inr p \<longleftrightarrow>
    (\<exists>iv. length iv = 16 \<and> data = ecb_encrypt_block C key iv @ cbc_encrypt_padded C key iv p)"
proof
  assume *: "symmetric_decrypt_ecb C key data = Inr p"
  let ?iv = "ecb_decrypt_block C key (take 16 data)"
  from * have len: "32 \<le> length data" by (auto simp: symmetric_decrypt_ecb_def split: if_splits)
  from assms len have iv: "length ?iv = 16" by (auto simp: crypto_ok_def ecb_okD(2))
  from * len have "cbc_decrypt_padded C key ?iv (drop 16 data) = Some p"
    by (simp add: symmetric_decrypt_ecb_def Let_def)
  with assms iv have "drop 16 data = cbc_encrypt_padded C key ?iv p"
    by (auto simp: crypto_ok_def cbc_okD(2))
  moreover have "take 16 data = ecb_encrypt_block C key ?iv"
    using assms len by (simp add: crypto_ok_def ecb_okD(4))
  ultimately have "data = ecb_encrypt_block C key ?iv @ cbc_encrypt_padded C key ?iv p"
    by (metis append_take_drop_id)
  with iv show "\<exists>iv. length iv = 16 \<and> data = ecb_encrypt_block C key iv @ cbc_encrypt_padded C key iv p"
    by blast
next
  assume "\<exists>iv. length iv = 16 \<and> data = ecb_encrypt_block C key iv @ cbc_encrypt_padded C key iv p"
  with assms cbc_okD(1) [of C key _ p] show "symmetric_decrypt_ecb C key data = Inr p"
    by (auto simp: symmetric_decrypt_ecb_def Let_def crypto_ok_def ecb_okD cbc_okD(2))
       (metis add_less_cancel_left le_antisym less_or_eq_imp_le linorder_not_le numeral_Bit0)
qed

lemma session_decrypt_accepts:
  assumes "crypto_ok C" "length (aes_key s) = 32"
  shows "session_decrypt C s data = Inr p \<longleftrightarrow>
    (\<exists>random. length random = 3 \<and> data = session_encrypt C s random p)"
proof
  assume *: "session_decrypt C s data = Inr p"
  let ?iv = "ecb_decrypt_block C (aes_key s) (take 16 data)"
  from * have len: "32 \<le> length data"
    by (auto simp: session_decrypt_def cipher_sizes split: if_splits)
  from assms len have iv: "length ?iv = 16" by (auto simp: crypto_ok_def ecb_okD(2))
  from * len have p: "cbc_decrypt_padded C (aes_key s) ?iv (drop 16 data) = Some p"
    and h: "take 13 (build_iv C s (drop 13 ?iv) p) = take 13 ?iv"
    by (auto simp: session_decrypt_def cipher_sizes Let_def elim!: and_thenE split: if_splits)
  have hmac: "hmac_ok C" using assms by (simp add: crypto_ok_def)
  have "build_iv C s (drop 13 ?iv) p = ?iv"
    using h build_iv_split(2) [OF hmac, of s "drop 13 ?iv" p] by (metis append_take_drop_id)
  moreover have "drop 16 data = cbc_encrypt_padded C (aes_key s) ?iv p"
    using p assms iv by (auto simp: crypto_ok_def cbc_okD(2))
  moreover have "take 16 data = ecb_encrypt_block C (aes_key s) ?iv"
    using assms len by (simp add: crypto_ok_def ecb_okD(4))
  ultimately have "data = session_encrypt C s (drop 13 ?iv) p"
    by (simp add: session_encrypt_def Let_def) (metis append_take_drop_id)
  with iv show "\<exists>random. length random = 3 \<and> data = session_encrypt C s random p"
    by (intro exI [of _ "drop 13 ?iv"]) simp
next
  assume "\<exists>random. length random = 3 \<and> data = session_encrypt C s random p"
  then obtain r where r: "length r = 3" "data = session_encrypt C s r p" by blast
  let ?iv = "build_iv C s r p"
  have iv: "length ?iv = 16" using assms r by (simp add: crypto_ok_def build_iv_length)
  have enc: "length (ecb_encrypt_block C (aes_key s) ?iv) = 16"
    "ecb_decrypt_block C (aes_key s) (ecb_encrypt_block C (aes_key s) ?iv) = ?iv"
    "16 \<le> length (cbc_encrypt_padded C (aes_key s) ?iv p)"
    "cbc_decrypt_padded C (aes_key s) ?iv (cbc_encrypt_padded C (aes_key s) ?iv p) = Some p"
    using assms iv by (auto simp: crypto_ok_def ecb_okD cbc_okD)
  have split: "drop 13 ?iv = r" using assms by (simp add: crypto_ok_def build_iv_split)
  show "session_decrypt C s data = Inr p"
    using enc by (simp add: r session_decrypt_def session_encrypt_def cipher_sizes Let_def split)
qed

section \<open>A concrete instance of the primitives\<close>

text \<open>
  Padding without a cipher meets the documented laws; it is used where a property is
  applied to concrete data.
\<close>

definition pkcs7_pad :: "bytes \<Rightarrow> bytes" where
  "pkcs7_pad p = p @ replicate (16 - length p mod 16) (of_nat (16 - length p mod 16))"

definition pkcs7_unpad :: "bytes \<Rightarrow> bytes option" where
  "pkcs7_unpad c =
     (let p = take (length c - unat (last c)) c
      in if c \<noteq> [] \<and> pkcs7_pad p = c then Some p else None)"

definition plain_crypto :: crypto where
  "plain_crypto =
     \<lparr>ecb_encrypt_block = (\<lambda>k b. b), ecb_decrypt_block = (\<lambda>k b. b),
      cbc_encrypt_padded = (\<lambda>k iv p. pkcs7_pad p), cbc_decrypt_padded = (\<lambda>k iv c. pkcs7_unpad c),
      hmac_sha1 = (\<lambda>k m. take 20 (m @ replicate 20 0))\<rparr>"

lemma pkcs7_unpad_iff: "pkcs7_unpad c = Some p \<longleftrightarrow> c = pkcs7_pad p"
proof
  assume c: "c = pkcs7_pad p"
  let ?n = "16 - length p mod 16"
  have n: "0 < ?n" "?n < 256" by (auto intro: le_less_trans [of _ 16])
  then have "last c = of_nat ?n" "c \<noteq> []" by (auto simp: c pkcs7_pad_def)
  moreover have "unat (of_nat m :: u8) = m" if "m < 256" for m
    using that by (simp add: unat_of_nat)
  from this [OF n(2)] have "unat (of_nat ?n :: u8) = ?n" .
  moreover have "length c = length p + ?n" by (simp add: c pkcs7_pad_def)
  ultimately have "take (length c - unat (last c)) c = p" by (simp add: c pkcs7_pad_def)
  with c \<open>c \<noteq> []\<close> show "pkcs7_unpad c = Some p" by (simp add: pkcs7_unpad_def Let_def)
qed (auto simp: pkcs7_unpad_def Let_def split: if_splits)

lemma pkcs7_pad_length: "16 \<le> length (pkcs7_pad p)"
proof -
  have "length p mod 16 \<le> length p" "length p mod 16 < 16" by auto
  then show ?thesis by (simp add: pkcs7_pad_def)
qed

lemma plain_crypto_ok: "crypto_ok plain_crypto"
  by (simp add: crypto_ok_def ecb_ok_def cbc_ok_def hmac_ok_def plain_crypto_def pkcs7_unpad_iff
      pkcs7_pad_length min_def)

section \<open>Properties\<close>

text \<open>
  C25: a session decrypts a packet to a plaintext if and only if the packet is what the
  same session's \<^verbatim>\<open>encrypt\<close> makes of that plaintext with some three random bytes: every
  encrypted message is read back, and no packet that is not such an encryption, with the
  right HMAC in its IV, is accepted.
\<close>

theorem session_decrypt_iff_encrypted:
  assumes "crypto_ok C" "length session_key = 32"
  shows "session_decrypt C (session_cipher_new session_key) data = Inr p \<longleftrightarrow>
    (\<exists>random. length random = RANDOM_IV_BYTES
       \<and> data = session_encrypt C (session_cipher_new session_key) random p)"
  using assms session_decrypt_accepts [of C "session_cipher_new session_key" data p]
  by (simp add: session_cipher_new_def cipher_sizes)

theorem session_decrypt_iff_encrypted_witness:
  "session_decrypt plain_crypto (session_cipher_new (replicate 32 66))
     (session_encrypt plain_crypto (session_cipher_new (replicate 32 66)) [1, 2, 3] [72, 105])
   = Inr [72, 105]"
proof -
  have "length (replicate 32 (66 :: u8)) = 32" by simp
  from session_decrypt_iff_encrypted [OF plain_crypto_ok this,
      of "session_encrypt plain_crypto (session_cipher_new (replicate 32 66)) [1, 2, 3] [72, 105]" "[72, 105]"]
  show ?thesis by (auto simp: cipher_sizes intro!: exI [of _ "[1, 2, 3]"])
qed

end
