(* ===== verification/Manifest.thy ===== *)
theory Manifest
  imports Crypto Key_Value Trim
begin

text \<open>
  Depot manifests, \<^verbatim>\<open>crates/steam/src/depot/manifest.rs\<close>: the binary format (version 4),
  the protobuf section format (version 5) and the decryption of file names. The protobuf
  messages are decoded by \<^verbatim>\<open>prost\<close>, base64 by the \<^verbatim>\<open>base64\<close> crate: arguments of
  the definitions.
\<close>

section \<open>Data\<close>

record manifest_chunk =
  mc_id :: "chunk_id option"
  mc_checksum :: "u32 option"
  mc_offset :: "u64 option"
  mc_compressed_size :: "u32 option"
  mc_uncompressed_size :: "u32 option"

record manifest_file =
  mf_filename :: "string option"
  mf_size :: "u64 option"
  mf_flags :: "u32 option"
  mf_sha_content :: "bytes option"
  mf_chunks :: "manifest_chunk list"
  mf_link_target :: "string option"

record depot_manifest =
  dm_depot_id :: "depot_id option"
  dm_manifest_id :: "manifest_id option"
  dm_creation_time :: "u32 option"
  dm_filenames_encrypted :: bool
  dm_total_uncompressed_size :: "u64 option"
  dm_total_compressed_size :: "u64 option"
  dm_files :: "manifest_file list"

type_synonym 'a manifest_result = "manifest_error + 'a"

text \<open>\<^verbatim>\<open>r.read_uN().map_err(|_| ManifestError::MissingSection(s))\<close>.\<close>

definition read_or :: "string \<Rightarrow> (bytes \<Rightarrow> ('a \<times> bytes) option) \<Rightarrow> bytes \<Rightarrow> ('a \<times> bytes) manifest_result" where
  "read_or s rd r = ok_or (rd r) (MissingSection s)"

section \<open>The binary format\<close>

definition v4_chunk :: "bytes \<Rightarrow> (manifest_chunk \<times> bytes) manifest_result" where
  "v4_chunk r =
     and_then (read_or ''v4 chunk sha'' (read_exact 20) r) (\<lambda>(sha, r).
     and_then (read_or ''v4 chunk checksum'' read_u32 r) (\<lambda>(checksum, r).
     and_then (read_or ''v4 chunk offset'' read_u64 r) (\<lambda>(offset, r).
     and_then (read_or ''v4 chunk uncompressed'' read_u32 r) (\<lambda>(uncompressed_size, r).
     and_then (read_or ''v4 chunk compressed'' read_u32 r) (\<lambda>(compressed_size, r).
     Inr (\<lparr>mc_id = Some (ChunkId sha), mc_checksum = Some checksum, mc_offset = Some offset,
           mc_compressed_size = Some compressed_size,
           mc_uncompressed_size = Some uncompressed_size\<rparr>, r))))))"

text \<open>The loop \<^verbatim>\<open>for _ in 0..num_chunks\<close>.\<close>

primrec v4_chunks :: "nat \<Rightarrow> bytes \<Rightarrow> (manifest_chunk list \<times> bytes) manifest_result" where
  "v4_chunks 0 r = Inr ([], r)"
| "v4_chunks (Suc n) r =
     and_then (v4_chunk r) (\<lambda>(c, r).
     and_then (v4_chunks n r) (\<lambda>(cs, r). Inr (c # cs, r)))"

definition v4_file :: "bytes \<Rightarrow> (manifest_file \<times> bytes) manifest_result" where
  "v4_file r =
     and_then (read_or ''v4 filename nul terminator'' (take_until 0) r) (\<lambda>(name, r).
     let filename = from_utf8_lossy name; r = drop 1 r
     in and_then (read_or ''v4 file size'' read_u64 r) (\<lambda>(size, r).
     and_then (read_or ''v4 file flags'' read_u32 r) (\<lambda>(flags, r).
     and_then (read_or ''v4 hash_content'' (read_exact 20) r) (\<lambda>(hash_content, r).
     and_then (read_or ''v4 hash_filename'' (read_exact 20) r) (\<lambda>(hash_filename, r).
     and_then (read_or ''v4 num_chunks'' read_u32 r) (\<lambda>(num_chunks, r).
     and_then (v4_chunks (unat num_chunks) r) (\<lambda>(chunks, r).
     Inr (\<lparr>mf_filename = Some filename, mf_size = Some size, mf_flags = Some flags,
           mf_sha_content = Some hash_content, mf_chunks = chunks, mf_link_target = None\<rparr>, r))))))))"

lemma read_or_Inr [simp]: "read_or s rd r = Inr x \<longleftrightarrow> rd r = Some x"
  by (simp add: read_or_def)

lemma v4_chunk_length: "v4_chunk r = Inr (c, r') \<Longrightarrow> length r = 40 + length r'"
  by (auto simp: v4_chunk_def read_exact_Some elim!: and_thenE dest!: reads_length)

lemma v4_chunks_length: "v4_chunks n r = Inr (cs, r') \<Longrightarrow> length r = 40 * n + length r'"
  by (induction n arbitrary: r cs) (auto elim!: and_thenE dest!: v4_chunk_length)

lemma v4_file_length: "v4_file r = Inr (f, r') \<Longrightarrow> length r' < length r"
  by (auto simp: v4_file_def Let_def read_exact_Some elim!: and_thenE
      dest!: reads_length v4_chunks_length take_until_Some)

text \<open>The loop \<^verbatim>\<open>while consumed < file_mapping_size\<close>.\<close>

function v4_files ::
  "nat \<Rightarrow> nat \<Rightarrow> manifest_file list \<Rightarrow> bytes \<Rightarrow> (manifest_file list \<times> bytes) manifest_result" where
  "v4_files file_mapping_size consumed files r =
     (if consumed < file_mapping_size
      then and_then (v4_file r) (\<lambda>(file, r').
           v4_files file_mapping_size (consumed + (length r - length r')) (files @ [file]) r')
      else Inr (files, r))"
  by pat_completeness auto
termination
  by (relation "measure (\<lambda>(_, _, _, r). length r)") (auto dest: v4_file_length)

declare v4_files.simps [simp del]

definition parse_v4 :: "bytes \<Rightarrow> depot_manifest manifest_result" where
  "parse_v4 data =
     and_then (read_or ''v4 header'' read_u32 data) (\<lambda>(magic, r).
     and_then (read_or ''v4 version'' read_u32 r) (\<lambda>(version, r).
     if version \<noteq> 4 then Inl (InvalidMagic version) else
     and_then (read_or ''v4 depot_id'' read_u32 r) (\<lambda>(depot_id, r).
     and_then (read_or ''v4 manifest_gid'' read_u64 r) (\<lambda>(manifest_gid, r).
     and_then (read_or ''v4 creation_time'' read_u32 r) (\<lambda>(creation_time, r).
     and_then (read_or ''v4 filenames_encrypted'' read_u32 r) (\<lambda>(encrypted, r).
     let filenames_encrypted = (encrypted \<noteq> 0) in
     and_then (read_or ''v4 total_uncompressed'' read_u64 r) (\<lambda>(total_uncompressed, r).
     and_then (read_or ''v4 total_compressed'' read_u64 r) (\<lambda>(total_compressed, r).
     and_then (read_or ''v4 chunk_count'' read_u32 r) (\<lambda>(chunk_count, r).
     and_then (read_or ''v4 file_entry_count'' read_u32 r) (\<lambda>(file_entry_count, r).
     and_then (read_or ''v4 file_mapping_size'' read_u32 r) (\<lambda>(file_mapping_size, r).
     and_then (read_or ''v4 encrypted_crc'' read_u32 r) (\<lambda>(encrypted_crc, r).
     and_then (read_or ''v4 decrypted_crc'' read_u32 r) (\<lambda>(decrypted_crc, r).
     and_then (read_or ''v4 flags'' read_u32 r) (\<lambda>(flags, r).
     and_then (v4_files (unat file_mapping_size) 0 [] r) (\<lambda>(files, r).
     Inr \<lparr>dm_depot_id = Some (DepotId depot_id), dm_manifest_id = Some (ManifestId manifest_gid),
          dm_creation_time = Some creation_time, dm_filenames_encrypted = filenames_encrypted,
          dm_total_uncompressed_size = Some total_uncompressed,
          dm_total_compressed_size = Some total_compressed, dm_files = files\<rparr>)))))))))))))))"

section \<open>The protobuf format\<close>

text \<open>The messages of \<^verbatim>\<open>content_manifest.proto\<close>, with the fields the program reads.\<close>

record chunk_data =
  cd_sha :: "bytes option"
  cd_crc :: "u32 option"
  cd_offset :: "u64 option"
  cd_cb_original :: "u32 option"
  cd_cb_compressed :: "u32 option"

record file_mapping =
  fm_filename :: "string option"
  fm_size :: "u64 option"
  fm_flags :: "u32 option"
  fm_sha_content :: "bytes option"
  fm_chunks :: "chunk_data list"
  fm_linktarget :: "string option"

record manifest_metadata =
  md_depot_id :: "u32 option"
  md_gid_manifest :: "u64 option"
  md_creation_time :: "u32 option"
  md_filenames_encrypted :: "bool option"
  md_cb_disk_original :: "u64 option"
  md_cb_disk_compressed :: "u64 option"

record manifest_codec =
  decode_payload :: "bytes \<Rightarrow> file_mapping list option"
  decode_metadata :: "bytes \<Rightarrow> manifest_metadata option"
  decode_signature :: "bytes \<Rightarrow> unit option"

record v5_state =
  v5_payload :: "file_mapping list option"
  v5_metadata :: "manifest_metadata option"

definition try_sha_array :: "bytes \<Rightarrow> bytes option" where
  "try_sha_array bytes = (if length bytes = 20 then Some bytes else None)"

definition v5_section ::
  "manifest_codec \<Rightarrow> u32 \<Rightarrow> bytes \<Rightarrow> v5_state \<Rightarrow> v5_state manifest_result" where
  "v5_section X magic section_data st =
     (case magic_from_u32 magic of
        Some PayloadV5 \<Rightarrow>
          and_then (ok_or (decode_payload X section_data) (MissingSection ''payload decode failed''))
            (\<lambda>p. Inr (st\<lparr>v5_payload := Some p\<rparr>))
      | Some Metadata \<Rightarrow>
          and_then (ok_or (decode_metadata X section_data) (MissingSection ''metadata decode failed''))
            (\<lambda>m. Inr (st\<lparr>v5_metadata := Some m\<rparr>))
      | Some Signature \<Rightarrow>
          and_then (ok_or (decode_signature X section_data) (MissingSection ''signature decode failed''))
            (\<lambda>_. Inr st)
      | _ \<Rightarrow> Inl (InvalidMagic magic))"

function v5_loop :: "manifest_codec \<Rightarrow> v5_state \<Rightarrow> bytes \<Rightarrow> v5_state manifest_result" where
  "v5_loop X st reader =
     and_then (read_or ''unexpected EOF reading magic'' read_u32 reader) (\<lambda>(magic, r1).
     if magic = magic_u32 EndOfManifest then Inr st else
     and_then (read_or ''unexpected EOF reading length'' read_u32 r1) (\<lambda>(len, r2).
     if length r2 < unat len then Inl (MissingSection ''section data truncated'') else
     and_then (v5_section X magic (take (unat len) r2) st) (\<lambda>st'.
     v5_loop X st' (drop (unat len) r2))))"
  by pat_completeness auto
termination
  by (relation "measure (\<lambda>(_, _, r). length r)") (auto dest!: reads_length)

declare v5_loop.simps [simp del]

definition v5_convert_chunk :: "chunk_data \<Rightarrow> manifest_chunk" where
  "v5_convert_chunk c =
     \<lparr>mc_id = map_option ChunkId (Option.bind (cd_sha c) try_sha_array), mc_checksum = cd_crc c,
      mc_offset = cd_offset c, mc_compressed_size = cd_cb_compressed c,
      mc_uncompressed_size = cd_cb_original c\<rparr>"

definition v5_convert_file :: "file_mapping \<Rightarrow> manifest_file" where
  "v5_convert_file m =
     \<lparr>mf_filename = fm_filename m, mf_size = fm_size m, mf_flags = fm_flags m,
      mf_sha_content = Option.bind (fm_sha_content m) try_sha_array,
      mf_chunks = map v5_convert_chunk (fm_chunks m),
      mf_link_target = (case fm_linktarget m of Some s \<Rightarrow> if s = [] then None else Some s | None \<Rightarrow> None)\<rparr>"

definition v5_manifest :: "file_mapping list \<Rightarrow> manifest_metadata \<Rightarrow> depot_manifest" where
  "v5_manifest payload metadata =
     \<lparr>dm_depot_id = map_option DepotId (md_depot_id metadata),
      dm_manifest_id = map_option ManifestId (md_gid_manifest metadata),
      dm_creation_time = md_creation_time metadata,
      dm_filenames_encrypted = unwrap_or (md_filenames_encrypted metadata) False,
      dm_total_uncompressed_size = md_cb_disk_original metadata,
      dm_total_compressed_size = md_cb_disk_compressed metadata,
      dm_files = map v5_convert_file payload\<rparr>"

definition parse_v5 :: "manifest_codec \<Rightarrow> bytes \<Rightarrow> depot_manifest manifest_result" where
  "parse_v5 X data =
     and_then (v5_loop X \<lparr>v5_payload = None, v5_metadata = None\<rparr> data) (\<lambda>st.
     and_then (ok_or (v5_payload st) (MissingSection ''payload'')) (\<lambda>payload.
     and_then (ok_or (v5_metadata st) (MissingSection ''metadata'')) (\<lambda>metadata.
     Inr (v5_manifest payload metadata))))"

definition parse_manifest :: "manifest_codec \<Rightarrow> bytes \<Rightarrow> depot_manifest manifest_result" where
  "parse_manifest X data =
     (if length data < 4 then Inl (MissingSection ''manifest too short'')
      else
        let magic = from_le (take 4 data) :: u32
        in if magic = magic_u32 V4 then parse_v4 data else parse_v5 X data)"

section \<open>The bytes of a binary manifest\<close>

text \<open>What the format can carry: every field present, identifiers and hashes of 20 bytes.\<close>

definition sha_ok :: "bytes option \<Rightarrow> bool" where
  "sha_ok s \<longleftrightarrow> (case s of None \<Rightarrow> False | Some b \<Rightarrow> length b = 20)"

definition v4_chunk_fits :: "manifest_chunk \<Rightarrow> bool" where
  "v4_chunk_fits c \<longleftrightarrow>
     sha_ok (map_option chunk_id_0 (mc_id c)) \<and> mc_checksum c \<noteq> None \<and> mc_offset c \<noteq> None
     \<and> mc_compressed_size c \<noteq> None \<and> mc_uncompressed_size c \<noteq> None"

definition v4_file_fits :: "manifest_file \<Rightarrow> bool" where
  "v4_file_fits f \<longleftrightarrow>
     (case mf_filename f of None \<Rightarrow> False | Some s \<Rightarrow> name_ok s)
     \<and> mf_size f \<noteq> None \<and> mf_flags f \<noteq> None \<and> sha_ok (mf_sha_content f)
     \<and> list_all v4_chunk_fits (mf_chunks f) \<and> length (mf_chunks f) < 2 ^ 32 \<and> mf_link_target f = None"

definition v4_chunk_write :: "manifest_chunk \<Rightarrow> bytes" where
  "v4_chunk_write c =
     chunk_id_0 (the (mc_id c)) @ to_le 4 (the (mc_checksum c)) @ to_le 8 (the (mc_offset c))
     @ to_le 4 (the (mc_uncompressed_size c)) @ to_le 4 (the (mc_compressed_size c))"

text \<open>The hash of the file name, which the parser skips, is an argument.\<close>

definition v4_file_write :: "(string \<Rightarrow> bytes) \<Rightarrow> manifest_file \<Rightarrow> bytes" where
  "v4_file_write name_hash f =
     null_string (the (mf_filename f)) @ to_le 8 (the (mf_size f)) @ to_le 4 (the (mf_flags f))
     @ the (mf_sha_content f) @ name_hash (the (mf_filename f))
     @ to_le 4 (of_nat (length (mf_chunks f)) :: u32) @ concat (map v4_chunk_write (mf_chunks f))"

text \<open>The header fields that the parser reads and drops.\<close>

record v4_unused =
  vu_chunk_count :: u32
  vu_file_entry_count :: u32
  vu_encrypted_crc :: u32
  vu_decrypted_crc :: u32
  vu_flags :: u32

definition v4_write :: "(string \<Rightarrow> bytes) \<Rightarrow> v4_unused \<Rightarrow> depot_manifest \<Rightarrow> bytes" where
  "v4_write name_hash u m =
     (let mappings = concat (map (v4_file_write name_hash) (dm_files m))
      in to_le 4 (magic_u32 V4) @ to_le 4 (4 :: u32)
         @ to_le 4 (depot_id_0 (the (dm_depot_id m)))
         @ to_le 8 (manifest_id_0 (the (dm_manifest_id m)))
         @ to_le 4 (the (dm_creation_time m))
         @ to_le 4 (if dm_filenames_encrypted m then 1 else 0 :: u32)
         @ to_le 8 (the (dm_total_uncompressed_size m))
         @ to_le 8 (the (dm_total_compressed_size m))
         @ to_le 4 (vu_chunk_count u) @ to_le 4 (vu_file_entry_count u)
         @ to_le 4 (of_nat (length mappings) :: u32)
         @ to_le 4 (vu_encrypted_crc u) @ to_le 4 (vu_decrypted_crc u) @ to_le 4 (vu_flags u)
         @ mappings)"

definition v4_fits :: "(string \<Rightarrow> bytes) \<Rightarrow> depot_manifest \<Rightarrow> bool" where
  "v4_fits name_hash m \<longleftrightarrow>
     dm_depot_id m \<noteq> None \<and> dm_manifest_id m \<noteq> None \<and> dm_creation_time m \<noteq> None
     \<and> dm_total_uncompressed_size m \<noteq> None \<and> dm_total_compressed_size m \<noteq> None
     \<and> list_all v4_file_fits (dm_files m)
     \<and> length (concat (map (v4_file_write name_hash) (dm_files m))) < 2 ^ 32"

text \<open>A protobuf manifest: sections in any order, each a magic, a length and its bytes.\<close>

datatype v5_section = Section manifest_magic bytes

primrec v5_section_bytes :: "v5_section \<Rightarrow> bytes" where
  "v5_section_bytes (Section magic d) = to_le 4 (magic_u32 magic) @ to_le 4 (of_nat (length d) :: u32) @ d"

primrec v5_section_ok :: "manifest_codec \<Rightarrow> v5_section \<Rightarrow> bool" where
  "v5_section_ok X (Section magic d) \<longleftrightarrow>
     length d < 2 ^ 32
     \<and> (case magic of PayloadV5 \<Rightarrow> decode_payload X d \<noteq> None | Metadata \<Rightarrow> decode_metadata X d \<noteq> None
        | Signature \<Rightarrow> decode_signature X d \<noteq> None | _ \<Rightarrow> False)"

definition v5_write :: "v5_section list \<Rightarrow> bytes" where
  "v5_write ss = concat (map v5_section_bytes ss) @ to_le 4 (magic_u32 EndOfManifest)"

text \<open>The last section of a kind.\<close>

fun last_section :: "manifest_magic \<Rightarrow> v5_section list \<Rightarrow> bytes option" where
  "last_section g [] = None"
| "last_section g (Section magic d # ss) =
     (case last_section g ss of Some d' \<Rightarrow> Some d' | None \<Rightarrow> if magic = g then Some d else None)"

text \<open>A codec for concrete examples: a payload of no files, metadata whose depot id is the length.\<close>

definition sample_codec :: manifest_codec where
  "sample_codec =
     \<lparr>decode_payload = (\<lambda>b. if b = [] then Some [] else None),
      decode_metadata = (\<lambda>b. Some \<lparr>md_depot_id = Some (of_nat (length b)), md_gid_manifest = None,
        md_creation_time = None, md_filenames_encrypted = None, md_cb_disk_original = None,
        md_cb_disk_compressed = None\<rparr>),
      decode_signature = (\<lambda>_. Some ())\<rparr>"

section \<open>Lemmas\<close>

lemma read_or_ok [simp]: "rd r = Some x \<Longrightarrow> read_or s rd r = Inr x"
  by (simp add: read_or_def)

lemma v4_chunk_write_parse:
  "v4_chunk_fits c \<Longrightarrow> v4_chunk (v4_chunk_write c @ r) = Inr (c, r)"
  by (cases c, cases "mc_id c")
     (auto simp: v4_chunk_fits_def sha_ok_def v4_chunk_def v4_chunk_write_def split: option.splits)

interpretation v4_chunk: wire_codec v4_chunk_write "\<lambda>b. result_ok (v4_chunk b)" v4_chunk_fits
proof unfold_locales
  show "v4_chunk_fits c \<Longrightarrow> result_ok (v4_chunk (v4_chunk_write c @ r)) = Some (c, r)" for c r
    by (simp add: v4_chunk_write_parse)
  show "result_ok (v4_chunk b) = Some (x, r) \<Longrightarrow> result_ok (v4_chunk (b @ c)) = Some (x, r @ c)" for b x r c
    by (auto simp: v4_chunk_def read_exact_Some reads_append elim!: and_thenE)
  show "result_ok (v4_chunk b) = Some (x, r) \<Longrightarrow> length r < length b" for b x r
    by (auto dest: v4_chunk_length)
qed

text \<open>The counted loop is the repeated decoding of the contract.\<close>

lemma v4_chunks_decode_n: "result_ok (v4_chunks n r) = decode_n n (\<lambda>b. result_ok (v4_chunk b)) r"
proof (induction n arbitrary: r)
  case (Suc n)
  show ?case
  proof (cases "v4_chunk r")
    case (Inr p)
    obtain c r' where "p = (c, r')" by (cases p)
    with Inr Suc [of r', symmetric] show ?thesis
      by (cases "v4_chunks n r'") auto
  qed simp
qed simp

lemma v4_chunks_write:
  "list_all v4_chunk_fits cs \<Longrightarrow> v4_chunks (length cs) (concat (map v4_chunk_write cs) @ r) = Inr (cs, r)"
  using v4_chunk.decode_n_enc [of cs "length cs" r] v4_chunks_decode_n [of "length cs"]
  by (simp add: list_all_iff flip: result_ok_eq_Some)

lemma v4_file_write_parse:
  assumes "v4_file_fits f" and "\<And>s. length (name_hash s) = 20"
  shows "v4_file (v4_file_write name_hash f @ r) = Inr (f, r)"
proof -
  obtain s z fl sha cs where
    f: "f = \<lparr>mf_filename = Some s, mf_size = Some z, mf_flags = Some fl, mf_sha_content = Some sha,
      mf_chunks = cs, mf_link_target = None\<rparr>"
    and s: "name_ok s" and sha: "length sha = 20" and cs: "list_all v4_chunk_fits cs" "length cs < 2 ^ 32"
    using assms(1) by (cases f) (auto simp: v4_file_fits_def sha_ok_def split: option.splits)
  from cs(2) have "unat (of_nat (length cs) :: u32) = length cs" by (simp add: unat_of_nat)
  with s sha cs assms(2) show ?thesis
    by (simp add: f v4_file_def v4_file_write_def null_string_def take_until_append Let_def
        name_ok_def v4_chunks_write)
qed

lemma v4_file_write_length: "0 < length (v4_file_write name_hash f)"
  by (simp add: v4_file_write_def null_string_def)

lemma v4_files_write:
  assumes "list_all v4_file_fits fs" and "\<And>s. length (name_hash s) = 20"
    and "k + length (concat (map (v4_file_write name_hash) fs)) = n"
  shows "v4_files n k acc (concat (map (v4_file_write name_hash) fs) @ r) = Inr (acc @ fs, r)"
  using assms
proof (induction fs arbitrary: k acc)
  case Nil
  then show ?case by (simp add: v4_files.simps [of n])
next
  case (Cons f fs)
  let ?rest = "concat (map (v4_file_write name_hash) fs)"
  have "k < n"
    using Cons.prems(3) v4_file_write_length [of name_hash f]
    unfolding list.map concat.simps length_append by linarith
  moreover have "v4_files n (k + length (v4_file_write name_hash f)) (acc @ [f]) (?rest @ r) = Inr ((acc @ [f]) @ fs, r)"
    using Cons.prems by (intro Cons.IH) auto
  ultimately show ?case
    using Cons.prems v4_file_write_parse [of f name_hash "?rest @ r"]
    by (simp add: v4_files.simps [of n k])
qed

lemma parse_v4_write:
  assumes "v4_fits name_hash m" and "\<And>s. length (name_hash s) = 20"
  shows "parse_v4 (v4_write name_hash u m @ t) = Inr m"
proof -
  let ?b = "concat (map (v4_file_write name_hash) (dm_files m))"
  obtain a b c d e where
    m: "dm_depot_id m = Some a" "dm_manifest_id m = Some b" "dm_creation_time m = Some c"
    "dm_total_uncompressed_size m = Some d" "dm_total_compressed_size m = Some e"
    using assms(1) by (auto simp: v4_fits_def)
  have "v4_files (length ?b) 0 [] (?b @ t) = Inr (dm_files m, t)"
    using v4_files_write [of "dm_files m" name_hash 0 "length ?b" "[]" t] assms by (simp add: v4_fits_def)
  moreover have "unat (of_nat (length ?b) :: u32) = length ?b"
    using assms(1) by (simp add: v4_fits_def unat_of_nat)
  ultimately show ?thesis
    using m by (simp add: parse_v4_def v4_write_def Let_def del: length_concat)
qed

text \<open>The section loop keeps the last payload and the last metadata.\<close>

lemma v5_section_ok_step:
  assumes "v5_section_ok X (Section magic d)"
  shows "v5_loop X st (v5_section_bytes (Section magic d) @ r) =
     v5_loop X (case magic of PayloadV5 \<Rightarrow> st\<lparr>v5_payload := decode_payload X d\<rparr>
       | Metadata \<Rightarrow> st\<lparr>v5_metadata := decode_metadata X d\<rparr> | _ \<Rightarrow> st) r"
proof -
  have d: "unat (of_nat (length d) :: u32) = length d" using assms by (simp add: unat_of_nat)
  show ?thesis
    by (subst v5_loop.simps)
       (use assms d in \<open>auto simp: v5_section_def split: manifest_magic.splits option.splits\<close>)
qed

lemma v5_loop_write:
  "list_all (v5_section_ok X) ss \<Longrightarrow>
   v5_loop X st (v5_write ss @ t) =
     Inr \<lparr>v5_payload = (case last_section PayloadV5 ss of None \<Rightarrow> v5_payload st | Some d \<Rightarrow> decode_payload X d),
          v5_metadata = (case last_section Metadata ss of None \<Rightarrow> v5_metadata st | Some d \<Rightarrow> decode_metadata X d)\<rparr>"
proof (induction ss arbitrary: st)
  case Nil
  then show ?case
    by (subst v5_loop.simps) (simp add: v5_write_def)
next
  case (Cons s ss)
  obtain magic d where s: "s = Section magic d" by (cases s)
  have "v5_loop X st (v5_write (s # ss) @ t) = v5_loop X st (v5_section_bytes s @ v5_write ss @ t)"
    by (simp add: v5_write_def)
  also have "\<dots> = v5_loop X (case magic of PayloadV5 \<Rightarrow> st\<lparr>v5_payload := decode_payload X d\<rparr>
       | Metadata \<Rightarrow> st\<lparr>v5_metadata := decode_metadata X d\<rparr> | _ \<Rightarrow> st) (v5_write ss @ t)"
    using Cons.prems unfolding s by (intro v5_section_ok_step) simp
  finally show ?case
    using Cons s by (cases magic) (auto split: option.splits)
qed

lemma last_section_ok:
  "list_all (v5_section_ok X) ss \<Longrightarrow> last_section g ss = Some d \<Longrightarrow> v5_section_ok X (Section g d)"
  by (induction g ss rule: last_section.induct) (auto split: option.splits if_splits)

lemma take_4_magic: "take 4 (to_le 4 w @ r) = to_le 4 w"
  by simp

lemma v5_write_magic:
  assumes "list_all (v5_section_ok X) ss"
  shows "\<exists>g r. v5_write ss @ t = to_le 4 (magic_u32 g) @ r \<and> g \<noteq> V4"
proof (cases ss)
  case Nil
  then show ?thesis by (intro exI [of _ EndOfManifest]) (simp add: v5_write_def)
next
  case (Cons s ss')
  obtain g d where "s = Section g d" by (cases s)
  with Cons assms show ?thesis by (intro exI [of _ g]) (auto simp: v5_write_def)
qed

lemma parse_manifest_v4_write:
  assumes "v4_fits name_hash m" and "\<And>s. length (name_hash s) = 20"
  shows "parse_manifest X (v4_write name_hash u m @ t) = Inr m"
proof -
  have "take 4 (v4_write name_hash u m @ t) = to_le 4 (magic_u32 V4)"
    by (simp add: v4_write_def Let_def)
  moreover have "4 \<le> length (v4_write name_hash u m @ t)"
    by (simp add: v4_write_def Let_def)
  ultimately show ?thesis
    using parse_v4_write [OF assms]
    by (simp add: parse_manifest_def from_le_to_le del: length_append)
qed

section \<open>Properties\<close>

text \<open>
  C26: a binary (version 4) manifest is read back exactly as it was written: every file with
  its name, size, flags and hash and every chunk with its id, checksum, offset and sizes, in
  order. The header counts and CRCs and whatever follows the file mappings, the announced
  end marker included, have no influence: nothing checks them.
\<close>

theorem parse_manifest_v4_roundtrip:
  assumes "v4_fits name_hash m" and "\<And>s. length (name_hash s) = 20"
  shows "parse_manifest X (v4_write name_hash u m @ t) = Inr m"
  using assms by (rule parse_manifest_v4_write)

theorem parse_manifest_v4_roundtrip_witness:
  "let c = \<lparr>mc_id = Some (ChunkId (replicate 20 7)), mc_checksum = Some 1, mc_offset = Some 0,
         mc_compressed_size = Some 5, mc_uncompressed_size = Some 9\<rparr>;
       f = \<lparr>mf_filename = Some ''a.txt'', mf_size = Some 9, mf_flags = Some 0,
         mf_sha_content = Some (replicate 20 1), mf_chunks = [c], mf_link_target = None\<rparr>;
       m = \<lparr>dm_depot_id = Some (DepotId 481), dm_manifest_id = Some (ManifestId 3),
         dm_creation_time = Some 0, dm_filenames_encrypted = False,
         dm_total_uncompressed_size = Some 9, dm_total_compressed_size = Some 5, dm_files = [f]\<rparr>;
       u = \<lparr>vu_chunk_count = 1, vu_file_entry_count = 1, vu_encrypted_crc = 0, vu_decrypted_crc = 0, vu_flags = 0\<rparr>
   in parse_manifest sample_codec (v4_write (\<lambda>_. replicate 20 0) u m) = Inr m"
proof -
  let ?c = "\<lparr>mc_id = Some (ChunkId (replicate 20 7)), mc_checksum = Some 1, mc_offset = Some 0,
         mc_compressed_size = Some 5, mc_uncompressed_size = Some 9\<rparr>"
  let ?f = "\<lparr>mf_filename = Some ''a.txt'', mf_size = Some 9, mf_flags = Some 0,
         mf_sha_content = Some (replicate 20 1), mf_chunks = [?c], mf_link_target = None\<rparr>"
  let ?m = "\<lparr>dm_depot_id = Some (DepotId 481), dm_manifest_id = Some (ManifestId 3),
         dm_creation_time = Some 0, dm_filenames_encrypted = False,
         dm_total_uncompressed_size = Some 9, dm_total_compressed_size = Some 5, dm_files = [?f]\<rparr>"
  have "name_ok ''a.txt''" by code_simp
  then have "v4_fits (\<lambda>_. replicate 20 0) ?m"
    by (simp add: v4_fits_def v4_file_fits_def v4_chunk_fits_def sha_ok_def v4_file_write_def
        v4_chunk_write_def null_string_def)
  from parse_manifest_v4_roundtrip [OF this, of sample_codec _ "[]"] show ?thesis by (simp add: Let_def)
qed

text \<open>
  C27: a protobuf (version 5) manifest is read section by section in any order; the last
  payload and the last metadata section count, both must be there, and the bytes behind the
  end marker are ignored.
\<close>

theorem parse_manifest_v5_sections:
  assumes "list_all (v5_section_ok X) ss"
  shows "parse_manifest X (v5_write ss @ t) =
    (case (Option.bind (last_section PayloadV5 ss) (decode_payload X),
           Option.bind (last_section Metadata ss) (decode_metadata X)) of
       (None, _) \<Rightarrow> Inl (MissingSection ''payload'')
     | (Some p, None) \<Rightarrow> Inl (MissingSection ''metadata'')
     | (Some p, Some m) \<Rightarrow> Inr (v5_manifest p m))"
proof -
  from v5_write_magic [OF assms] obtain g r where
    g: "v5_write ss @ t = to_le 4 (magic_u32 g) @ r" "g \<noteq> V4" by blast
  then have "magic_u32 g \<noteq> magic_u32 V4" by (metis magic_from_u32_u32 option.inject)
  then have "parse_manifest X (v5_write ss @ t) = parse_v5 X (v5_write ss @ t)"
    unfolding parse_manifest_def g(1) by (simp add: from_le_to_le)
  then show ?thesis
    by (simp add: parse_v5_def v5_loop_write [OF assms] split: option.splits)
qed

theorem parse_manifest_v5_sections_witness:
  "parse_manifest sample_codec
      (v5_write [Section Metadata [1, 2], Section PayloadV5 [], Section Metadata [4, 5, 6]] @ [99])
    = Inr (v5_manifest [] \<lparr>md_depot_id = Some 3, md_gid_manifest = None,
        md_creation_time = None, md_filenames_encrypted = None, md_cb_disk_original = None,
        md_cb_disk_compressed = None\<rparr>)"
  using parse_manifest_v5_sections [of sample_codec
      "[Section Metadata [1, 2], Section PayloadV5 [], Section Metadata [4, 5, 6]]" "[99]"]
  by (simp add: sample_codec_def)

end
