(* ===== verification/Checksum.thy ===== *)
theory Checksum
  imports Text
begin

text \<open>
  \<^verbatim>\<open>crates/steam/src/util/checksum.rs\<close>. \<^verbatim>\<open>SteamAdler32::compute\<close> is modelled on
  32-bit words as it is written, block by block; the other checksums are computed by
  third-party crates (\<^verbatim>\<open>sha1\<close>, \<^verbatim>\<open>adler\<close>, \<^verbatim>\<open>crc32fast\<close>), which are arguments of
  the definitions that use them.
\<close>

section \<open>Types\<close>

datatype sha1_hash = Sha1Hash (sha1_0: bytes)
datatype adler32 = Adler32 (adler32_0: u32)
datatype steam_adler32 = SteamAdler32 (steam_adler32_0: u32)
datatype crc32 = Crc32 (crc32_0: u32)

definition sha1_display :: "sha1_hash \<Rightarrow> string" where
  "sha1_display h = hex_bytes (sha1_0 h)"

definition sha1_debug :: "sha1_hash \<Rightarrow> string" where
  "sha1_debug h = ''Sha1Hash('' @ hex_bytes (sha1_0 h) @ '')''"

text \<open>The checksums that a third-party crate computes on the whole data.\<close>

definition sha1_compute :: "(bytes \<Rightarrow> bytes) \<Rightarrow> bytes \<Rightarrow> sha1_hash" where
  "sha1_compute sha1 data = Sha1Hash (sha1 data)"

definition adler32_compute :: "(bytes \<Rightarrow> u32) \<Rightarrow> bytes \<Rightarrow> adler32" where
  "adler32_compute adler32_slice data = Adler32 (adler32_slice data)"

definition crc32_compute :: "(bytes \<Rightarrow> u32) \<Rightarrow> bytes \<Rightarrow> crc32" where
  "crc32_compute crc32_hash data = Crc32 (crc32_hash data)"

text \<open>\<^verbatim>\<open>{:08X}\<close>: eight capital hexadecimal digits.\<close>

definition upper_digit :: "nat \<Rightarrow> char" where
  "upper_digit d = char_of (if d < 10 then 48 + d else 55 + d)"

definition hex8 :: "u32 \<Rightarrow> string" where
  "hex8 w = concat (map (\<lambda>b :: u8. [upper_digit (unat b div 16), upper_digit (unat b mod 16)]) (rev (to_le 4 w)))"

definition adler32_debug :: "adler32 \<Rightarrow> string" where
  "adler32_debug c = ''Adler32(0x'' @ hex8 (adler32_0 c) @ '')''"

definition steam_adler32_debug :: "steam_adler32 \<Rightarrow> string" where
  "steam_adler32_debug c = ''SteamAdler32(0x'' @ hex8 (steam_adler32_0 c) @ '')''"

definition crc32_debug :: "crc32 \<Rightarrow> string" where
  "crc32_debug c = ''Crc32(0x'' @ hex8 (crc32_0 c) @ '')''"

section \<open>SteamAdler32::compute\<close>

text \<open>\<^verbatim>\<open>slice::chunks(n)\<close>, which panics on \<open>n = 0\<close>; the program calls it with 5552.\<close>

function slice_chunks :: "nat \<Rightarrow> 'a list \<Rightarrow> 'a list list" where
  "slice_chunks n xs = (if n = 0 \<or> xs = [] then [] else take n xs # slice_chunks n (drop n xs))"
  by pat_completeness auto
termination
  by (relation "measure (\<lambda>(n, xs). length xs)") auto

declare slice_chunks.simps [simp del]

definition BASE :: u32 where
  "BASE = 65521"

definition CHUNK_LEN :: nat where
  "CHUNK_LEN = 5552"

definition adler_byte :: "u8 \<Rightarrow> u32 \<times> u32 \<Rightarrow> u32 \<times> u32" where
  "adler_byte byte = (\<lambda>(s1, s2). let s1' = s1 + ucast byte in (s1', s2 + s1'))"

definition adler_chunk :: "bytes \<Rightarrow> u32 \<times> u32 \<Rightarrow> u32 \<times> u32" where
  "adler_chunk chunk s = (case fold adler_byte chunk s of (s1, s2) \<Rightarrow> (s1 mod BASE, s2 mod BASE))"

definition steam_adler32_compute :: "bytes \<Rightarrow> steam_adler32" where
  "steam_adler32_compute data =
     (case fold adler_chunk (slice_chunks CHUNK_LEN data) (0, 0) of
        (s1, s2) \<Rightarrow> SteamAdler32 (push_bit 16 s2 OR s1))"

section \<open>The mathematical checksum\<close>

text \<open>The sum of the bytes, and the sum with each byte counted once for itself and each byte behind it.\<close>

definition byte_sum :: "bytes \<Rightarrow> nat" where
  "byte_sum bs = sum_list (map unat bs)"

primrec weighted_sum :: "bytes \<Rightarrow> nat" where
  "weighted_sum [] = 0"
| "weighted_sum (b # bs) = Suc (length bs) * unat b + weighted_sum bs"

text \<open>The two running sums on unbounded numbers.\<close>

definition adler_nat :: "u8 \<Rightarrow> nat \<times> nat \<Rightarrow> nat \<times> nat" where
  "adler_nat byte = (\<lambda>(a, b). (a + unat byte, b + (a + unat byte)))"

lemma byte_sum_simps [simp]:
  "byte_sum [] = 0" "byte_sum (b # bs) = unat b + byte_sum bs"
  "byte_sum (xs @ ys) = byte_sum xs + byte_sum ys"
  by (simp_all add: byte_sum_def)

lemma weighted_sum_append:
  "weighted_sum (xs @ ys) = weighted_sum xs + length ys * byte_sum xs + weighted_sum ys"
  by (induction xs) (simp_all add: algebra_simps)

lemma fold_adler_nat:
  "fold adler_nat bs (a, b) = (a + byte_sum bs, b + length bs * a + weighted_sum bs)"
  by (induction bs arbitrary: a b) (simp_all add: adler_nat_def algebra_simps)

lemma unat_u8_le [simp]: "unat (b :: u8) \<le> 255"
  using unat_bound [of b] by simp

lemma byte_sum_le: "byte_sum bs \<le> 255 * length bs"
  by (induction bs) (auto intro: add_mono)

lemma weighted_sum_le: "2 * weighted_sum bs \<le> 255 * (length bs * Suc (length bs))"
proof (induction bs)
  case Nil
  then show ?case by simp
next
  case (Cons b bs)
  have "Suc (length bs) * unat b \<le> Suc (length bs) * 255"
    by (intro mult_le_mono) simp_all
  with Cons show ?case by (simp add: algebra_simps)
qed

section \<open>The words do not overflow\<close>

lemma unat_adler_byte:
  assumes "snd (adler_nat x (unat s1, unat s2)) < 2 ^ 32"
  shows "map_prod unat unat (adler_byte x (s1, s2)) = adler_nat x (unat s1, unat s2)"
proof -
  have u: "unat (ucast x :: u32) = unat x"
    using unat_bound [of x] by (simp add: unsigned_ucast_eq take_bit_nat_eq_self)
  from assms have "unat (s1 + ucast x) = unat s1 + unat x"
    by (simp add: adler_nat_def unat_word_ariths u)
  with assms show ?thesis
    by (simp add: adler_byte_def adler_nat_def Let_def unat_word_ariths)
qed

lemma fold_adler_nat_mono: "snd s \<le> snd (fold adler_nat bs s)"
  by (cases s) (simp add: fold_adler_nat)

lemma unat_fold_adler_byte:
  assumes "snd (fold adler_nat bs (unat s1, unat s2)) < 2 ^ 32"
  shows "map_prod unat unat (fold adler_byte bs (s1, s2)) = fold adler_nat bs (unat s1, unat s2)"
  using assms
proof (induction bs arbitrary: s1 s2)
  case Nil
  then show ?case by simp
next
  case (Cons x bs)
  obtain t1 t2 where t: "adler_byte x (s1, s2) = (t1, t2)" by fastforce
  have "snd (adler_nat x (unat s1, unat s2)) < 2 ^ 32"
    using Cons.prems fold_adler_nat_mono [of "adler_nat x (unat s1, unat s2)" bs] by simp
  from unat_adler_byte [OF this] t have "adler_nat x (unat s1, unat s2) = (unat t1, unat t2)" by simp
  with Cons t show ?case by simp
qed

text \<open>
  A block length is safe when no block of that length, started from reduced sums, makes
  either sum reach \<open>2 ^ 32\<close>.
\<close>

definition adler_safe :: "nat \<Rightarrow> bool" where
  "adler_safe n \<longleftrightarrow>
     (\<forall>bs a b. length bs = n \<longrightarrow> a < 65521 \<longrightarrow> b < 65521 \<longrightarrow>
        fst (fold adler_nat bs (a, b)) < 2 ^ 32 \<and> snd (fold adler_nat bs (a, b)) < 2 ^ 32)"

lemma adler_nat_bound:
  assumes "length bs \<le> 5552" "a < 65521" "b < 65521"
  shows "snd (fold adler_nat bs (a, b)) < 2 ^ 32" "fst (fold adler_nat bs (a, b)) < 2 ^ 32"
proof -
  let ?n = "length bs"
  have "?n * a \<le> 5552 * 65520" using assms by (intro mult_le_mono) auto
  moreover have "?n * Suc ?n \<le> 5552 * 5553" using assms by (intro mult_le_mono) auto
  ultimately show "snd (fold adler_nat bs (a, b)) < 2 ^ 32"
    using weighted_sum_le [of bs] assms(3) by (simp add: fold_adler_nat)
  show "fst (fold adler_nat bs (a, b)) < 2 ^ 32"
    using byte_sum_le [of bs] assms(1,2) by (simp add: fold_adler_nat)
qed

lemma adler_chunk_exact:
  assumes "length bs \<le> CHUNK_LEN" "unat s1 < 65521" "unat s2 < 65521"
  shows "map_prod unat unat (adler_chunk bs (s1, s2))
    = ((unat s1 + byte_sum bs) mod 65521,
       (unat s2 + length bs * unat s1 + weighted_sum bs) mod 65521)"
proof -
  obtain t1 t2 where t: "fold adler_byte bs (s1, s2) = (t1, t2)" by fastforce
  have "(unat t1, unat t2) = fold adler_nat bs (unat s1, unat s2)"
    using unat_fold_adler_byte [OF adler_nat_bound(1)] assms t
    by (fastforce simp: CHUNK_LEN_def)
  with t show ?thesis
    by (simp add: adler_chunk_def fold_adler_nat BASE_def unat_mod)
qed

section \<open>The whole computation\<close>

lemma chunks_Cons: "0 < n \<Longrightarrow> xs \<noteq> [] \<Longrightarrow> slice_chunks n xs = take n xs # slice_chunks n (drop n xs)"
  by (subst slice_chunks.simps) simp

lemma fold_adler_chunk_exact:
  assumes "unat s1 < 65521" "unat s2 < 65521"
  shows "map_prod unat unat (fold adler_chunk (slice_chunks CHUNK_LEN data) (s1, s2))
    = ((unat s1 + byte_sum data) mod 65521,
       (unat s2 + length data * unat s1 + weighted_sum data) mod 65521)"
  using assms
proof (induction data arbitrary: s1 s2 rule: length_induct)
  case (1 data)
  show ?case
  proof (cases "data = []")
    case True
    with "1.prems" show ?thesis by (simp add: slice_chunks.simps [of _ "[]"])
  next
    case False
    let ?c = "take CHUNK_LEN data" and ?d = "drop CHUNK_LEN data"
    obtain t1 t2 where t: "adler_chunk ?c (s1, s2) = (t1, t2)" by fastforce
    with adler_chunk_exact [of ?c s1 s2] "1.prems"
    have t12: "unat t1 = (unat s1 + byte_sum ?c) mod 65521"
      "unat t2 = (unat s2 + length ?c * unat s1 + weighted_sum ?c) mod 65521"
      by (simp_all add: CHUNK_LEN_def)
    from False have "length ?d < length data" by (simp add: CHUNK_LEN_def)
    moreover have "unat t1 < 65521" "unat t2 < 65521" by (simp_all add: t12)
    ultimately have IH: "map_prod unat unat (fold adler_chunk (slice_chunks CHUNK_LEN ?d) (t1, t2))
      = ((unat t1 + byte_sum ?d) mod 65521,
         (unat t2 + length ?d * unat t1 + weighted_sum ?d) mod 65521)"
      using "1.IH" by blast
    have len: "length data = length ?c + length ?d" and sum: "byte_sum data = byte_sum ?c + byte_sum ?d"
      and weight: "weighted_sum data = weighted_sum ?c + length ?d * byte_sum ?c + weighted_sum ?d"
      by (simp_all flip: byte_sum_simps(3) weighted_sum_append length_append del: length_drop length_take)
    have "(unat t1 + byte_sum ?d) mod 65521 = (unat s1 + byte_sum data) mod 65521"
      unfolding t12 sum by (simp add: mod_simps add.assoc)
    moreover have "(unat t2 + length ?d * unat t1 + weighted_sum ?d) mod 65521
        = (unat s2 + length data * unat s1 + weighted_sum data) mod 65521"
    proof -
      have "(unat t2 + length ?d * unat t1 + weighted_sum ?d) mod 65521
          = ((unat s2 + length ?c * unat s1 + weighted_sum ?c)
             + length ?d * (unat s1 + byte_sum ?c) + weighted_sum ?d) mod 65521"
        unfolding t12 by (intro mod_add_cong mod_mult_cong) simp_all
      then show ?thesis unfolding len weight by (simp add: algebra_simps)
    qed
    ultimately show ?thesis
      using IH t False by (simp add: chunks_Cons CHUNK_LEN_def)
  qed
qed

lemma u32_pack:
  assumes "unat (a :: u32) < 65536"
  shows "push_bit 16 b OR a = b * 65536 + a"
proof -
  have "a = take_bit 16 a"
    using assms by (simp add: word_unat_eq_iff unsigned_take_bit_eq take_bit_nat_eq_self)
  then have "\<not> bit a n" if "16 \<le> n" for n
    using that by (metis bit_take_bit_iff not_less)
  then have "push_bit 16 b + a = push_bit 16 b OR a"
    by (intro disjunctive_add_eq_or bit_word_eqI) (auto simp: bit_simps)
  then show ?thesis by (simp add: push_bit_eq_mult)
qed

text \<open>The value as one number: \<open>B mod 65521\<close> above \<open>A mod 65521\<close>.\<close>

definition adler_value :: "bytes \<Rightarrow> nat" where
  "adler_value data = weighted_sum data mod 65521 * 65536 + byte_sum data mod 65521"

lemma steam_adler32_compute_eq:
  "steam_adler32_compute data = SteamAdler32 (of_nat (adler_value data))"
proof -
  obtain s1 s2 where s: "fold adler_chunk (slice_chunks CHUNK_LEN data) (0, 0) = (s1, s2)" by fastforce
  with fold_adler_chunk_exact [of 0 0 data]
  have u: "unat s1 = byte_sum data mod 65521" "unat s2 = weighted_sum data mod 65521" by simp_all
  then have "unat s1 < 65536" by (simp add: less_trans [OF mod_less_divisor])
  moreover have "s1 = of_nat (byte_sum data mod 65521)" "s2 = of_nat (weighted_sum data mod 65521)"
    by (metis u of_nat_unat ucast_id)+
  ultimately show ?thesis
    using s by (simp add: steam_adler32_compute_def u32_pack adler_value_def)
qed

lemma adler_value_less: "adler_value data < 2 ^ 32"
proof -
  have "weighted_sum data mod 65521 \<le> 65520" "byte_sum data mod 65521 \<le> 65520"
    by (simp_all add: less_Suc_eq_le [symmetric])
  then show ?thesis by (simp add: adler_value_def)
qed

lemma adler_value_inject:
  "adler_value xs = adler_value ys \<longleftrightarrow>
     byte_sum xs mod 65521 = byte_sum ys mod 65521 \<and> weighted_sum xs mod 65521 = weighted_sum ys mod 65521"
proof -
  have split: "(a * 65536 + b) div 65536 = a \<and> (a * 65536 + b) mod 65536 = b" if "b < 65536" for a b :: nat
    using that by simp
  have "a * 65536 + b = c * 65536 + d \<longleftrightarrow> a = c \<and> b = d" if "b < 65536" "d < 65536" for a b c d :: nat
    by (metis split [OF that(1)] split [OF that(2)])
  moreover have "n mod 65521 < (65536 :: nat)" for n
    by (simp add: less_trans [OF mod_less_divisor])
  ultimately show ?thesis by (auto simp: adler_value_def)
qed

lemma steam_adler32_eq_iff:
  "steam_adler32_compute xs = steam_adler32_compute ys \<longleftrightarrow>
     byte_sum xs mod 65521 = byte_sum ys mod 65521 \<and> weighted_sum xs mod 65521 = weighted_sum ys mod 65521"
proof -
  have "of_nat (adler_value xs) = (of_nat (adler_value ys) :: u32) \<longleftrightarrow> adler_value xs = adler_value ys"
    using adler_value_less [of xs] adler_value_less [of ys]
    by (simp add: word_unat_eq_iff unat_of_nat)
  then show ?thesis by (simp add: steam_adler32_compute_eq adler_value_inject)
qed

section \<open>Error detection\<close>

lemma byte_sum_update:
  "i < length bs \<Longrightarrow> byte_sum (bs[i := v]) + unat (bs ! i) = byte_sum bs + unat v"
proof -
  assume i: "i < length bs"
  then have "byte_sum bs = byte_sum (take i bs) + unat (bs ! i) + byte_sum (drop (Suc i) bs)"
    by (subst id_take_nth_drop [OF i]) simp
  moreover from i have "byte_sum (bs[i := v]) = byte_sum (take i bs) + unat v + byte_sum (drop (Suc i) bs)"
    by (simp add: upd_conv_take_nth_drop)
  ultimately show ?thesis by simp
qed

lemma small_shift_mod:
  fixes x y u v :: nat
  assumes "x + u = y + v" "x mod 65521 = y mod 65521" "u \<le> 255" "v \<le> 255"
  shows "u = v"
proof -
  have "int x mod 65521 = int y mod 65521" using assms(2) by (metis of_nat_mod of_nat_numeral)
  then have "65521 dvd int x - int y" by (simp add: mod_eq_dvd_iff)
  moreover have "int x - int y = int v - int u" using assms(1) by linarith
  ultimately have "65521 dvd int v - int u" by simp
  moreover have "\<bar>int v - int u\<bar> < 65521" using assms(3,4) by linarith
  ultimately have "int v - int u = 0" by (metis dvd_imp_le_int abs_numeral linorder_not_less)
  then show ?thesis by simp
qed

lemma adler_safe_iff_aux: "\<not> adler_safe n" if "5552 < n"
proof -
  let ?bs = "replicate n (255 :: u8)"
  have u: "unat (255 :: u8) = 255" by simp
  have w: "2 * weighted_sum (replicate k (255 :: u8)) = 255 * (k * Suc k)" for k
    by (induction k) (simp_all only: replicate_Suc replicate_0 weighted_sum.simps length_replicate u,
      simp_all add: algebra_simps)
  have "5553 * 65520 \<le> n * 65520" using that by simp
  moreover have "5553 * 5554 \<le> n * Suc n" using that by (intro mult_le_mono) auto
  ultimately have "2 ^ 32 \<le> snd (fold adler_nat ?bs (65520, 65520))"
    using w [of n] unfolding fold_adler_nat by simp
  then have "\<exists>bs a b. length bs = n \<and> a < 65521 \<and> b < 65521
      \<and> \<not> snd (fold adler_nat bs (a, b)) < 2 ^ 32"
    by (intro exI [of _ ?bs] exI [of _ 65520]) auto
  then show ?thesis unfolding adler_safe_def by blast
qed

lemma adler_byte_change:
  assumes "i < length data" and "v \<noteq> data ! i"
  shows "steam_adler32_compute (data[i := v]) \<noteq> steam_adler32_compute data"
proof
  assume "steam_adler32_compute (data[i := v]) = steam_adler32_compute data"
  then have "byte_sum (data[i := v]) mod 65521 = byte_sum data mod 65521"
    by (simp add: steam_adler32_eq_iff)
  from small_shift_mod [OF byte_sum_update [OF assms(1)] this] have "unat (data ! i) = unat v" by simp
  with assms(2) show False by (simp add: word_unat_eq_iff)
qed

section \<open>Properties\<close>

text \<open>
  C37: the blockwise 32-bit computation is the zero-seeded Adler-32 of the whole input:
  the two 16-bit halves are the position-weighted byte sum and the byte sum, modulo 65521,
  whatever the length of the input and however it falls into blocks.
\<close>

theorem steam_adler32_correct:
  "steam_adler32_compute data
     = SteamAdler32 (of_nat (weighted_sum data mod 65521 * 65536 + byte_sum data mod 65521))"
  by (simp add: steam_adler32_compute_eq adler_value_def)

text \<open>
  The block length of the code is the largest one for which neither running sum can
  reach \<open>2 ^ 32\<close>: the additions of \<^verbatim>\<open>compute\<close> never overflow, and a longer block
  could.
\<close>

theorem chunk_len_optimal: "adler_safe n \<longleftrightarrow> n \<le> CHUNK_LEN"
  using adler_safe_iff_aux adler_nat_bound unfolding adler_safe_def CHUNK_LEN_def
  by (metis not_less)

text \<open>
  The checksum detects every corruption of a single byte, at any position of an input
  of any length.
\<close>

theorem steam_adler32_detects_byte:
  assumes "i < length data" and "v \<noteq> data ! i"
  shows "steam_adler32_compute (data[i := v]) \<noteq> steam_adler32_compute data"
  using assms by (rule adler_byte_change)

theorem steam_adler32_detects_byte_witness:
  "steam_adler32_compute ([1, 2, 3][1 := 9]) \<noteq> steam_adler32_compute [1, 2, 3]"
  using steam_adler32_detects_byte [of 1 "[1, 2, 3]" 9] by simp

end
