(* ===== verification/Chunk.thy ===== *)
theory Chunk
  imports Crypto Checksum
begin

text \<open>
  Depot chunks, \<^verbatim>\<open>crates/steam/src/depot/chunk.rs\<close>: decrypt, detect the compression
  format, decompress, verify size and checksum. The decoders of the crates \<^verbatim>\<open>zstd\<close>,
  \<^verbatim>\<open>lzma-rs\<close> and \<^verbatim>\<open>zip\<close> are a record of functions.
\<close>

section \<open>Decoders of other crates\<close>

text \<open>
  A zip archive is opened, asked for its number of entries, for an entry by index, and the
  entry is read to its end.
\<close>

record ('archive, 'entry) codecs =
  zstd_decode_all :: "bytes \<Rightarrow> io_error_kind + bytes"
  lzma_decompress :: "bytes \<Rightarrow> bytes option"
  zip_archive_new :: "bytes \<Rightarrow> 'archive option"
  zip_archive_len :: "'archive \<Rightarrow> nat"
  zip_by_index :: "'archive \<Rightarrow> nat \<Rightarrow> 'entry option"
  zip_read_to_end :: "'entry \<Rightarrow> io_error_kind + bytes"

section \<open>Detection\<close>

datatype chunk_compression = VZstd | Lzma | Zip | NoCompression

definition VZSTD_MAGIC :: bytes where
  "VZSTD_MAGIC = as_bytes ''VSZa''"

definition ZIP_MAGIC :: bytes where
  "ZIP_MAGIC = as_bytes ''PK'' @ [0x03, 0x04]"

definition LZMA_MAGIC :: bytes where
  "LZMA_MAGIC = as_bytes ''VZa''"

definition detect :: "bytes \<Rightarrow> chunk_compression" where
  "detect data =
     (if 4 \<le> length data \<and> take 4 data = VZSTD_MAGIC then VZstd
      else if 4 \<le> length data \<and> take 4 data = ZIP_MAGIC then Zip
      else if 3 \<le> length data \<and> take 3 data = LZMA_MAGIC then Lzma
      else NoCompression)"

section \<open>Decompression\<close>

datatype chunk_error =
    TooShort
  | SizeMismatch nat nat
  | ChecksumMismatch steam_adler32 steam_adler32
  | EmptyArchive
  | ChunkCrypto crypto_error
  | ChunkIo io_error_kind
  | ChunkZip

text \<open>\<^verbatim>\<open>&data[a..b]\<close>, for \<open>a \<le> b \<le> length data\<close>.\<close>

definition slice :: "nat \<Rightarrow> nat \<Rightarrow> 'a list \<Rightarrow> 'a list" where
  "slice a b data = take (b - a) (drop a data)"

definition decompress_vzstd :: "('a, 'e) codecs \<Rightarrow> bytes \<Rightarrow> chunk_error + bytes" where
  "decompress_vzstd Z data =
     (let HEADER_LEN = 8; FOOTER_LEN = 15
      in if length data < HEADER_LEN + FOOTER_LEN then Inl TooShort
         else let zstd_data = slice HEADER_LEN (length data - FOOTER_LEN) data
              in map_err ChunkIo (zstd_decode_all Z zstd_data))"

definition decompress_vzip :: "('a, 'e) codecs \<Rightarrow> bytes \<Rightarrow> chunk_error + bytes" where
  "decompress_vzip Z data =
     (let HEADER_LEN = 7; LZMA_PROPS_LEN = 5; FOOTER_LEN = 10
      in if length data < HEADER_LEN + LZMA_PROPS_LEN + FOOTER_LEN then Inl TooShort
         else let lzma_props = slice HEADER_LEN (HEADER_LEN + LZMA_PROPS_LEN) data;
                  compressed = slice (HEADER_LEN + LZMA_PROPS_LEN) (length data - FOOTER_LEN) data;
                  footer = drop (length data - FOOTER_LEN) data;
                  decompressed_size = ucast (from_le (slice 4 8 footer) :: u32) :: u64;
                  lzma_stream = lzma_props @ to_le 8 decompressed_size @ compressed
              in ok_or (lzma_decompress Z lzma_stream) (ChunkIo OtherKind))"

definition decompress_zip :: "('a, 'e) codecs \<Rightarrow> bytes \<Rightarrow> chunk_error + bytes" where
  "decompress_zip Z data =
     and_then (ok_or (zip_archive_new Z data) ChunkZip) (\<lambda>archive.
     if zip_archive_len Z archive = 0 then Inl EmptyArchive
     else and_then (ok_or (zip_by_index Z archive 0) ChunkZip) (\<lambda>file.
          map_err ChunkIo (zip_read_to_end Z file)))"

definition decompress :: "('a, 'e) codecs \<Rightarrow> bytes \<Rightarrow> chunk_error + bytes" where
  "decompress Z data =
     (case detect data of
        VZstd \<Rightarrow> decompress_vzstd Z data
      | Lzma \<Rightarrow> decompress_vzip Z data
      | Zip \<Rightarrow> decompress_zip Z data
      | NoCompression \<Rightarrow> Inr data)"

section \<open>Processing\<close>

definition process_chunk ::
  "('x crypto_scheme) \<Rightarrow> ('a, 'e) codecs \<Rightarrow> bytes \<Rightarrow> depot_key \<Rightarrow> u32 \<Rightarrow> u32 \<Rightarrow> chunk_error + bytes" where
  "process_chunk C Z data depot_key expected_size expected_checksum =
     and_then (map_err ChunkCrypto (symmetric_decrypt_ecb C (depot_key_0 depot_key) data)) (\<lambda>decrypted.
     and_then (decompress Z decrypted) (\<lambda>decompressed.
     if length decompressed \<noteq> unat expected_size
     then Inl (SizeMismatch (unat expected_size) (length decompressed))
     else
       let expected = SteamAdler32 expected_checksum;
           actual = steam_adler32_compute decompressed
       in if actual \<noteq> expected then Inl (ChecksumMismatch expected actual)
          else Inr decompressed))"

section \<open>The layouts Steam sends\<close>

text \<open>
  The contents of a chunk by format, the bytes that hold them, and what they hold: the
  layouts the comments of \<^verbatim>\<open>chunk.rs\<close> describe.
\<close>

datatype chunk_layout =
    VZstdLayout (vz_header_crc: u32) (vz_data: bytes) (vz_footer: bytes)
  | LzmaLayout (lz_timestamp: u32) (lz_props: u8) (lz_dict: u32) (lz_data: bytes) (lz_crc: u32) (lz_size: u32)
  | ZipLayout (zip_bytes: bytes)
  | RawLayout (raw_bytes: bytes)

primrec layout_bytes :: "chunk_layout \<Rightarrow> bytes" where
  "layout_bytes (VZstdLayout crc z footer) = VZSTD_MAGIC @ to_le 4 crc @ z @ footer"
| "layout_bytes (LzmaLayout ts p d z crc n) =
     LZMA_MAGIC @ to_le 4 ts @ [p] @ to_le 4 d @ z @ to_le 4 crc @ to_le 4 n @ as_bytes ''vz''"
| "layout_bytes (ZipLayout z) = z"
| "layout_bytes (RawLayout b) = b"

primrec layout_fits :: "chunk_layout \<Rightarrow> bool" where
  "layout_fits (VZstdLayout crc z footer) \<longleftrightarrow> length footer = 15"
| "layout_fits (LzmaLayout ts p d z crc n) \<longleftrightarrow> True"
| "layout_fits (ZipLayout z) \<longleftrightarrow> take 4 z = ZIP_MAGIC"
| "layout_fits (RawLayout b) \<longleftrightarrow> take 4 b \<noteq> VZSTD_MAGIC \<and> take 4 b \<noteq> ZIP_MAGIC \<and> take 3 b \<noteq> LZMA_MAGIC"

primrec layout_contents :: "('a, 'e) codecs \<Rightarrow> chunk_layout \<Rightarrow> chunk_error + bytes" where
  "layout_contents Z (VZstdLayout crc z footer) = map_err ChunkIo (zstd_decode_all Z z)"
| "layout_contents Z (LzmaLayout ts p d z crc n) =
     ok_or (lzma_decompress Z (p # to_le 4 d @ to_le 8 (ucast (n :: u32) :: u64) @ z)) (ChunkIo OtherKind)"
| "layout_contents Z (ZipLayout z) = decompress_zip Z z"
| "layout_contents Z (RawLayout b) = Inr b"

text \<open>Codecs that store their data uncompressed, for concrete examples.\<close>

definition stored_codecs :: "(bytes, bytes) codecs" where
  "stored_codecs =
     \<lparr>zstd_decode_all = Inr, lzma_decompress = (\<lambda>b. Some (drop 13 b)), zip_archive_new = Some,
      zip_archive_len = (\<lambda>_. 1), zip_by_index = (\<lambda>a _. Some a), zip_read_to_end = (\<lambda>e. Inr (drop 4 e))\<rparr>"

section \<open>Lemmas\<close>

lemma magic_bytes:
  "VZSTD_MAGIC = [0x56, 0x53, 0x5A, 0x61]" "ZIP_MAGIC = [0x50, 0x4B, 0x03, 0x04]"
  "LZMA_MAGIC = [0x56, 0x5A, 0x61]"
  by (simp_all add: VZSTD_MAGIC_def ZIP_MAGIC_def LZMA_MAGIC_def as_bytes_def byte_of_char_def)

lemma detect_layout:
  "layout_fits l \<Longrightarrow> detect (layout_bytes l) =
     (case l of VZstdLayout _ _ _ \<Rightarrow> VZstd | LzmaLayout _ _ _ _ _ _ \<Rightarrow> Lzma
      | ZipLayout _ \<Rightarrow> Zip | RawLayout _ \<Rightarrow> NoCompression)"
proof (cases l)
  case (ZipLayout z)
  assume "layout_fits l"
  with ZipLayout have "take 4 z = ZIP_MAGIC" by simp
  then have "length (take 4 z) = 4" by (simp only: magic_bytes) simp
  then have "4 \<le> length z" by simp
  with ZipLayout \<open>take 4 z = ZIP_MAGIC\<close> show ?thesis by (simp add: detect_def magic_bytes)
qed (auto simp: detect_def magic_bytes)

lemma slice_append: "length p = a \<Longrightarrow> length q = b - a \<Longrightarrow> slice a b (p @ q @ r) = q"
  by (simp add: slice_def)

lemma drop_append_exact: "length a = n \<Longrightarrow> drop n (a @ b) = b"
  by auto

lemma decompress_vzstd_layout:
  assumes "length footer = 15"
  shows "decompress_vzstd Z (VZSTD_MAGIC @ to_le 4 crc @ z @ footer) = map_err ChunkIo (zstd_decode_all Z z)"
proof -
  have "slice 8 (8 + length z) ((VZSTD_MAGIC @ to_le 4 crc) @ z @ footer) = z"
    by (rule slice_append) (simp_all add: magic_bytes)
  with assms show ?thesis by (simp add: decompress_vzstd_def magic_bytes Let_def)
qed

lemma decompress_vzip_layout:
  "decompress_vzip Z (LZMA_MAGIC @ to_le 4 ts @ [p] @ to_le 4 d @ z @ to_le 4 crc @ to_le 4 n @ as_bytes ''vz'')
    = ok_or (lzma_decompress Z (p # to_le 4 d @ to_le 8 (ucast (n :: u32) :: u64) @ z)) (ChunkIo OtherKind)"
proof -
  let ?d = "LZMA_MAGIC @ to_le 4 ts @ [p] @ to_le 4 d @ z @ to_le 4 crc @ to_le 4 n @ as_bytes ''vz''"
  let ?f = "to_le 4 crc @ to_le 4 n @ as_bytes ''vz''"
  have len: "length ?d = 22 + length z" by (simp add: magic_bytes)
  have "slice 7 12 ((LZMA_MAGIC @ to_le 4 ts) @ ([p] @ to_le 4 d) @ z @ ?f) = [p] @ to_le 4 d"
    by (rule slice_append) (simp_all add: magic_bytes)
  moreover have "slice 12 (12 + length z) ((LZMA_MAGIC @ to_le 4 ts @ [p] @ to_le 4 d) @ z @ ?f) = z"
    by (rule slice_append) (simp_all add: magic_bytes)
  moreover have "drop (12 + length z) ((LZMA_MAGIC @ to_le 4 ts @ [p] @ to_le 4 d @ z) @ ?f) = ?f"
    by (rule drop_append_exact) (simp add: magic_bytes)
  moreover have "slice 4 8 (to_le 4 crc @ to_le 4 n @ as_bytes ''vz'') = to_le 4 n"
    by (rule slice_append) simp_all
  ultimately show ?thesis
    unfolding decompress_vzip_def Let_def len by (simp add: from_le_to_le)
qed

lemma decompress_layout: "layout_fits l \<Longrightarrow> decompress Z (layout_bytes l) = layout_contents Z l"
  using detect_layout [of l]
  by (cases l) (simp_all add: decompress_def decompress_vzstd_layout decompress_vzip_layout del: append.simps)

lemma process_chunk_Inr:
  "process_chunk C Z data key n c = Inr out \<longleftrightarrow>
     (\<exists>plain. symmetric_decrypt_ecb C (depot_key_0 key) data = Inr plain \<and> decompress Z plain = Inr out)
     \<and> length out = unat n \<and> steam_adler32_compute out = SteamAdler32 c"
  by (auto simp: process_chunk_def Let_def and_then_eq_Inr)

section \<open>Properties\<close>

text \<open>
  Each chunk layout is recognised by its magic bytes and decompressed from exactly its
  compressed part: header, CRC and footer are cut off, the LZMA stream is given the
  properties of the header and the size of the footer, a zip archive its first entry, and
  anything else is passed through.
\<close>

theorem decompress_layouts:
  assumes "layout_fits l"
  shows "decompress Z (layout_bytes l) = layout_contents Z l"
  using assms by (rule decompress_layout)

theorem decompress_layouts_witness:
  "decompress stored_codecs (layout_bytes (LzmaLayout 0 93 4096 [1, 2] 5 2)) = Inr [1, 2]"
  using decompress_layouts [of "LzmaLayout 0 93 4096 [1, 2] 5 2" stored_codecs]
  by (simp add: stored_codecs_def)

text \<open>
  C24: a downloaded chunk is accepted with some contents if and only if it is an encryption
  under the depot key of data that decompresses to these contents, and the contents have
  exactly the size and the checksum the manifest states.
\<close>

theorem process_chunk_iff:
  assumes "crypto_ok C" "length (depot_key_0 key) = 32"
  shows "process_chunk C Z data key expected_size expected_checksum = Inr out \<longleftrightarrow>
    (\<exists>iv plain. length iv = 16
       \<and> data = ecb_encrypt_block C (depot_key_0 key) iv @ cbc_encrypt_padded C (depot_key_0 key) iv plain
       \<and> decompress Z plain = Inr out)
    \<and> length out = unat expected_size \<and> steam_adler32_compute out = SteamAdler32 expected_checksum"
  unfolding process_chunk_Inr using symmetric_decrypt_ecb_Inr [OF assms] by blast

theorem process_chunk_iff_witness:
  "process_chunk plain_crypto stored_codecs (replicate 16 0 @ pkcs7_pad [1, 2, 3])
      (DepotKey (replicate 32 0)) 3 (steam_adler32_0 (steam_adler32_compute [1, 2, 3]))
    = Inr [1, 2, 3]"
proof -
  let ?key = "DepotKey (replicate 32 0)" and ?sum = "steam_adler32_0 (steam_adler32_compute [1, 2, 3])"
  have raw: "decompress stored_codecs [1, 2, 3] = Inr [1, 2, 3]"
    by (simp add: decompress_def detect_def magic_bytes)
  have "length (depot_key_0 ?key) = 32" by simp
  from process_chunk_iff [OF plain_crypto_ok this, of stored_codecs
      "replicate 16 0 @ pkcs7_pad [1, 2, 3]" 3 ?sum "[1, 2, 3]"] raw
  show ?thesis by (simp add: plain_crypto_def) (metis length_replicate)
qed

text \<open>
  A chunk whose contents differ from the original in one byte is refused with the
  checksum error, wherever the byte is.
\<close>

theorem process_chunk_detects_byte:
  assumes "symmetric_decrypt_ecb C (depot_key_0 key) data = Inr plain"
    and "decompress Z plain = Inr (original[i := v])"
    and "i < length original" "v \<noteq> original ! i" "length original < 2 ^ 32"
  shows "process_chunk C Z data key (of_nat (length original)) (steam_adler32_0 (steam_adler32_compute original))
      = Inl (ChecksumMismatch (steam_adler32_compute original) (steam_adler32_compute (original[i := v])))"
  using assms adler_byte_change [of i original v]
  by (simp add: process_chunk_def Let_def unat_of_nat)

theorem process_chunk_detects_byte_witness:
  "process_chunk plain_crypto stored_codecs (replicate 16 0 @ pkcs7_pad [1, 9, 3])
      (DepotKey (replicate 32 0)) 3 (steam_adler32_0 (steam_adler32_compute [1, 2, 3]))
    = Inl (ChecksumMismatch (steam_adler32_compute [1, 2, 3]) (steam_adler32_compute [1, 9, 3]))"
proof -
  have "symmetric_decrypt_ecb plain_crypto (depot_key_0 (DepotKey (replicate 32 0)))
      (replicate 16 0 @ pkcs7_pad [1, 9, 3]) = Inr [1, 9, 3]"
    using pkcs7_pad_length [of "[1, 9, 3]"] pkcs7_unpad_iff [of "pkcs7_pad [1, 9, 3]" "[1, 9, 3]"]
    by (simp add: symmetric_decrypt_ecb_def plain_crypto_def)
  moreover have "decompress stored_codecs [1, 9, 3] = Inr ([1, 2, 3][1 := 9])"
    by (simp add: decompress_def detect_def magic_bytes)
  ultimately show ?thesis
    using process_chunk_detects_byte [of plain_crypto "DepotKey (replicate 32 0)"
        "replicate 16 0 @ pkcs7_pad [1, 9, 3]" "[1, 9, 3]" stored_codecs "[1, 2, 3]" 1 9]
    by simp
qed

end
