(* ===== verification/Files.thy ===== *)
theory Files
  imports Manifest Chunk
begin

text \<open>
  The file system as the downloader uses it: files by path, with their contents and the set
  of executable ones. Directories exist as soon as they are needed; failures of the operating
  system other than a missing file or a read behind the end of a file are not modelled.
  Paths are strings as \<^verbatim>\<open>Path::join\<close> builds them on Unix; two spellings of one path are
  not identified.
\<close>

section \<open>Paths and files\<close>

text \<open>\<^verbatim>\<open>Path::join\<close>: an absolute second path replaces the first.\<close>

definition path_join :: "string \<Rightarrow> string \<Rightarrow> string" where
  "path_join dir name =
     (if prefix ''/'' name then name
      else if dir = [] \<or> suffix ''/'' dir then dir @ name
      else dir @ ''/'' @ name)"

lemma path_join_relative:
  "\<not> prefix ''/'' a \<Longrightarrow> \<not> prefix ''/'' b \<Longrightarrow> path_join d a = path_join d b \<longleftrightarrow> a = b"
  by (simp add: path_join_def)

record file_system =
  fs_files :: "string \<Rightarrow> bytes option"
  fs_executable :: "string set"

definition file_exists :: "file_system \<Rightarrow> string \<Rightarrow> bool" where
  "file_exists fs path \<longleftrightarrow> fs_files fs path \<noteq> None"

definition write_file :: "string \<Rightarrow> bytes \<Rightarrow> file_system \<Rightarrow> file_system" where
  "write_file path b fs = fs\<lparr>fs_files := (fs_files fs)(path \<mapsto> b)\<rparr>"

definition remove_file :: "string \<Rightarrow> file_system \<Rightarrow> file_system" where
  "remove_file path fs =
     fs\<lparr>fs_files := (fs_files fs)(path := None), fs_executable := fs_executable fs - {path}\<rparr>"

text \<open>\<^verbatim>\<open>rename\<close> moves contents and mode and replaces the target.\<close>

definition rename_file :: "string \<Rightarrow> string \<Rightarrow> file_system \<Rightarrow> io_error_kind + file_system" where
  "rename_file src dst fs =
     (case fs_files fs src of
        None \<Rightarrow> Inl NotFound
      | Some b \<Rightarrow>
          Inr \<lparr>fs_files = (fs_files fs)(src := None, dst \<mapsto> b),
               fs_executable = fs_executable fs - {src, dst} \<union> (if src \<in> fs_executable fs then {dst} else {})\<rparr>)"

section \<open>Reading and writing at an offset\<close>

text \<open>\<^verbatim>\<open>seek(Start(off))\<close> then \<^verbatim>\<open>read_exact\<close> of \<open>n\<close> bytes.\<close>

definition read_at :: "nat \<Rightarrow> nat \<Rightarrow> bytes \<Rightarrow> bytes option" where
  "read_at off n b = (if length b < off + n then None else Some (take n (drop off b)))"

text \<open>\<^verbatim>\<open>seek(Start(off))\<close> then \<^verbatim>\<open>write_all\<close>; a gap behind the end reads as zeros.\<close>

definition write_at :: "nat \<Rightarrow> bytes \<Rightarrow> bytes \<Rightarrow> bytes" where
  "write_at off d b =
     (if d = [] then b
      else take off (b @ replicate (off - length b) 0) @ d @ drop (off + length d) b)"

lemma length_write_at:
  "off + length d \<le> length b \<Longrightarrow> length (write_at off d b) = length b"
  by (auto simp: write_at_def)

lemma nth_write_at:
  assumes "off + length d \<le> length b" "i < length b"
  shows "write_at off d b ! i = (if off \<le> i \<and> i < off + length d then d ! (i - off) else b ! i)"
  using assms by (auto simp: write_at_def nth_append min_def)

lemma read_at_write_at_same:
  "off + length d \<le> length b \<Longrightarrow> read_at off (length d) (write_at off d b) = Some d"
  by (auto simp: read_at_def length_write_at nth_write_at intro!: nth_equalityI)

lemma read_at_write_at_other:
  assumes "off + length d \<le> length b" and "o' + n \<le> off \<or> off + length d \<le> o'"
  shows "read_at o' n (write_at off d b) = read_at o' n b"
  using assms by (auto simp: read_at_def length_write_at nth_write_at intro!: nth_equalityI)

end
