(* ===== verification/Filenames.thy ===== *)
theory Filenames
  imports Manifest
begin

text \<open>
  Decryption of the file names of a manifest: \<^verbatim>\<open>decrypt_filename\<close> and
  \<^verbatim>\<open>DepotManifest::decrypt_filenames\<close> of \<^verbatim>\<open>crates/steam/src/depot/manifest.rs\<close>. The
  base64 decoder is an argument.
\<close>

section \<open>One name\<close>

text \<open>\<^verbatim>\<open>s.chars().filter(|c| !c.is_whitespace())\<close>.\<close>

function remove_white :: "string \<Rightarrow> string" where
  "remove_white s =
     (case strip_one white_seqs s of
        Some r \<Rightarrow> remove_white r
      | None \<Rightarrow> (case s of [] \<Rightarrow> [] | c # cs \<Rightarrow> c # remove_white cs))"
  by pat_completeness auto
termination
  by (relation "measure length") (auto dest: strip_one_shorter simp: white_seqs_not_Nil)

declare remove_white.simps [simp del]

definition normalize_separators :: "string \<Rightarrow> string" where
  "normalize_separators name = map (\<lambda>c. if c = CHR 0x5C then CHR ''/'' else c) name"

definition decrypt_filename ::
  "('x crypto_scheme) \<Rightarrow> (string \<Rightarrow> bytes option) \<Rightarrow> string \<Rightarrow> depot_key \<Rightarrow> string manifest_result" where
  "decrypt_filename C base64_decode encrypted_b64 key =
     and_then (ok_or (base64_decode (remove_white encrypted_b64)) (MissingSection ''invalid base64 in filename''))
       (\<lambda>encrypted.
     if length encrypted < 32 then Inl (MissingSection ''encrypted filename too short'')
     else
       let iv = ecb_decrypt_block C (depot_key_0 key) (take 16 encrypted)
       in and_then (ok_or (cbc_decrypt_padded C (depot_key_0 key) iv (drop 16 encrypted))
            (MissingSection ''filename decryption failed'')) (\<lambda>plaintext.
          Inr (normalize_separators (from_utf8_lossy (takeWhile (\<lambda>b. b \<noteq> 0) plaintext)))))"

section \<open>All names of a manifest\<close>

definition decrypt_file ::
  "('x crypto_scheme) \<Rightarrow> (string \<Rightarrow> bytes option) \<Rightarrow> depot_key \<Rightarrow> manifest_file \<Rightarrow> manifest_file manifest_result" where
  "decrypt_file C base64_decode key file =
     (case mf_filename file of
        None \<Rightarrow> Inr file
      | Some encrypted \<Rightarrow>
          map_ok (\<lambda>name. file\<lparr>mf_filename := Some name\<rparr>) (decrypt_filename C base64_decode encrypted key))"

text \<open>
  \<^verbatim>\<open>for file in &mut self.files\<close>: the files are updated in place, so the list is returned
  with an error too.
\<close>

primrec decrypt_files ::
  "('x crypto_scheme) \<Rightarrow> (string \<Rightarrow> bytes option) \<Rightarrow> depot_key \<Rightarrow> manifest_file list
    \<Rightarrow> unit manifest_result \<times> manifest_file list" where
  "decrypt_files C base64_decode key [] = (Inr (), [])"
| "decrypt_files C base64_decode key (file # files) =
     (case decrypt_file C base64_decode key file of
        Inl e \<Rightarrow> (Inl e, file # files)
      | Inr file' \<Rightarrow>
          (case decrypt_files C base64_decode key files of (res, files') \<Rightarrow> (res, file' # files')))"

definition file_sort_key :: "manifest_file \<Rightarrow> string" where
  "file_sort_key f = unwrap_or (mf_filename f) []"

text \<open>\<^verbatim>\<open>sort_by\<close> is stable, as \<^const>\<open>sort_key\<close> is.\<close>

definition decrypt_filenames ::
  "('x crypto_scheme) \<Rightarrow> (string \<Rightarrow> bytes option) \<Rightarrow> depot_key \<Rightarrow> depot_manifest
    \<Rightarrow> unit manifest_result \<times> depot_manifest" where
  "decrypt_filenames C base64_decode key m =
     (if \<not> dm_filenames_encrypted m then (Inr (), m)
      else
        (case decrypt_files C base64_decode key (dm_files m) of
           (Inl e, files) \<Rightarrow> (Inl e, m\<lparr>dm_files := files\<rparr>)
         | (Inr _, files) \<Rightarrow>
             (Inr (), m\<lparr>dm_files := sort_key file_sort_key files, dm_filenames_encrypted := False\<rparr>)))"

section \<open>Encrypted names\<close>

text \<open>
  A name as Steam encrypts it: any base64 text, line breaks included, of an encrypted IV and
  the encrypted name, which may be padded with NUL bytes.
\<close>

definition encrypted_name ::
  "('x crypto_scheme) \<Rightarrow> (string \<Rightarrow> bytes option) \<Rightarrow> depot_key \<Rightarrow> string \<Rightarrow> string \<Rightarrow> bool" where
  "encrypted_name C base64_decode key name t \<longleftrightarrow>
     (\<exists>iv k. length iv = 16 \<and>
        base64_decode (remove_white t) =
          Some (ecb_encrypt_block C (depot_key_0 key) iv
            @ cbc_encrypt_padded C (depot_key_0 key) iv (as_bytes name @ replicate k 0)))"

text \<open>A manifest whose names are encrypted, beside the same manifest with plain names.\<close>

definition encrypts_file ::
  "('x crypto_scheme) \<Rightarrow> (string \<Rightarrow> bytes option) \<Rightarrow> depot_key \<Rightarrow> manifest_file \<Rightarrow> manifest_file \<Rightarrow> bool" where
  "encrypts_file C base64_decode key plain enc \<longleftrightarrow>
     (case mf_filename plain of
        None \<Rightarrow> enc = plain
      | Some name \<Rightarrow>
          name_ok name \<and> (\<exists>t. enc = plain\<lparr>mf_filename := Some t\<rparr> \<and> encrypted_name C base64_decode key name t))"

definition normalize_file :: "manifest_file \<Rightarrow> manifest_file" where
  "normalize_file f = f\<lparr>mf_filename := map_option normalize_separators (mf_filename f)\<rparr>"

section \<open>Lemmas\<close>

lemma takeWhile_nul: "0 \<notin> set b \<Longrightarrow> takeWhile (\<lambda>x. x \<noteq> 0) (b @ replicate k 0) = b"
  by (induction b) (auto simp: takeWhile_replicate)

lemma decrypt_filename_encrypted:
  assumes "crypto_ok C" "length (depot_key_0 key) = 32" "name_ok name"
    and "encrypted_name C base64_decode key name t"
  shows "decrypt_filename C base64_decode t key = Inr (normalize_separators name)"
proof -
  from assms(4) obtain iv k where iv: "length iv = 16"
    and b: "base64_decode (remove_white t) = Some (ecb_encrypt_block C (depot_key_0 key) iv
            @ cbc_encrypt_padded C (depot_key_0 key) iv (as_bytes name @ replicate k 0))"
    by (auto simp: encrypted_name_def)
  have "16 \<le> length (cbc_encrypt_padded C (depot_key_0 key) iv (as_bytes name @ replicate k 0))"
    "cbc_decrypt_padded C (depot_key_0 key) iv
       (cbc_encrypt_padded C (depot_key_0 key) iv (as_bytes name @ replicate k 0)) = Some (as_bytes name @ replicate k 0)"
    "length (ecb_encrypt_block C (depot_key_0 key) iv) = 16"
    "ecb_decrypt_block C (depot_key_0 key) (ecb_encrypt_block C (depot_key_0 key) iv) = iv"
    using assms(1,2) iv by (auto simp: crypto_ok_def ecb_okD cbc_okD)
  with b assms(3) show ?thesis
    by (simp add: decrypt_filename_def Let_def takeWhile_nul name_ok_def)
qed

lemma decrypt_file_encrypted:
  assumes "crypto_ok C" "length (depot_key_0 key) = 32" "encrypts_file C base64_decode key plain enc"
  shows "decrypt_file C base64_decode key enc = Inr (normalize_file plain)"
  using assms decrypt_filename_encrypted [OF assms(1,2)]
  by (cases plain) (auto simp: encrypts_file_def decrypt_file_def normalize_file_def split: option.splits)

lemma decrypt_files_encrypted:
  assumes "crypto_ok C" "length (depot_key_0 key) = 32"
    and "list_all2 (encrypts_file C base64_decode key) plains encs"
  shows "decrypt_files C base64_decode key encs = (Inr (), map normalize_file plains)"
  using assms(3)
  by (induction rule: list_all2_induct) (simp_all add: decrypt_file_encrypted [OF assms(1,2)])

text \<open>What a call leaves behind, whether it succeeds or fails.\<close>

lemma decrypt_files_split:
  "decrypt_files C base64_decode key files = (res, files') \<Longrightarrow>
     \<exists>k. k \<le> length files
       \<and> map (decrypt_file C base64_decode key) (take k files) = map Inr (take k files')
       \<and> drop k files' = drop k files \<and> length files' = length files
       \<and> (case res of
            Inr _ \<Rightarrow> k = length files
          | Inl e \<Rightarrow> k < length files \<and> decrypt_file C base64_decode key (files ! k) = Inl e)"
proof (induction files arbitrary: files')
  case Nil
  then show ?case by auto
next
  case (Cons f fs)
  show ?case
  proof (cases "decrypt_file C base64_decode key f")
    case (Inl e)
    with Cons.prems show ?thesis by (intro exI [of _ 0]) auto
  next
    case (Inr f')
    with Cons.prems obtain fs' where fs': "decrypt_files C base64_decode key fs = (res, fs')"
      and "files' = f' # fs'" by (auto split: prod.splits)
    from Cons.IH [OF fs'] obtain k where "k \<le> length fs"
      "map (decrypt_file C base64_decode key) (take k fs) = map Inr (take k fs')"
      "drop k fs' = drop k fs" "length fs' = length fs"
      "case res of Inr _ \<Rightarrow> k = length fs
         | Inl e \<Rightarrow> k < length fs \<and> decrypt_file C base64_decode key (fs ! k) = Inl e"
      by blast
    with Inr \<open>files' = f' # fs'\<close> show ?thesis
      by (intro exI [of _ "Suc k"]) (auto split: sum.splits)
  qed
qed

section \<open>Properties\<close>

text \<open>
  C28: decrypting a manifest whose names were encrypted under the depot key yields the plain
  manifest: every name with its backslashes turned into slashes, every other datum of every
  file unchanged, the files sorted by name in byte order with equal names in their old
  order, the flag cleared.
\<close>

theorem decrypt_filenames_encrypted:
  assumes "crypto_ok C" "length (depot_key_0 key) = 32"
    and "list_all2 (encrypts_file C base64_decode key) plains (dm_files m)"
    and "dm_filenames_encrypted m"
  shows "decrypt_filenames C base64_decode key m =
    (Inr (), m\<lparr>dm_files := sort_key file_sort_key (map normalize_file plains),
               dm_filenames_encrypted := False\<rparr>)"
  using decrypt_files_encrypted [OF assms(1-3)] assms(4) by (simp add: decrypt_filenames_def)

theorem decrypt_filenames_encrypted_witness:
  "decrypt_filenames plain_crypto (\<lambda>s. Some (as_bytes s)) (DepotKey (replicate 32 0))
     \<lparr>dm_depot_id = None, dm_manifest_id = None, dm_creation_time = None, dm_filenames_encrypted = True,
      dm_total_uncompressed_size = None, dm_total_compressed_size = None,
      dm_files = [\<lparr>mf_filename = Some (chars_of_bytes (replicate 16 1 @ pkcs7_pad (as_bytes ''b''))),
        mf_size = None, mf_flags = None, mf_sha_content = None, mf_chunks = [], mf_link_target = None\<rparr>]\<rparr>
   = (Inr (), \<lparr>dm_depot_id = None, dm_manifest_id = None, dm_creation_time = None,
      dm_filenames_encrypted = False, dm_total_uncompressed_size = None, dm_total_compressed_size = None,
      dm_files = [\<lparr>mf_filename = Some ''b'', mf_size = None, mf_flags = None, mf_sha_content = None,
        mf_chunks = [], mf_link_target = None\<rparr>]\<rparr>)"
proof -
  let ?t = "chars_of_bytes (replicate 16 1 @ pkcs7_pad (as_bytes ''b''))"
  let ?file = "\<lambda>n. \<lparr>mf_filename = Some n, mf_size = None, mf_flags = None, mf_sha_content = None,
        mf_chunks = [], mf_link_target = None\<rparr>"
  let ?m = "\<lparr>dm_depot_id = None, dm_manifest_id = None, dm_creation_time = None, dm_filenames_encrypted = True,
      dm_total_uncompressed_size = None, dm_total_compressed_size = None, dm_files = [?file ?t]\<rparr>"
  have "remove_white ?t = ?t" by code_simp
  then have "encrypted_name plain_crypto (\<lambda>s. Some (as_bytes s)) (DepotKey (replicate 32 0)) ''b'' ?t"
    unfolding encrypted_name_def
    by (intro exI [of _ "replicate 16 1"] exI [of _ 0]) (simp add: plain_crypto_def)
  moreover have "name_ok ''b''" by code_simp
  ultimately have "list_all2 (encrypts_file plain_crypto (\<lambda>s. Some (as_bytes s)) (DepotKey (replicate 32 0)))
      [?file ''b''] (dm_files ?m)"
    by (auto simp: encrypts_file_def)
  from decrypt_filenames_encrypted [OF plain_crypto_ok _ this]
  show ?thesis by (simp add: normalize_file_def normalize_separators_def file_sort_key_def)
qed

text \<open>
  A name that cannot be decrypted stops the call in the middle: the names before it
  are already plain, the ones from it on still encrypted, nothing is sorted, and the manifest
  still says that its names are encrypted.
\<close>

theorem decrypt_filenames_error:
  assumes "decrypt_filenames C base64_decode key m = (Inl e, m')"
  shows "\<exists>k < length (dm_files m).
      map (decrypt_file C base64_decode key) (take k (dm_files m)) = map Inr (take k (dm_files m'))
      \<and> drop k (dm_files m') = drop k (dm_files m)
      \<and> decrypt_file C base64_decode key (dm_files m ! k) = Inl e
      \<and> dm_filenames_encrypted m' \<and> dm_filenames_encrypted m"
proof -
  from assms obtain files where f: "decrypt_files C base64_decode key (dm_files m) = (Inl e, files)"
    and m': "m' = m\<lparr>dm_files := files\<rparr>" "dm_filenames_encrypted m"
    by (auto simp: decrypt_filenames_def split: if_splits prod.splits sum.splits)
  from decrypt_files_split [OF f] m' show ?thesis by auto
qed

theorem decrypt_filenames_error_witness:
  "\<exists>k < 1. decrypt_file plain_crypto (\<lambda>_. None) (DepotKey []) ([\<lparr>mf_filename = Some ''x'', mf_size = None,
      mf_flags = None, mf_sha_content = None, mf_chunks = [], mf_link_target = None\<rparr>] ! k)
    = Inl (MissingSection ''invalid base64 in filename'')"
proof -
  let ?m = "\<lparr>dm_depot_id = None, dm_manifest_id = None, dm_creation_time = None, dm_filenames_encrypted = True,
      dm_total_uncompressed_size = None, dm_total_compressed_size = None,
      dm_files = [\<lparr>mf_filename = Some ''x'', mf_size = None, mf_flags = None, mf_sha_content = None,
        mf_chunks = [], mf_link_target = None\<rparr>]\<rparr>"
  have "decrypt_filenames plain_crypto (\<lambda>_. None) (DepotKey []) ?m
      = (Inl (MissingSection ''invalid base64 in filename''), ?m)"
    by (simp add: decrypt_filenames_def decrypt_file_def decrypt_filename_def)
  from decrypt_filenames_error [OF this] show ?thesis by auto
qed

end
