(* ===== verification/Download.thy ===== *)
theory Download
  imports Files Filenames
begin

text \<open>
  The depot downloader, \<^verbatim>\<open>crates/steam-client/src/download.rs\<close> and \<^verbatim>\<open>event.rs\<close>: file
  filters, chunk verification, the download of one file through a staging file with resume
  and delta reuse, and the job that downloads the files of a manifest.

  Tasks: the chunk tasks of a file share only the staging file, behind a lock, and the file
  tasks of a job work on files of different names. So a run is given by the order in which
  the chunk tasks write, and the order in which the file tasks run: arguments of the
  definitions. The theories \<^verbatim>\<open>Interleave_Props\<close> and \<^verbatim>\<open>Permits\<close> derive both orders from runs in which the
  tasks alternate step by step. The semaphore must have at least one permit (\<^verbatim>\<open>max_downloads\<close> positive): with
  none the chunk tasks of the code wait forever. After an error the remaining tasks go on in the background; the state returned
  is the one when all have ended. The regular expressions (crate \<^verbatim>\<open>regex\<close>) and the chunk
  fetcher are arguments.
\<close>

section \<open>Events and errors\<close>

datatype download_event =
    FileStarted depot_id string nat "u64 option"
  | ChunkCompleted depot_id chunk_id nat
  | FileCompleted depot_id string
  | FileSkipped depot_id string
  | ChunkFailed depot_id chunk_id string
  | DepotProgress depot_id nat nat

text \<open>\<^verbatim>\<open>BoxError\<close>: the errors that are boxed; a panic in a task is a join error.\<close>

datatype box_error =
    FetchError string
  | JoinError
  | ChunkError chunk_error
  | Message string
  | IoError io_error_kind

section \<open>File filters\<close>

datatype 'r file_filter =
    FileList "string list"
  | Regex 'r
  | Mixed "string list" "'r list"

text \<open>\<^verbatim>\<open>str::lines\<close> up to a carriage return at the end of a line, which \<^verbatim>\<open>trim\<close> strips.\<close>

fun split_lines :: "string \<Rightarrow> string \<Rightarrow> string list" where
  "split_lines acc [] = (if acc = [] then [] else [acc])"
| "split_lines acc (c # cs) =
     (if c = CHR 0x0A then acc # split_lines [] cs else split_lines (acc @ [c]) cs)"

definition filter_lines :: "string \<Rightarrow> string list" where
  "filter_lines content = filter (\<lambda>l. l \<noteq> []) (map trim (split_lines [] content))"

definition strip_regex :: "string \<Rightarrow> string option" where
  "strip_regex line = (if prefix ''regex:'' line then Some (drop 6 line) else None)"

fun filter_scan ::
  "(string \<Rightarrow> 'r option) \<Rightarrow> string list \<Rightarrow> string list \<Rightarrow> 'r list \<Rightarrow> io_error_kind + string list \<times> 'r list" where
  "filter_scan build [] literals patterns = Inr (literals, patterns)"
| "filter_scan build (line # lines) literals patterns =
     (case strip_regex line of
        Some pattern \<Rightarrow>
          and_then (ok_or (build pattern) InvalidData) (\<lambda>re.
            filter_scan build lines literals (patterns @ [re]))
      | None \<Rightarrow> filter_scan build lines (literals @ [normalize_separators line]) patterns)"

definition from_filelist ::
  "(string \<Rightarrow> 'r option) \<Rightarrow> file_system \<Rightarrow> string \<Rightarrow> io_error_kind + 'r file_filter" where
  "from_filelist build fs path =
     and_then (ok_or (fs_files fs path) NotFound) (\<lambda>bytes.
     and_then (ok_or (from_utf8 bytes) InvalidData) (\<lambda>content.
     and_then (filter_scan build (filter_lines content) [] []) (\<lambda>(literals, patterns).
     Inr (if patterns = [] then FileList literals
          else if literals = [] \<and> length patterns = 1 then Regex (hd patterns)
          else Mixed literals patterns))))"

definition from_regex :: "(string \<Rightarrow> 'r option) \<Rightarrow> string \<Rightarrow> 'r file_filter option" where
  "from_regex build pattern = map_option Regex (build pattern)"

definition filter_matches :: "('r \<Rightarrow> string \<Rightarrow> bool) \<Rightarrow> 'r file_filter \<Rightarrow> string \<Rightarrow> bool" where
  "filter_matches is_match flt filename =
     (let normalized = normalize_separators filename
      in case flt of
           FileList list \<Rightarrow> list_ex (\<lambda>f. eq_ignore_ascii_case f normalized) list
         | Regex re \<Rightarrow> is_match re normalized
         | Mixed literals patterns \<Rightarrow>
             list_ex (\<lambda>f. eq_ignore_ascii_case f normalized) literals
             \<or> list_ex (\<lambda>re. is_match re normalized) patterns)"

section \<open>Retry\<close>

record retry_config =
  max_attempts :: nat
  initial_delay :: nat

definition default_retry :: retry_config where
  "default_retry = \<lparr>max_attempts = 5, initial_delay = 1\<rparr>"

definition no_retry :: retry_config where
  "no_retry = \<lparr>max_attempts = 1, initial_delay = 0\<rparr>"

text \<open>
  \<^verbatim>\<open>for attempt in 0..max\<close>, with the delays slept. The value \<open>None\<close> is the \<^verbatim>\<open>raw\<close> that
  no attempt has set. \<^verbatim>\<open>1 << attempt\<close> is exact for the first 31 attempts.
\<close>

function retry_loop ::
  "retry_config \<Rightarrow> (nat \<Rightarrow> box_error + bytes) \<Rightarrow> nat \<Rightarrow> (box_error + bytes option) \<times> nat list" where
  "retry_loop cfg fetch attempt =
     (if attempt < max_attempts cfg then
        (case fetch attempt of
           Inr data \<Rightarrow> (Inr (Some data), [])
         | Inl e \<Rightarrow>
             if attempt + 1 < max_attempts cfg then
               (case retry_loop cfg fetch (attempt + 1) of
                  (r, delays) \<Rightarrow> (r, initial_delay cfg * 2 ^ attempt # delays))
             else (Inl e, []))
      else (Inr None, []))"
  by pat_completeness auto
termination
  by (relation "measure (\<lambda>(cfg, fetch, attempt). max_attempts cfg - attempt)") auto

declare retry_loop.simps [simp del]

section \<open>Verification of chunks\<close>

definition file_has_correct_size :: "file_system \<Rightarrow> string \<Rightarrow> u64 option \<Rightarrow> bool" where
  "file_has_correct_size fs path expected =
     (case expected of None \<Rightarrow> False
      | Some n \<Rightarrow> (case fs_files fs path of None \<Rightarrow> False | Some b \<Rightarrow> length b = unat n))"

definition chunk_good :: "bytes \<Rightarrow> manifest_chunk \<Rightarrow> bool" where
  "chunk_good content chunk =
     (case (mc_offset chunk, mc_uncompressed_size chunk, mc_checksum chunk) of
        (Some off, Some sz, Some c) \<Rightarrow>
          (case read_at (unat off) (unat sz) content of
             None \<Rightarrow> False
           | Some buf \<Rightarrow> steam_adler32_compute buf = SteamAdler32 c)
      | _ \<Rightarrow> False)"

definition verify_chunks ::
  "file_system \<Rightarrow> string \<Rightarrow> manifest_chunk list \<Rightarrow> box_error + nat list" where
  "verify_chunks fs path chunks =
     (case fs_files fs path of
        None \<Rightarrow> Inl (IoError NotFound)
      | Some content \<Rightarrow> Inr (map fst (filter (\<lambda>(i, chunk). \<not> chunk_good content chunk) (enumerate 0 chunks))))"

definition file_has_valid_chunks ::
  "file_system \<Rightarrow> string \<Rightarrow> u64 option \<Rightarrow> manifest_chunk list \<Rightarrow> box_error + bool" where
  "file_has_valid_chunks fs path expected_size chunks =
     (if \<not> file_has_correct_size fs path expected_size then Inr False
      else map_ok (\<lambda>bad. bad = []) (verify_chunks fs path chunks))"

section \<open>Jobs and tasks\<close>

text \<open>
  The fetcher may answer differently for every task and attempt: it is given the number of
  the chunk task and of the attempt.
\<close>

record 'r depot_job =
  dj_fetcher :: "nat \<Rightarrow> nat \<Rightarrow> depot_id \<Rightarrow> chunk_id \<Rightarrow> box_error + bytes"
  dj_depot_id :: depot_id
  dj_depot_key :: depot_key
  dj_install_dir :: string
  dj_max_downloads :: nat
  dj_verify :: bool
  dj_file_filter :: "'r file_filter option"
  dj_previous_manifest :: "depot_manifest option"
  dj_retry :: retry_config

record file_task =
  ft_path :: string
  ft_size :: "u64 option"
  ft_flags :: "u32 option"
  ft_chunks :: "manifest_chunk list"
  ft_old_chunks :: "manifest_chunk list option"
  ft_filename :: string

definition staging_path :: "'r depot_job \<Rightarrow> file_task \<Rightarrow> string" where
  "staging_path job task = path_join (path_join (dj_install_dir job) ''.staging'') (ft_filename task)"

text \<open>The body of one chunk task up to the write: fetch with retry, then process.\<close>

definition chunk_task ::
  "crypto \<Rightarrow> ('a, 'e) codecs \<Rightarrow> 'r depot_job \<Rightarrow> nat \<Rightarrow> manifest_chunk \<Rightarrow> chunk_id \<Rightarrow> box_error + bytes" where
  "chunk_task C Z job i chunk chunk_id =
     and_then (fst (retry_loop (dj_retry job)
        (\<lambda>attempt. dj_fetcher job i attempt (dj_depot_id job) chunk_id) 0)) (\<lambda>raw.
     and_then (ok_or raw JoinError) (\<lambda>raw.
     and_then (ok_or (mc_uncompressed_size chunk) (Message ''chunk missing expected size in manifest'')) (\<lambda>size.
     and_then (ok_or (mc_checksum chunk) (Message ''chunk missing checksum in manifest'')) (\<lambda>checksum.
     map_err ChunkError (process_chunk C Z raw (dj_depot_key job) size checksum)))))"

definition write_chunk :: "manifest_chunk \<Rightarrow> bytes \<Rightarrow> bytes \<Rightarrow> bytes" where
  "write_chunk chunk decompressed content =
     (case mc_offset chunk of None \<Rightarrow> content | Some off \<Rightarrow> write_at (unat off) decompressed content)"

text \<open>Delta reuse: copying one chunk from the old file when the old manifest lists it.\<close>

definition old_match :: "manifest_chunk list \<Rightarrow> chunk_id \<Rightarrow> manifest_chunk option" where
  "old_match old_chunks chunk_id = find (\<lambda>oc. mc_id oc = Some chunk_id) old_chunks"

definition copy_chunk :: "manifest_chunk list \<Rightarrow> bytes \<Rightarrow> manifest_chunk \<Rightarrow> bytes \<Rightarrow> bytes" where
  "copy_chunk old_chunks old_content chunk content =
     (case mc_id chunk of
        None \<Rightarrow> content
      | Some chunk_id \<Rightarrow>
          (case old_match old_chunks chunk_id of
             None \<Rightarrow> content
           | Some old_chunk \<Rightarrow>
               (case (mc_offset old_chunk, mc_offset chunk, mc_uncompressed_size chunk) of
                  (Some old_offset, Some new_offset, Some sz) \<Rightarrow>
                    (case read_at (unat old_offset) (unat sz) old_content of
                       None \<Rightarrow> content
                     | Some buf \<Rightarrow> write_at (unat new_offset) buf content)
                | _ \<Rightarrow> content)))"

text \<open>The chunks a task has to fetch, with the ids they are fetched by.\<close>

definition to_fetch ::
  "chunk_id set \<Rightarrow> manifest_chunk list option \<Rightarrow> bool \<Rightarrow> manifest_chunk list \<Rightarrow> (manifest_chunk \<times> chunk_id) list" where
  "to_fetch valid_chunks old_chunks path_exists chunks =
     List.map_filter (\<lambda>chunk.
       case mc_id chunk of
         None \<Rightarrow> None
       | Some chunk_id \<Rightarrow>
           if chunk_id \<in> valid_chunks then None
           else if (case old_chunks of None \<Rightarrow> False
                    | Some ocs \<Rightarrow> path_exists \<and> list_ex (\<lambda>oc. mc_id oc = Some chunk_id) ocs)
           then None
           else Some (chunk, chunk_id)) chunks"

text \<open>The writes and events of the chunk tasks, in the order in which they finish.\<close>

definition finish_chunk ::
  "depot_id \<Rightarrow> (manifest_chunk \<times> chunk_id \<times> (box_error + bytes)) \<Rightarrow> bytes \<times> download_event list
    \<Rightarrow> bytes \<times> download_event list" where
  "finish_chunk depot_id t st =
     (case (t, st) of ((chunk, chunk_id, res), (content, events)) \<Rightarrow>
        (case res of
           Inl e \<Rightarrow> (content, events)
         | Inr decompressed \<Rightarrow>
             (write_chunk chunk decompressed content,
              events @ [ChunkCompleted depot_id chunk_id (length decompressed)])))"

definition first_error :: "('e + 'a) list \<Rightarrow> 'e + unit" where
  "first_error rs = (case find (\<lambda>r. \<not> is_ok r) rs of Some (Inl e) \<Rightarrow> Inl e | _ \<Rightarrow> Inr ())"

definition valid_ids :: "nat list \<Rightarrow> manifest_chunk list \<Rightarrow> chunk_id set" where
  "valid_ids bad chunks =
     set (List.map_filter (\<lambda>(i, chunk). if i \<in> set bad then None else mc_id chunk) (enumerate 0 chunks))"

text \<open>The part of \<^verbatim>\<open>download_file\<close> behind the opening of the staging file.\<close>

definition fill_staging ::
  "crypto \<Rightarrow> ('a, 'e) codecs \<Rightarrow> 'r depot_job \<Rightarrow> nat list \<Rightarrow> file_task \<Rightarrow> chunk_id set \<Rightarrow> bytes \<Rightarrow> file_system
    \<Rightarrow> (box_error + unit) \<times> download_event list \<times> file_system" where
  "fill_staging C Z job order task valid_chunks content fs =
     (let content = (case (ft_old_chunks task, fs_files fs (ft_path task)) of
                       (Some old_chunks, Some old_content) \<Rightarrow>
                         fold (copy_chunk old_chunks old_content) (ft_chunks task) content
                     | _ \<Rightarrow> content);
          fetches = to_fetch valid_chunks (ft_old_chunks task) (file_exists fs (ft_path task)) (ft_chunks task);
          results = map (\<lambda>(i, chunk, chunk_id). (chunk, chunk_id, chunk_task C Z job i chunk chunk_id))
                      (enumerate 0 fetches)
      in case fold (finish_chunk (dj_depot_id job)) (map ((!) results) order) (content, []) of
           (content, events) \<Rightarrow>
             let fs = write_file (staging_path job task) content fs
             in (case first_error (map (\<lambda>(_, _, res). res) results) of
                   Inl e \<Rightarrow> (Inl e, events, fs)
                 | Inr _ \<Rightarrow>
                     (case rename_file (staging_path job task) (ft_path task) fs of
                        Inl e \<Rightarrow> (Inl (IoError e), events, fs)
                      | Inr fs \<Rightarrow> (Inr (), events, fs))))"

definition fetches_of :: "'r depot_job \<Rightarrow> file_task \<Rightarrow> chunk_id set \<Rightarrow> file_system \<Rightarrow> (manifest_chunk \<times> chunk_id) list" where
  "fetches_of job task valid_chunks fs =
     to_fetch valid_chunks (ft_old_chunks task) (file_exists fs (ft_path task)) (ft_chunks task)"

text \<open>The order is given by a function of the number of tasks.\<close>

definition download_file ::
  "crypto \<Rightarrow> ('a, 'e) codecs \<Rightarrow> 'r depot_job \<Rightarrow> (nat \<Rightarrow> nat list) \<Rightarrow> file_task \<Rightarrow> file_system
    \<Rightarrow> (box_error + unit) \<times> download_event list \<times> file_system" where
  "download_file C Z job order task fs =
     (case file_has_valid_chunks fs (ft_path task) (ft_size task) (ft_chunks task) of
        Inl e \<Rightarrow> (Inl e, [], fs)
      | Inr True \<Rightarrow> (Inr (), [], fs)
      | Inr False \<Rightarrow>
          if file_has_correct_size fs (staging_path job task) (ft_size task) then
            (case verify_chunks fs (staging_path job task) (ft_chunks task) of
               Inl e \<Rightarrow> (Inl e, [], fs)
             | Inr bad \<Rightarrow>
                 let valid_chunks = valid_ids bad (ft_chunks task)
                 in if card valid_chunks = length (ft_chunks task) then
                      (case rename_file (staging_path job task) (ft_path task) fs of
                         Inl e \<Rightarrow> (Inl (IoError e), [], fs)
                       | Inr fs \<Rightarrow> (Inr (), [], fs))
                    else fill_staging C Z job (order (length (fetches_of job task valid_chunks fs))) task
                           valid_chunks (the (fs_files fs (staging_path job task))) fs)
          else
            let content = (case ft_size task of None \<Rightarrow> [] | Some sz \<Rightarrow> replicate (unat sz) 0);
                fs = write_file (staging_path job task) content fs
            in fill_staging C Z job (order (length (fetches_of job task {} fs))) task {} content fs)"

section \<open>The job\<close>

text \<open>\<^verbatim>\<open>set_executable_if_needed\<close> on Unix: execute bits are added to an existing file.\<close>

definition set_executable_if_needed :: "file_task \<Rightarrow> file_system \<Rightarrow> file_system" where
  "set_executable_if_needed task fs =
     (if (case ft_flags task of None \<Rightarrow> False | Some f \<Rightarrow> is_executable (DepotFileFlags f))
         \<and> file_exists fs (ft_path task)
      then fs\<lparr>fs_executable := insert (ft_path task) (fs_executable fs)\<rparr> else fs)"

definition entry_is_directory :: "manifest_file \<Rightarrow> bool" where
  "entry_is_directory file =
     (case mf_flags file of None \<Rightarrow> False | Some f \<Rightarrow> is_directory (DepotFileFlags f))"

definition find_old :: "depot_manifest option \<Rightarrow> string \<Rightarrow> manifest_file option" where
  "find_old previous filename =
     (case previous of None \<Rightarrow> None
      | Some old \<Rightarrow> find (\<lambda>f. mf_filename f = Some filename) (dm_files old))"

definition file_unchanged :: "'r depot_job \<Rightarrow> file_system \<Rightarrow> manifest_file \<Rightarrow> string \<Rightarrow> bool" where
  "file_unchanged job fs file filename =
     (case find_old (dj_previous_manifest job) filename of
        None \<Rightarrow> False
      | Some old \<Rightarrow> mf_sha_content old = mf_sha_content file \<and> mf_sha_content file \<noteq> None
          \<and> file_exists fs (path_join (dj_install_dir job) filename))"

definition make_task :: "'r depot_job \<Rightarrow> manifest_file \<Rightarrow> string \<Rightarrow> file_task" where
  "make_task job file filename =
     \<lparr>ft_path = path_join (dj_install_dir job) filename, ft_size = mf_size file, ft_flags = mf_flags file,
      ft_chunks = mf_chunks file,
      ft_old_chunks = map_option mf_chunks (find_old (dj_previous_manifest job) filename),
      ft_filename = filename\<rparr>"

text \<open>The loop over the files: events sent, files completed, tasks spawned.\<close>

record download_plan =
  pl_events :: "download_event list"
  pl_completed :: nat
  pl_tasks :: "file_task list"

definition plan_file ::
  "('r \<Rightarrow> string \<Rightarrow> bool) \<Rightarrow> 'r depot_job \<Rightarrow> file_system \<Rightarrow> nat \<Rightarrow> manifest_file \<Rightarrow> download_plan \<Rightarrow> download_plan" where
  "plan_file is_match job fs files_total file pl =
     (case mf_filename file of
        None \<Rightarrow> pl
      | Some filename \<Rightarrow>
          let skipped = FileSkipped (dj_depot_id job) filename
          in if (case dj_file_filter job of None \<Rightarrow> False | Some flt \<Rightarrow> \<not> filter_matches is_match flt filename)
             then pl\<lparr>pl_events := pl_events pl @ [skipped], pl_completed := pl_completed pl + 1\<rparr>
             else if entry_is_directory file
             then pl\<lparr>pl_events := pl_events pl
                       @ [skipped, DepotProgress (dj_depot_id job) (pl_completed pl + 1) files_total],
                     pl_completed := pl_completed pl + 1\<rparr>
             else if file_unchanged job fs file filename
             then pl\<lparr>pl_events := pl_events pl @ [skipped], pl_completed := pl_completed pl + 1\<rparr>
             else let task = make_task job file filename
                  in pl\<lparr>pl_events := pl_events pl
                          @ [FileStarted (dj_depot_id job) filename (length (ft_chunks task)) (mf_size file)],
                        pl_tasks := pl_tasks pl @ [task]\<rparr>)"

definition plan_files ::
  "('r \<Rightarrow> string \<Rightarrow> bool) \<Rightarrow> 'r depot_job \<Rightarrow> file_system \<Rightarrow> depot_manifest \<Rightarrow> download_plan" where
  "plan_files is_match job fs manifest =
     fold (plan_file is_match job fs (length (dm_files manifest))) (dm_files manifest)
       \<lparr>pl_events = [], pl_completed = 0, pl_tasks = []\<rparr>"

text \<open>\<^verbatim>\<open>clone_shared\<close>: what a spawned task gets of the job. It needs no more, see \<open>shared_file_task\<close>.\<close>

definition clone_shared :: "'r depot_job \<Rightarrow> 'r depot_job" where
  "clone_shared job = job\<lparr>dj_file_filter := None, dj_previous_manifest := None\<rparr>"

text \<open>One spawned file task.\<close>

definition run_file_task ::
  "crypto \<Rightarrow> ('a, 'e) codecs \<Rightarrow> 'r depot_job \<Rightarrow> (nat \<Rightarrow> nat list) \<Rightarrow> file_task \<Rightarrow> file_system
    \<Rightarrow> (box_error + unit) \<times> download_event list \<times> file_system" where
  "run_file_task C Z job order task fs =
     (case download_file C Z job order task fs of
        (Inl e, events, fs) \<Rightarrow> (Inl e, events, fs)
      | (Inr _, events, fs) \<Rightarrow>
          (Inr (), events @ [FileCompleted (dj_depot_id job) (ft_filename task)], set_executable_if_needed task fs))"

text \<open>
  All file tasks, in the order in which they run: the outcome of each by its number, the
  events, the files.
\<close>

definition run_task ::
  "crypto \<Rightarrow> ('a, 'e) codecs \<Rightarrow> 'r depot_job \<Rightarrow> (nat \<Rightarrow> nat \<Rightarrow> nat list) \<Rightarrow> file_task list \<Rightarrow> nat
    \<Rightarrow> (nat \<Rightarrow> box_error + unit) \<times> download_event list \<times> file_system
    \<Rightarrow> (nat \<Rightarrow> box_error + unit) \<times> download_event list \<times> file_system" where
  "run_task C Z job chunk_order tasks i st =
     (case st of (results, events, fs) \<Rightarrow>
       (case run_file_task C Z job (chunk_order i) (tasks ! i) fs of
          (r, new_events, fs) \<Rightarrow> (results(i := r), events @ new_events, fs)))"

text \<open>Awaiting the handles in the order of the files.\<close>

fun await_tasks ::
  "depot_id \<Rightarrow> nat \<Rightarrow> nat \<Rightarrow> (box_error + unit) list \<Rightarrow> (box_error + unit) \<times> download_event list" where
  "await_tasks depot_id files_completed files_total [] = (Inr (), [])"
| "await_tasks depot_id files_completed files_total (r # rs) =
     (case r of
        Inl e \<Rightarrow> (Inl e, [])
      | Inr _ \<Rightarrow>
          (case await_tasks depot_id (files_completed + 1) files_total rs of
             (res, events) \<Rightarrow> (res, DepotProgress depot_id (files_completed + 1) files_total # events)))"

text \<open>Deleting the files of the previous manifest that the new one does not name.\<close>

definition delete_removed :: "string \<Rightarrow> depot_manifest \<Rightarrow> manifest_file \<Rightarrow> file_system \<Rightarrow> file_system" where
  "delete_removed install_dir manifest old_file fs =
     (case mf_filename old_file of
        None \<Rightarrow> fs
      | Some name \<Rightarrow>
          if entry_is_directory old_file then fs
          else if list_ex (\<lambda>f. mf_filename f = Some name) (dm_files manifest) then fs
          else if file_exists fs (path_join install_dir name) then remove_file (path_join install_dir name) fs
          else fs)"

definition download ::
  "crypto \<Rightarrow> ('a, 'e) codecs \<Rightarrow> ('r \<Rightarrow> string \<Rightarrow> bool) \<Rightarrow> 'r depot_job \<Rightarrow> (nat \<Rightarrow> nat list)
    \<Rightarrow> (nat \<Rightarrow> nat \<Rightarrow> nat list) \<Rightarrow> depot_manifest \<Rightarrow> file_system
    \<Rightarrow> (box_error + unit) \<times> download_event list \<times> file_system" where
  "download C Z is_match job task_order chunk_order manifest fs =
     (let pl = plan_files is_match job fs manifest;
          tasks = pl_tasks pl
      in case fold (run_task C Z job chunk_order tasks) (task_order (length tasks))
                (\<lambda>_. Inr (), [], fs) of
           (results, events, fs) \<Rightarrow>
             (case await_tasks (dj_depot_id job) (pl_completed pl) (length (dm_files manifest))
                     (map results [0..<length tasks]) of
                (Inl e, progress) \<Rightarrow> (Inl e, pl_events pl @ events @ progress, fs)
              | (Inr _, progress) \<Rightarrow>
                  (Inr (), pl_events pl @ events @ progress,
                   (case dj_previous_manifest job of
                      None \<Rightarrow> fs
                    | Some old \<Rightarrow> fold (delete_removed (dj_install_dir job) manifest) (dm_files old) fs))))"

section \<open>The builder\<close>

record 'r depot_job_builder =
  jb_fetcher :: "(nat \<Rightarrow> nat \<Rightarrow> depot_id \<Rightarrow> chunk_id \<Rightarrow> box_error + bytes) option"
  jb_depot_id :: "depot_id option"
  jb_depot_key :: "depot_key option"
  jb_install_dir :: "string option"
  jb_max_downloads :: "nat option"
  jb_event_tx :: bool
  jb_verify :: bool
  jb_file_filter :: "'r file_filter option"
  jb_previous_manifest :: "depot_manifest option"
  jb_retry :: retry_config

definition default_builder :: "'r depot_job_builder" where
  "default_builder =
     \<lparr>jb_fetcher = None, jb_depot_id = None, jb_depot_key = None, jb_install_dir = None,
      jb_max_downloads = None, jb_event_tx = False, jb_verify = False, jb_file_filter = None,
      jb_previous_manifest = None, jb_retry = default_retry\<rparr>"

definition builder_fetcher where
  "builder_fetcher fetcher b = b\<lparr>jb_fetcher := Some fetcher\<rparr>"

definition builder_depot_id where
  "builder_depot_id i b = b\<lparr>jb_depot_id := Some i\<rparr>"

definition builder_depot_key where
  "builder_depot_key key b = b\<lparr>jb_depot_key := Some key\<rparr>"

definition builder_install_dir where
  "builder_install_dir dir b = b\<lparr>jb_install_dir := Some dir\<rparr>"

definition builder_max_downloads where
  "builder_max_downloads n b = b\<lparr>jb_max_downloads := Some n\<rparr>"

definition builder_event_sender where
  "builder_event_sender b = b\<lparr>jb_event_tx := True\<rparr>"

definition builder_verify where
  "builder_verify verify b = b\<lparr>jb_verify := verify\<rparr>"

definition builder_file_filter where
  "builder_file_filter flt b = b\<lparr>jb_file_filter := flt\<rparr>"

definition builder_previous_manifest where
  "builder_previous_manifest manifest b = b\<lparr>jb_previous_manifest := manifest\<rparr>"

definition builder_retry where
  "builder_retry config b = b\<lparr>jb_retry := config\<rparr>"

definition build_job :: "'r depot_job_builder \<Rightarrow> string + 'r depot_job" where
  "build_job b =
     and_then (ok_or (jb_fetcher b) ''fetcher is required (use .cdn() or .fetcher())'') (\<lambda>fetcher.
     and_then (ok_or (jb_depot_id b) ''depot_id is required'') (\<lambda>depot_id.
     and_then (ok_or (jb_depot_key b) ''depot_key is required'') (\<lambda>depot_key.
     and_then (ok_or (jb_install_dir b) ''install_dir is required'') (\<lambda>install_dir.
     and_then (if jb_event_tx b then Inr () else Inl ''event_sender is required'') (\<lambda>_.
     Inr \<lparr>dj_fetcher = fetcher, dj_depot_id = depot_id, dj_depot_key = depot_key,
          dj_install_dir = install_dir, dj_max_downloads = unwrap_or (jb_max_downloads b) 8,
          dj_verify = jb_verify b, dj_file_filter = jb_file_filter b,
          dj_previous_manifest = jb_previous_manifest b, dj_retry = jb_retry b\<rparr>)))))"

end
