(* ===== verification/Progress.thy ===== *)
theory Progress
  imports Download
begin

text \<open>
  The progress renderer of \<^verbatim>\<open>crates/depotdownloader/src/download.rs\<close>: what it makes of the
  events of a job. The progress bar of the terminal is third-party; the calls to it are the
  result.
\<close>

datatype bar_call =
    BarNew nat
  | SetPosition nat
  | BarLine string
  | FinishWith string

text \<open>The state is whether there is a bar.\<close>

fun render_event :: "download_event \<Rightarrow> bool \<Rightarrow> bar_call list \<times> bool" where
  "render_event (DepotProgress d files_completed files_total) bar =
     ((if bar then [] else [BarNew files_total]) @ [SetPosition files_completed], True)"
| "render_event (FileCompleted d filename) bar =
     ((if bar then [BarLine (''  '' @ filename)] else []), bar)"
| "render_event (ChunkFailed d chunk_id error) bar =
     ((if bar then [BarLine (''  WARN: chunk '' @ chunk_id_display chunk_id @ '' failed: '' @ error)] else []), bar)"
| "render_event _ bar = ([], bar)"

fun render_events :: "download_event list \<Rightarrow> bool \<Rightarrow> bar_call list \<times> bool" where
  "render_events [] bar = ([], bar)"
| "render_events (e # es) bar =
     (let (calls, bar) = render_event e bar; (more, bar) = render_events es bar in (calls @ more, bar))"

definition progress_renderer :: "download_event list \<Rightarrow> bar_call list" where
  "progress_renderer events =
     (let (calls, bar) = render_events events False
      in calls @ (if bar then [FinishWith ''Download complete''] else []))"

section \<open>Lemmas\<close>

lemma render_events_append:
  "render_events (es @ es') bar =
     (let (calls, bar) = render_events es bar; (more, bar) = render_events es' bar in (calls @ more, bar))"
  by (induction es arbitrary: bar) (auto simp: Let_def split: prod.splits)

lemma render_quiet:
  assumes "\<forall>e \<in> set es. \<not> (\<exists>d n m. e = DepotProgress d n m)"
  shows "render_events es False = ([], False)"
  using assms
proof (induction es)
  case (Cons e es)
  then show ?case by (cases e) (auto simp: Let_def)
qed simp

lemma render_running:
  "snd (render_events es True) \<and> (\<forall>n. BarNew n \<notin> set (fst (render_events es True)))
     \<and> (\<forall>m. FinishWith m \<notin> set (fst (render_events es True)))"
proof (induction es)
  case (Cons e es)
  then show ?case by (cases e) (auto simp: Let_def split: prod.splits)
qed simp

section \<open>Properties\<close>

text \<open>
  Nothing is drawn before the first progress event of a depot; from then on one bar with the
  number of files of that event is drawn, and it is finished at the end.
\<close>

theorem progress_renderer_one_bar:
  assumes "\<forall>e \<in> set before. \<not> (\<exists>d n m. e = DepotProgress d n m)"
  shows "progress_renderer before = []"
    and "\<exists>calls. progress_renderer (before @ DepotProgress d n m # after)
             = BarNew m # SetPosition n # calls @ [FinishWith ''Download complete'']
           \<and> (\<forall>k. BarNew k \<notin> set calls) \<and> (\<forall>t. FinishWith t \<notin> set calls)"
  using render_quiet [OF assms] render_running [of after]
  by (auto simp: progress_renderer_def render_events_append Let_def split: prod.split)

theorem progress_renderer_one_bar_witness:
  "progress_renderer [FileSkipped (DepotId 1) ''a''] = []"
  by (rule progress_renderer_one_bar(1)) simp

end
