(* ===== verification/Headers.thy ===== *)
theory Headers
  imports Errors
begin

text \<open>
  The message headers of \<^verbatim>\<open>crates/steam/src/messages/header.rs\<close>: the simple header of the
  channel handshake, the extended client header, the protobuf header, and the dispatch
  \<^verbatim>\<open>parse_packet_header\<close>. A parser takes the slice and returns the header and the rest
  of the slice; a writer returns the bytes it appends.
\<close>

section \<open>MsgHdr\<close>

record msg_hdr =
  mh_emsg :: emsg
  mh_target_job_id :: u64
  mh_source_job_id :: u64

definition MSG_HDR_SIZE :: nat where
  "MSG_HDR_SIZE = 20"

definition msg_hdr_parse :: "bytes \<Rightarrow> parse_error + msg_hdr \<times> bytes" where
  "msg_hdr_parse r =
     and_then (ok_or (read_u32 r) PUnexpectedEof) (\<lambda>(raw_emsg, r).
     and_then (ok_or (read_u64 r) PUnexpectedEof) (\<lambda>(target_job_id, r).
     and_then (ok_or (read_u64 r) PUnexpectedEof) (\<lambda>(source_job_id, r).
     Inr (\<lparr>mh_emsg = EMsg (raw_emsg AND EMSG_MASK),
           mh_target_job_id = target_job_id,
           mh_source_job_id = source_job_id\<rparr>, r))))"

definition msg_hdr_write :: "msg_hdr \<Rightarrow> bytes" where
  "msg_hdr_write h =
     to_le 4 (emsg_0 (mh_emsg h)) @ to_le 8 (mh_target_job_id h) @ to_le 8 (mh_source_job_id h)"

section \<open>ExtendedClientMsgHdr\<close>

record extended_hdr =
  eh_emsg :: emsg
  eh_header_size :: u8
  eh_header_version :: u16
  eh_target_job_id :: u64
  eh_source_job_id :: u64
  eh_header_canary :: u8
  eh_steam_id :: u64
  eh_session_id :: i32

definition EXTENDED_HDR_SIZE :: nat where
  "EXTENDED_HDR_SIZE = 36"

definition extended_hdr_parse :: "bytes \<Rightarrow> parse_error + extended_hdr \<times> bytes" where
  "extended_hdr_parse r =
     and_then (ok_or (read_u32 r) PUnexpectedEof) (\<lambda>(raw_emsg, r).
     and_then (ok_or (read_u8 r) PUnexpectedEof) (\<lambda>(header_size, r).
     and_then (ok_or (read_u16 r) PUnexpectedEof) (\<lambda>(header_version, r).
     and_then (ok_or (read_u64 r) PUnexpectedEof) (\<lambda>(target_job_id, r).
     and_then (ok_or (read_u64 r) PUnexpectedEof) (\<lambda>(source_job_id, r).
     and_then (ok_or (read_u8 r) PUnexpectedEof) (\<lambda>(header_canary, r).
     and_then (ok_or (read_u64 r) PUnexpectedEof) (\<lambda>(steam_id, r).
     and_then (ok_or (read_u32 r) PUnexpectedEof) (\<lambda>(session_id, r).
     Inr (\<lparr>eh_emsg = EMsg (raw_emsg AND EMSG_MASK),
           eh_header_size = header_size,
           eh_header_version = header_version,
           eh_target_job_id = target_job_id,
           eh_source_job_id = source_job_id,
           eh_header_canary = header_canary,
           eh_steam_id = steam_id,
           eh_session_id = session_id\<rparr>, r)))))))))"

definition extended_hdr_write :: "extended_hdr \<Rightarrow> bytes" where
  "extended_hdr_write h =
     to_le 4 (emsg_0 (eh_emsg h)) @ [eh_header_size h] @ to_le 2 (eh_header_version h)
     @ to_le 8 (eh_target_job_id h) @ to_le 8 (eh_source_job_id h) @ [eh_header_canary h]
     @ to_le 8 (eh_steam_id h) @ to_le 4 (eh_session_id h)"

section \<open>MsgHdrProtoBuf\<close>

record proto_hdr =
  ph_emsg :: emsg
  ph_is_protobuf :: bool
  ph_header_data :: bytes

definition proto_hdr_parse :: "bytes \<Rightarrow> parse_error + proto_hdr \<times> bytes" where
  "proto_hdr_parse r =
     and_then (ok_or (read_u32 r) PUnexpectedEof) (\<lambda>(raw_emsg, r).
     and_then (ok_or (read_u32 r) PUnexpectedEof) (\<lambda>(header_len, r).
     if length r < unat header_len then Inl PUnexpectedEof
     else Inr (\<lparr>ph_emsg = EMsg (raw_emsg AND EMSG_MASK),
                ph_is_protobuf = (raw_emsg AND PROTO_MASK \<noteq> 0),
                ph_header_data = take (unat header_len) r\<rparr>, drop (unat header_len) r)))"

text \<open>\<^verbatim>\<open>write_to(&self, w, header_data)\<close>: the length field is \<^verbatim>\<open>len() as u32\<close>.\<close>

definition proto_hdr_write :: "proto_hdr \<Rightarrow> bytes \<Rightarrow> bytes" where
  "proto_hdr_write h header_data =
     (let raw_emsg = if ph_is_protobuf h then emsg_0 (ph_emsg h) OR PROTO_MASK else emsg_0 (ph_emsg h)
      in to_le 4 raw_emsg @ to_le 4 (of_nat (length header_data) :: u32) @ header_data)"

section \<open>Dispatch\<close>

datatype packet_header =
    Simple msg_hdr bytes
  | Extended extended_hdr bytes
  | Protobuf proto_hdr bytes

definition is_channel_encrypt :: "emsg \<Rightarrow> bool" where
  "is_channel_encrypt e \<longleftrightarrow>
     e = EMSG_CHANNEL_ENCRYPT_REQUEST \<or> e = EMSG_CHANNEL_ENCRYPT_RESPONSE \<or> e = EMSG_CHANNEL_ENCRYPT_RESULT"

definition parse_packet_header :: "bytes \<Rightarrow> parse_error + packet_header" where
  "parse_packet_header data =
     (if length data < 4 then Inl PUnexpectedEof
      else
        let raw_emsg = from_le (take 4 data) :: u32
        in if raw_emsg AND PROTO_MASK \<noteq> 0
           then and_then (proto_hdr_parse data) (\<lambda>(header, reader). Inr (Protobuf header reader))
           else
             let emsg = EMsg (raw_emsg AND EMSG_MASK)
             in if is_channel_encrypt emsg
                then and_then (msg_hdr_parse data) (\<lambda>(header, reader). Inr (Simple header reader))
                else and_then (extended_hdr_parse data) (\<lambda>(header, reader). Inr (Extended header reader)))"

section \<open>Lemmas\<close>

text \<open>What a header of each kind can carry on the wire.\<close>

definition msg_hdr_fits :: "msg_hdr \<Rightarrow> bool" where
  "msg_hdr_fits h \<longleftrightarrow> emsg_plain (mh_emsg h)"

definition extended_hdr_fits :: "extended_hdr \<Rightarrow> bool" where
  "extended_hdr_fits h \<longleftrightarrow> emsg_plain (eh_emsg h)"

definition proto_hdr_fits :: "proto_hdr \<Rightarrow> bool" where
  "proto_hdr_fits h \<longleftrightarrow> emsg_plain (ph_emsg h) \<and> length (ph_header_data h) < 2 ^ 32"

lemma emsg_plain_mask: "emsg_plain e \<Longrightarrow> EMsg (emsg_0 e AND EMSG_MASK) = e"
  by (simp add: emsg_plain_def emsg_mask_plain)

lemma emsg_plain_flagged:
  "emsg_plain e \<Longrightarrow> EMsg ((emsg_0 e OR PROTO_MASK) AND EMSG_MASK) = e"
  by (simp add: emsg_plain_def emsg_mask_flagged)

lemma unat_of_nat_u32: "n < 2 ^ 32 \<Longrightarrow> unat (of_nat n :: u32) = n"
  by (simp add: unat_of_nat)

lemma length_msg_hdr_write [simp]: "length (msg_hdr_write h) = MSG_HDR_SIZE"
  by (simp add: msg_hdr_write_def MSG_HDR_SIZE_def)

lemma length_extended_hdr_write [simp]: "length (extended_hdr_write h) = EXTENDED_HDR_SIZE"
  by (simp add: extended_hdr_write_def EXTENDED_HDR_SIZE_def)

text \<open>
  Each header is a wire format: what was written is read back, with the rest of the slice
  untouched. The contract's laws are discharged on the code's parsers and writers.
\<close>

lemma msg_hdr_parse_write: "msg_hdr_fits h \<Longrightarrow> msg_hdr_parse (msg_hdr_write h @ r) = Inr (h, r)"
  by (simp add: msg_hdr_parse_def msg_hdr_write_def msg_hdr_fits_def emsg_plain_mask)

lemma extended_hdr_parse_write:
  "extended_hdr_fits h \<Longrightarrow> extended_hdr_parse (extended_hdr_write h @ r) = Inr (h, r)"
  by (simp add: extended_hdr_parse_def extended_hdr_write_def extended_hdr_fits_def emsg_plain_mask)

lemma proto_hdr_parse_write:
  "proto_hdr_fits h \<Longrightarrow> proto_hdr_parse (proto_hdr_write h (ph_header_data h) @ r) = Inr (h, r)"
  by (cases "ph_is_protobuf h")
     (simp_all add: proto_hdr_parse_def proto_hdr_write_def proto_hdr_fits_def Let_def
       emsg_plain_mask emsg_plain_flagged unat_of_nat_u32 emsg_mask_recover, simp_all add: emsg_plain_def)

interpretation msg_hdr: wire_codec msg_hdr_write "\<lambda>b. result_ok (msg_hdr_parse b)" msg_hdr_fits
proof unfold_locales
  show "msg_hdr_fits x \<Longrightarrow> result_ok (msg_hdr_parse (msg_hdr_write x @ r)) = Some (x, r)" for x r
    by (simp add: msg_hdr_parse_write)
  show "result_ok (msg_hdr_parse b) = Some (x, r) \<Longrightarrow>
      result_ok (msg_hdr_parse (b @ c)) = Some (x, r @ c)" for b x r c
    by (auto simp: msg_hdr_parse_def reads_append elim!: and_thenE)
  show "result_ok (msg_hdr_parse b) = Some (x, r) \<Longrightarrow> length r < length b" for b x r
    by (auto simp: msg_hdr_parse_def elim!: and_thenE dest!: reads_length)
qed

interpretation extended_hdr:
  wire_codec extended_hdr_write "\<lambda>b. result_ok (extended_hdr_parse b)" extended_hdr_fits
proof unfold_locales
  show "extended_hdr_fits x \<Longrightarrow> result_ok (extended_hdr_parse (extended_hdr_write x @ r)) = Some (x, r)"
    for x r
    by (simp add: extended_hdr_parse_write)
  show "result_ok (extended_hdr_parse b) = Some (x, r) \<Longrightarrow>
      result_ok (extended_hdr_parse (b @ c)) = Some (x, r @ c)" for b x r c
    by (auto simp: extended_hdr_parse_def reads_append elim!: and_thenE)
  show "result_ok (extended_hdr_parse b) = Some (x, r) \<Longrightarrow> length r < length b" for b x r
    by (auto simp: extended_hdr_parse_def elim!: and_thenE dest!: reads_length)
qed

interpretation proto_hdr:
  wire_codec "\<lambda>h. proto_hdr_write h (ph_header_data h)" "\<lambda>b. result_ok (proto_hdr_parse b)" proto_hdr_fits
proof unfold_locales
  show "proto_hdr_fits x \<Longrightarrow>
      result_ok (proto_hdr_parse (proto_hdr_write x (ph_header_data x) @ r)) = Some (x, r)" for x r
    by (simp add: proto_hdr_parse_write)
  show "result_ok (proto_hdr_parse b) = Some (x, r) \<Longrightarrow>
      result_ok (proto_hdr_parse (b @ c)) = Some (x, r @ c)" for b x r c
    by (auto simp: proto_hdr_parse_def reads_append split: if_splits elim!: and_thenE)
  show "result_ok (proto_hdr_parse b) = Some (x, r) \<Longrightarrow> length r < length b" for b x r
    by (auto simp: proto_hdr_parse_def split: if_splits elim!: and_thenE dest!: reads_length)
qed

text \<open>The bytes of a whole packet, and the packets that have such a form.\<close>

primrec packet_write :: "packet_header \<Rightarrow> bytes" where
  "packet_write (Simple h body) = msg_hdr_write h @ body"
| "packet_write (Extended h body) = extended_hdr_write h @ body"
| "packet_write (Protobuf h body) = proto_hdr_write h (ph_header_data h) @ body"

primrec packet_fits :: "packet_header \<Rightarrow> bool" where
  "packet_fits (Simple h body) \<longleftrightarrow> msg_hdr_fits h \<and> is_channel_encrypt (mh_emsg h)"
| "packet_fits (Extended h body) \<longleftrightarrow> extended_hdr_fits h \<and> \<not> is_channel_encrypt (eh_emsg h)"
| "packet_fits (Protobuf h body) \<longleftrightarrow> proto_hdr_fits h \<and> ph_is_protobuf h"

text \<open>Reading is also undone by writing, given the flag bit that selected the header.\<close>

lemma msg_hdr_parse_inverse:
  "msg_hdr_parse b = Inr (h, r) \<Longrightarrow> (from_le (take 4 b) :: u32) AND PROTO_MASK = 0 \<Longrightarrow>
     msg_hdr_fits h \<and> b = msg_hdr_write h @ r \<and> mh_emsg h = EMsg (from_le (take 4 b) AND EMSG_MASK)"
  by (auto simp: msg_hdr_parse_def msg_hdr_write_def msg_hdr_fits_def emsg_plain_def from_le_to_le
      emsg_mask_plain elim!: and_thenE dest!: reads_inverse)

lemma extended_hdr_parse_inverse:
  "extended_hdr_parse b = Inr (h, r) \<Longrightarrow> (from_le (take 4 b) :: u32) AND PROTO_MASK = 0 \<Longrightarrow>
     extended_hdr_fits h \<and> b = extended_hdr_write h @ r
     \<and> eh_emsg h = EMsg (from_le (take 4 b) AND EMSG_MASK)"
  by (auto simp: extended_hdr_parse_def extended_hdr_write_def extended_hdr_fits_def emsg_plain_def
      from_le_to_le emsg_mask_plain elim!: and_thenE dest!: reads_inverse)

lemma proto_hdr_parse_inverse:
  "proto_hdr_parse b = Inr (h, r) \<Longrightarrow> (from_le (take 4 b) :: u32) AND PROTO_MASK \<noteq> 0 \<Longrightarrow>
     proto_hdr_fits h \<and> ph_is_protobuf h \<and> b = proto_hdr_write h (ph_header_data h) @ r"
  by (auto simp: proto_hdr_parse_def proto_hdr_write_def proto_hdr_fits_def emsg_plain_def Let_def
      from_le_to_le emsg_mask_split emsg_mask_and_proto min_def not_less
      elim!: and_thenE dest!: reads_inverse split: if_splits)

lemma take_4_writes:
  "take 4 (msg_hdr_write h) = to_le 4 (emsg_0 (mh_emsg h))"
  "take 4 (extended_hdr_write g) = to_le 4 (emsg_0 (eh_emsg g))"
  "ph_is_protobuf p \<Longrightarrow>
     take 4 (proto_hdr_write p d) = to_le 4 (emsg_0 (ph_emsg p) OR PROTO_MASK)"
  by (simp_all add: msg_hdr_write_def extended_hdr_write_def proto_hdr_write_def Let_def)

lemma parse_packet_header_write: "packet_fits p \<Longrightarrow> parse_packet_header (packet_write p) = Inr p"
proof (cases p)
  case (Simple h body)
  moreover assume "packet_fits p"
  ultimately show ?thesis
    by (simp add: parse_packet_header_def MSG_HDR_SIZE_def take_4_writes from_le_to_le Let_def
        msg_hdr_parse_write msg_hdr_fits_def emsg_plain_mask) (simp add: emsg_plain_def)
next
  case (Extended h body)
  moreover assume "packet_fits p"
  ultimately show ?thesis
    by (simp add: parse_packet_header_def EXTENDED_HDR_SIZE_def take_4_writes from_le_to_le Let_def
        extended_hdr_parse_write extended_hdr_fits_def emsg_plain_mask) (simp add: emsg_plain_def)
next
  case (Protobuf h body)
  moreover have "4 \<le> length (proto_hdr_write h (ph_header_data h))"
    by (simp add: proto_hdr_write_def Let_def)
  moreover assume "packet_fits p"
  ultimately show ?thesis
    by (simp add: parse_packet_header_def take_4_writes from_le_to_le Let_def
        proto_hdr_parse_write emsg_mask_recover)
qed

lemma parse_packet_header_inverse:
  assumes "parse_packet_header data = Inr p"
  shows "packet_fits p \<and> packet_write p = data"
proof (cases "(from_le (take 4 data) :: u32) AND PROTO_MASK = 0")
  case True
  with assms show ?thesis
    by (auto simp: parse_packet_header_def Let_def split: if_splits elim!: and_thenE
        dest!: msg_hdr_parse_inverse extended_hdr_parse_inverse)
next
  case False
  with assms show ?thesis
    by (auto simp: parse_packet_header_def Let_def split: if_splits elim!: and_thenE
        dest!: proto_hdr_parse_inverse)
qed

lemma parse_packet_header_error: "parse_packet_header data = Inl e \<Longrightarrow> e = PUnexpectedEof"
  by (auto simp: parse_packet_header_def msg_hdr_parse_def extended_hdr_parse_def proto_hdr_parse_def
      Let_def and_then_eq_Inl split: if_splits)

section \<open>Properties\<close>

text \<open>
  C34: \<^verbatim>\<open>parse_packet_header\<close> is exactly the inverse of the header writers: it accepts a
  slice as a given packet if and only if the slice is that packet written out, with the
  header kind the flag bit and the channel messages select. No slice has two readings and
  no byte is dropped.
\<close>

theorem parse_packet_header_iff:
  "parse_packet_header data = Inr p \<longleftrightarrow> packet_fits p \<and> packet_write p = data"
  using parse_packet_header_write parse_packet_header_inverse by blast

end
