(* ===== verification/Framing.thy ===== *)
theory Framing
  imports Errors
begin

text \<open>
  VT01 framing: the sans-IO frame parser and the frame writer of
  \<^verbatim>\<open>crates/steam/src/connection/framing.rs\<close>, and the send and receive of
  \<^verbatim>\<open>transport/tcp.rs\<close>, which read the same frames off a socket.

  The combinators of the parser are those of \<^verbatim>\<open>winnow\<close> on a \<^verbatim>\<open>Partial\<close> input, by
  their documented behaviour: \<^verbatim>\<open>le_u32\<close> and \<^verbatim>\<open>take\<close> answer \<^verbatim>\<open>Incomplete\<close> when
  the buffer is too short, \<^verbatim>\<open>verify\<close> fails on a value that does not satisfy its
  predicate.
\<close>

section \<open>The frame parser\<close>

definition MAGIC :: u32 where
  "MAGIC = from_le [0x56, 0x54, 0x30, 0x31]"

record frame =
  frame_payload :: bytes

datatype 'a partial_result = Incomplete | Failed | Parsed 'a bytes

definition parse_frame :: "bytes \<Rightarrow> frame partial_result" where
  "parse_frame input =
     (case read_u32 input of None \<Rightarrow> Incomplete
      | Some (len, input1) \<Rightarrow>
     (case read_u32 input1 of None \<Rightarrow> Incomplete
      | Some (m, input2) \<Rightarrow>
     (if m \<noteq> MAGIC then Failed
      else
     (case read_exact (unat len) input2 of None \<Rightarrow> Incomplete
      | Some (payload, rest) \<Rightarrow> Parsed \<lparr>frame_payload = payload\<rparr> rest))))"

section \<open>The frame writer\<close>

text \<open>The length field is \<^verbatim>\<open>payload.len() as u32\<close>, the length modulo \<open>2 ^ 32\<close>.\<close>

definition write_frame :: "bytes \<Rightarrow> bytes \<Rightarrow> bytes" where
  "write_frame w payload = w @ to_le 4 (of_nat (length payload) :: u32) @ to_le 4 MAGIC @ payload"

definition frame_bytes :: "bytes \<Rightarrow> bytes" where
  "frame_bytes payload = write_frame [] payload"

section \<open>The TCP transport\<close>

text \<open>
  A TCP connection as the transport sees it: the bytes that will still arrive before the
  peer closes, and the bytes sent so far. A \<^verbatim>\<open>read_exact\<close> that meets the end of the
  stream is the I/O error \<^const>\<open>UnexpectedEof\<close>; what it had read is gone.
\<close>

record tcp_stream =
  tcp_incoming :: bytes
  tcp_outgoing :: bytes

definition tcp_send :: "bytes \<Rightarrow> tcp_stream \<Rightarrow> unit steam_result \<times> tcp_stream" where
  "tcp_send payload s = (Inr (), s\<lparr>tcp_outgoing := tcp_outgoing s @ frame_bytes payload\<rparr>)"

definition tcp_read_exact :: "nat \<Rightarrow> tcp_stream \<Rightarrow> bytes steam_result \<times> tcp_stream" where
  "tcp_read_exact n s =
     (case read_exact n (tcp_incoming s) of
        None \<Rightarrow> (Inl (Io UnexpectedEof), s\<lparr>tcp_incoming := []\<rparr>)
      | Some (b, rest) \<Rightarrow> (Inr b, s\<lparr>tcp_incoming := rest\<rparr>))"

definition tcp_recv :: "tcp_stream \<Rightarrow> bytes steam_result \<times> tcp_stream" where
  "tcp_recv s =
     (case tcp_read_exact 8 s of
        (Inl e, s1) \<Rightarrow> (Inl e, s1)
      | (Inr header, s1) \<Rightarrow>
          let len = from_le (take 4 header) :: u32;
              magic = from_le (drop 4 header) :: u32
          in if magic \<noteq> MAGIC then (Inl (Connection (BadMagic MAGIC magic)), s1)
             else tcp_read_exact (unat len) s1)"

section \<open>Lemmas\<close>

lemma MAGIC_value: "MAGIC = 0x31305456"
  by (simp add: MAGIC_def)

text \<open>A frame can carry a payload of fewer than \<open>2 ^ 32\<close> bytes.\<close>

definition payload_fits :: "bytes \<Rightarrow> bool" where
  "payload_fits p \<longleftrightarrow> length p < 2 ^ 32"

definition parsed_frame :: "frame partial_result \<Rightarrow> (bytes \<times> bytes) option" where
  "parsed_frame p = (case p of Parsed f r \<Rightarrow> Some (frame_payload f, r) | _ \<Rightarrow> None)"

lemma frame_bytes_eq:
  "frame_bytes p = to_le 4 (of_nat (length p) :: u32) @ to_le 4 MAGIC @ p"
  by (simp add: frame_bytes_def write_frame_def)

lemma length_frame_bytes [simp]: "length (frame_bytes p) = 8 + length p"
  by (simp add: frame_bytes_eq)

lemma parse_frame_bytes:
  "payload_fits p \<Longrightarrow> parse_frame (frame_bytes p @ r) = Parsed \<lparr>frame_payload = p\<rparr> r"
  by (simp add: parse_frame_def frame_bytes_eq payload_fits_def unat_of_nat)

lemma parse_frame_Parsed:
  "parse_frame b = Parsed f r \<longleftrightarrow> payload_fits (frame_payload f) \<and> b = frame_bytes (frame_payload f) @ r"
proof
  assume "parse_frame b = Parsed f r"
  then show "payload_fits (frame_payload f) \<and> b = frame_bytes (frame_payload f) @ r"
    by (auto simp: parse_frame_def frame_bytes_eq payload_fits_def read_exact_Some
        split: option.splits if_splits dest!: reads_inverse)
next
  assume "payload_fits (frame_payload f) \<and> b = frame_bytes (frame_payload f) @ r"
  then show "parse_frame b = Parsed f r" by (simp add: parse_frame_bytes)
qed

interpretation vt01: wire_codec frame_bytes "\<lambda>b. parsed_frame (parse_frame b)" payload_fits
proof unfold_locales
  show "payload_fits x \<Longrightarrow> parsed_frame (parse_frame (frame_bytes x @ r)) = Some (x, r)" for x r
    by (simp add: parse_frame_bytes parsed_frame_def)
  show "parsed_frame (parse_frame b) = Some (x, r) \<Longrightarrow>
      parsed_frame (parse_frame (b @ c)) = Some (x, r @ c)" for b x r c
    by (auto simp: parsed_frame_def parse_frame_Parsed parse_frame_bytes split: partial_result.split_asm)
  show "parsed_frame (parse_frame b) = Some (x, r) \<Longrightarrow> length r < length b" for b x r
    by (auto simp: parsed_frame_def parse_frame_Parsed split: partial_result.splits)
qed

text \<open>Sending and receiving whole sequences of payloads.\<close>

definition tcp_send_all :: "bytes list \<Rightarrow> tcp_stream \<Rightarrow> tcp_stream" where
  "tcp_send_all ps s = fold (\<lambda>p s. snd (tcp_send p s)) ps s"

primrec tcp_recv_n :: "nat \<Rightarrow> tcp_stream \<Rightarrow> bytes list steam_result \<times> tcp_stream" where
  "tcp_recv_n 0 s = (Inr [], s)"
| "tcp_recv_n (Suc n) s =
     (case tcp_recv s of (Inl e, s1) \<Rightarrow> (Inl e, s1)
      | (Inr p, s1) \<Rightarrow> (case tcp_recv_n n s1 of (Inl e, s2) \<Rightarrow> (Inl e, s2) | (Inr ps, s2) \<Rightarrow> (Inr (p # ps), s2)))"

lemma tcp_outgoing_tcp_send_all:
  "tcp_outgoing (tcp_send_all ps s) = tcp_outgoing s @ concat (map frame_bytes ps)"
  by (induction ps arbitrary: s) (simp_all add: tcp_send_all_def tcp_send_def)

lemma tcp_recv_Parsed:
  "parse_frame (tcp_incoming s) = Parsed f r \<Longrightarrow> tcp_recv s = (Inr (frame_payload f), s\<lparr>tcp_incoming := r\<rparr>)"
  by (auto simp: parse_frame_Parsed tcp_recv_def tcp_read_exact_def frame_bytes_eq from_le_to_le Let_def
      payload_fits_def unat_of_nat read_exact_def)

lemma tcp_recv_n_frames:
  "\<forall>p \<in> set ps. payload_fits p \<Longrightarrow> tcp_incoming s = concat (map frame_bytes ps) @ r \<Longrightarrow>
     tcp_recv_n (length ps) s = (Inr ps, s\<lparr>tcp_incoming := r\<rparr>)"
proof (induction ps arbitrary: s)
  case Nil
  then show ?case by simp
next
  case (Cons p ps)
  then have "parse_frame (tcp_incoming s) = Parsed \<lparr>frame_payload = p\<rparr> (concat (map frame_bytes ps) @ r)"
    by (simp add: parse_frame_bytes)
  from tcp_recv_Parsed [OF this] Cons show ?case by simp
qed

lemma two_words:
  assumes "8 \<le> length b"
  obtains l m r where "b = to_le 4 (l :: u32) @ to_le 4 (m :: u32) @ r"
proof -
  from assms obtain l b' where l: "read_u32 b = Some (l, b')"
    by (cases "read_u32 b") (auto simp: reads_None)
  with assms obtain m r where m: "read_u32 b' = Some (m, r)"
    by (cases "read_u32 b'") (auto simp: reads_None dest: reads_length)
  from that reads_inverse(3) [OF l] reads_inverse(3) [OF m] show thesis by blast
qed

lemma parse_frame_short: "length b < 8 \<Longrightarrow> parse_frame b = Incomplete"
  by (auto simp: parse_frame_def reads_None split: option.split dest!: reads_length)

lemma tcp_recv_cases:
  "case parse_frame (tcp_incoming s) of
     Parsed f rest \<Rightarrow> tcp_recv s = (Inr (frame_payload f), s\<lparr>tcp_incoming := rest\<rparr>)
   | Failed \<Rightarrow> (\<exists>m. m \<noteq> MAGIC \<and> fst (tcp_recv s) = Inl (Connection (BadMagic MAGIC m)))
   | Incomplete \<Rightarrow> tcp_recv s = (Inl (Io UnexpectedEof), s\<lparr>tcp_incoming := []\<rparr>)"
proof (cases "length (tcp_incoming s) < 8")
  case True
  then show ?thesis
    by (simp add: parse_frame_short tcp_recv_def tcp_read_exact_def read_exact_def)
next
  case False
  then obtain l m r where "tcp_incoming s = to_le 4 (l :: u32) @ to_le 4 (m :: u32) @ r"
    using two_words [of "tcp_incoming s"] by auto
  then show ?thesis
    by (auto simp: parse_frame_def tcp_recv_def tcp_read_exact_def read_exact_def from_le_to_le Let_def)
qed

section \<open>Properties\<close>

text \<open>
  C33: a frame cut anywhere before its end is reported as \<^verbatim>\<open>Incomplete\<close>, never as an
  error and never as a shorter frame, so a reader that buffers and retries loses nothing;
  the complete frame is parsed with the bytes behind it left in the buffer.
\<close>

theorem parse_frame_streaming:
  assumes "payload_fits p"
  shows "(if n < 8 + length p then parse_frame (take n (frame_bytes p)) = Incomplete
          else parse_frame (frame_bytes p @ rest) = Parsed \<lparr>frame_payload = p\<rparr> rest)"
proof (cases "n < 8 + length p")
  case True
  consider "n < 4" | "4 \<le> n" "n < 8" | "8 \<le> n" by linarith
  then have "parse_frame (take n (frame_bytes p)) = Incomplete"
  proof cases
    case 1
    then have "read_u32 (take n (frame_bytes p)) = None" by (simp add: reads_None)
    then show ?thesis by (simp add: parse_frame_def)
  next
    case 2
    then have "read_u32 (take (n - 4) (to_le 4 MAGIC @ p)) = None" by (simp add: reads_None)
    with 2 show ?thesis by (simp add: parse_frame_def frame_bytes_eq)
  next
    case 3
    with True have "read_exact (length p) (take (n - 8) p) = None" by (simp add: read_exact_None)
    with 3 assms show ?thesis
      by (simp add: parse_frame_def frame_bytes_eq payload_fits_def unat_of_nat)
  qed
  with True show ?thesis by simp
next
  case False
  with assms show ?thesis by (simp add: parse_frame_bytes)
qed

theorem parse_frame_streaming_witness:
  "parse_frame (take 9 (frame_bytes [1, 2, 3])) = Incomplete
   \<and> parse_frame (frame_bytes [1, 2, 3] @ [7]) = Parsed \<lparr>frame_payload = [1, 2, 3]\<rparr> [7]"
  using parse_frame_streaming [of "[1, 2, 3]" 9 "[7]"] parse_frame_streaming [of "[1, 2, 3]" 11 "[7]"]
  by (simp add: payload_fits_def)

text \<open>
  The TCP transport and the sans-IO parser accept the same streams: a complete frame
  is received with the following bytes left on the socket, a wrong magic is
  \<^verbatim>\<open>BadMagic\<close>, and a stream that ends inside a frame is an end-of-file error.
\<close>

theorem tcp_recv_parse_frame:
  "case parse_frame (tcp_incoming s) of
     Parsed f rest \<Rightarrow> tcp_recv s = (Inr (frame_payload f), s\<lparr>tcp_incoming := rest\<rparr>)
   | Failed \<Rightarrow> (\<exists>m. m \<noteq> MAGIC \<and> fst (tcp_recv s) = Inl (Connection (BadMagic MAGIC m)))
   | Incomplete \<Rightarrow> tcp_recv s = (Inl (Io UnexpectedEof), s\<lparr>tcp_incoming := []\<rparr>)"
  by (rule tcp_recv_cases)

text \<open>
  Payloads sent over one TCP connection are received by the peer as they were sent,
  in order, with their boundaries, and nothing is left over.
\<close>

theorem tcp_roundtrip:
  assumes "\<forall>p \<in> set ps. payload_fits p"
    and "tcp_outgoing a = []"
    and "tcp_incoming b = tcp_outgoing (tcp_send_all ps a)"
  shows "tcp_recv_n (length ps) b = (Inr ps, b\<lparr>tcp_incoming := []\<rparr>)"
  using assms by (intro tcp_recv_n_frames) (simp_all add: tcp_outgoing_tcp_send_all)

theorem tcp_roundtrip_witness:
  "tcp_recv_n (Suc (Suc 0))
       \<lparr>tcp_incoming = tcp_outgoing (tcp_send_all [[1], [2, 3]] \<lparr>tcp_incoming = [], tcp_outgoing = []\<rparr>), tcp_outgoing = []\<rparr>
     = (Inr [[1], [2, 3]], \<lparr>tcp_incoming = [], tcp_outgoing = []\<rparr>)"
  using tcp_roundtrip [of "[[1], [2, 3]]" "\<lparr>tcp_incoming = [], tcp_outgoing = []\<rparr>"
      "\<lparr>tcp_incoming = tcp_outgoing (tcp_send_all [[1], [2, 3]] \<lparr>tcp_incoming = [], tcp_outgoing = []\<rparr>), tcp_outgoing = []\<rparr>"]
  by (simp add: payload_fits_def del: tcp_recv_n.simps)

end
