(* ===== verification/Messages.thy ===== *)
theory Messages
  imports Headers Framing
begin

text \<open>
  Client messages: \<^verbatim>\<open>crates/steam/src/client/msg.rs\<close> (serialisation) and
  \<^verbatim>\<open>client/multi.rs\<close> (unpacking of bundled messages). The protobuf codec of
  \<^verbatim>\<open>prost\<close> and the gzip decoder of \<^verbatim>\<open>flate2\<close> are arguments of the definitions that
  use them.
\<close>

section \<open>The protobuf header\<close>

text \<open>
  The fields of \<^verbatim>\<open>CMsgProtoBufHeader\<close> the program reads or writes; it leaves every other
  field of a message it builds absent and looks at no other field of one it receives.
\<close>

record cmsg_header =
  ch_steamid :: "u64 option"
  ch_client_sessionid :: "i32 option"
  ch_jobid_source :: "u64 option"
  ch_jobid_target :: "u64 option"
  ch_target_job_name :: "string option"
  ch_eresult :: "i32 option"

definition default_header :: cmsg_header where
  "default_header =
     \<lparr>ch_steamid = None, ch_client_sessionid = None, ch_jobid_source = None,
      ch_jobid_target = None, ch_target_job_name = None, ch_eresult = None\<rparr>"

section \<open>ClientMsg\<close>

record client_msg =
  cm_emsg :: emsg
  cm_header :: cmsg_header
  cm_body :: bytes

definition client_msg_new :: "emsg \<Rightarrow> client_msg" where
  "client_msg_new emsg = \<lparr>cm_emsg = emsg, cm_header = default_header, cm_body = []\<rparr>"

definition client_msg_with_body :: "emsg \<Rightarrow> bytes \<Rightarrow> client_msg" where
  "client_msg_with_body emsg body = \<lparr>cm_emsg = emsg, cm_header = default_header, cm_body = body\<rparr>"

definition serialized_len :: "(cmsg_header \<Rightarrow> bytes) \<Rightarrow> client_msg \<Rightarrow> nat" where
  "serialized_len encode_header msg = 8 + length (encode_header (cm_header msg)) + length (cm_body msg)"

definition client_msg_write :: "(cmsg_header \<Rightarrow> bytes) \<Rightarrow> client_msg \<Rightarrow> bytes" where
  "client_msg_write encode_header msg =
     (let header_bytes = encode_header (cm_header msg)
      in to_le 4 (emsg_0 (cm_emsg msg) OR PROTO_MASK)
         @ to_le 4 (of_nat (length header_bytes) :: u32)
         @ header_bytes
         @ cm_body msg)"

section \<open>Multi\<close>

record cmsg_multi =
  mu_size_unzipped :: "u32 option"
  mu_message_body :: "bytes option"

function unpack_loop :: "bytes list \<Rightarrow> bytes \<Rightarrow> bytes list" where
  "unpack_loop messages cursor =
     (if 4 \<le> length cursor
      then let len = unat (from_le (take 4 cursor) :: u32);
               cursor = drop 4 cursor
           in if length cursor < len then messages
              else unpack_loop (messages @ [take len cursor]) (drop len cursor)
      else messages)"
  by pat_completeness auto
termination
  by (relation "measure (length \<circ> snd)") auto

declare unpack_loop.simps [simp del]

definition unpack_multi ::
  "(bytes \<Rightarrow> cmsg_multi option) \<Rightarrow> (bytes \<Rightarrow> io_error_kind + bytes) \<Rightarrow> bytes \<Rightarrow> bytes list steam_result" where
  "unpack_multi decode_multi gunzip body =
     and_then (ok_or (decode_multi body) ProtobufDecode) (\<lambda>multi.
     (case mu_message_body multi of
        None \<Rightarrow> Inr []
      | Some data \<Rightarrow>
          let size_unzipped = unat (unwrap_or (mu_size_unzipped multi) 0)
          in and_then (if 0 < size_unzipped then map_err Io (gunzip data) else Inr data) (\<lambda>payload.
             Inr (unpack_loop [] payload))))"

section \<open>Lemmas\<close>

text \<open>One length-prefixed message is a wire format.\<close>

definition packed :: "bytes \<Rightarrow> bytes" where
  "packed m = to_le 4 (of_nat (length m) :: u32) @ m"

definition read_packed :: "bytes \<Rightarrow> (bytes \<times> bytes) option" where
  "read_packed b =
     (case read_u32 b of None \<Rightarrow> None | Some (len, r) \<Rightarrow> read_exact (unat len) r)"

interpretation packed: wire_codec packed read_packed payload_fits
proof unfold_locales
  show "payload_fits x \<Longrightarrow> read_packed (packed x @ r) = Some (x, r)" for x r
    by (simp add: read_packed_def packed_def payload_fits_def unat_of_nat)
  show "read_packed b = Some (x, r) \<Longrightarrow> read_packed (b @ c) = Some (x, r @ c)" for b x r c
    by (auto simp: read_packed_def read_exact_Some reads_append split: option.splits)
  show "read_packed b = Some (x, r) \<Longrightarrow> length r < length b" for b x r
    by (auto simp: read_packed_def read_exact_Some split: option.splits dest!: reads_length)
qed

definition pack :: "bytes list \<Rightarrow> bytes" where
  "pack ms = concat (map packed ms)"

lemma read_packed_Some: "read_packed b = Some (m, r) \<Longrightarrow> payload_fits m \<and> b = packed m @ r"
  by (auto simp: read_packed_def packed_def payload_fits_def read_exact_Some
      split: option.splits dest!: reads_inverse)

lemma unpack_loop_step:
  "unpack_loop acc b = (case read_packed b of None \<Rightarrow> acc | Some (m, r) \<Rightarrow> unpack_loop (acc @ [m]) r)"
  by (subst unpack_loop.simps)
     (auto simp: read_packed_def read_u32_def read_le_def read_exact_def Let_def)

lemma unpack_loop_pack:
  "list_all payload_fits ms \<Longrightarrow> read_packed t = None \<Longrightarrow> unpack_loop acc (pack ms @ t) = acc @ ms"
proof (induction ms arbitrary: acc)
  case Nil
  then show ?case by (simp add: pack_def unpack_loop_step [of acc t])
next
  case (Cons m ms)
  then show ?case
    using packed.dec_enc [of m "pack ms @ t"]
    by (simp add: pack_def unpack_loop_step [of acc "packed m @ concat (map packed ms) @ t"])
qed

lemma unpack_loop_split:
  "\<exists>ms t. unpack_loop acc b = acc @ ms \<and> list_all payload_fits ms \<and> b = pack ms @ t \<and> read_packed t = None"
proof (induction acc b rule: unpack_loop.induct)
  case (1 acc b)
  show ?case
  proof (cases "read_packed b")
    case None
    then show ?thesis
      by (intro exI [of _ "[]"] exI [of _ b]) (simp add: unpack_loop_step [of acc b] pack_def)
  next
    case (Some p)
    obtain m r where p: "p = (m, r)" by (cases p)
    with Some have "4 \<le> length b" "\<not> length (drop 4 b) < unat (from_le (take 4 b) :: u32)"
      "m = take (unat (from_le (take 4 b) :: u32)) (drop 4 b)"
      "r = drop (unat (from_le (take 4 b) :: u32)) (drop 4 b)"
      by (auto simp: read_packed_def read_u32_def read_le_def read_exact_def split: if_splits)
    from "1.IH" [OF this(1) refl refl this(2)] this(3,4) obtain ms t where
      "unpack_loop (acc @ [m]) r = (acc @ [m]) @ ms" "list_all payload_fits ms"
      "r = pack ms @ t" "read_packed t = None" by auto
    with Some p read_packed_Some [of b m r] show ?thesis
      by (intro exI [of _ "m # ms"] exI [of _ t]) (simp add: unpack_loop_step [of acc "packed m @ concat (map packed ms) @ t"] pack_def)
  qed
qed

text \<open>A written message is a packet that the header parser reads back.\<close>

lemma client_msg_write_packet:
  "client_msg_write encode_header msg =
     proto_hdr_write \<lparr>ph_emsg = cm_emsg msg, ph_is_protobuf = True,
       ph_header_data = encode_header (cm_header msg)\<rparr> (encode_header (cm_header msg)) @ cm_body msg"
  by (simp add: client_msg_write_def proto_hdr_write_def Let_def)

lemma length_client_msg_write:
  "length (client_msg_write encode_header msg) = serialized_len encode_header msg"
  by (simp add: client_msg_write_def serialized_len_def Let_def)

lemma unpack_loop_exact:
  "unpack_loop [] payload = ms \<longleftrightarrow>
     list_all payload_fits ms \<and> (\<exists>t. payload = pack ms @ t \<and> read_packed t = None)"
  using unpack_loop_split [of "[]" payload] unpack_loop_pack [of ms _ "[]"] by auto

section \<open>Properties\<close>

text \<open>
  C35: unpacking a bundle succeeds exactly when the bundle decodes and, if it announces a
  size, its body decompresses, and it returns exactly the length-prefixed messages the
  payload is made of, in order; only an incomplete message at the very end is dropped. A
  bundle without a body holds no message.
\<close>

theorem unpack_multi_exact:
  "unpack_multi decode_multi gunzip body = Inr ms \<longleftrightarrow>
     (\<exists>multi. decode_multi body = Some multi \<and>
       (case mu_message_body multi of
          None \<Rightarrow> ms = []
        | Some data \<Rightarrow>
            \<exists>payload t. (if mu_size_unzipped multi \<in> {None, Some 0} then payload = data
                        else gunzip data = Inr payload)
              \<and> payload = pack ms @ t \<and> list_all payload_fits ms \<and> read_packed t = None))"
proof -
  have size: "0 < unat (unwrap_or z 0) \<longleftrightarrow> z \<notin> {None, Some 0}" for z :: "u32 option"
    by (cases z) (auto simp: unat_gt_0)
  show ?thesis
  proof (cases "decode_multi body")
    case None
    then show ?thesis by (simp add: unpack_multi_def)
  next
    case (Some multi)
    show ?thesis
    proof (cases "mu_message_body multi")
      case None
      with Some show ?thesis by (auto simp: unpack_multi_def)
    next
      case body: (Some data)
      show ?thesis
      proof (cases "mu_size_unzipped multi \<in> {None, Some 0}")
        case True
        with Some body show ?thesis
          unfolding unpack_multi_def Let_def size by (auto simp: unpack_loop_exact)
      next
        case False
        with Some body show ?thesis
          unfolding unpack_multi_def Let_def size by (auto simp: and_then_eq_Inr unpack_loop_exact)
      qed
    qed
  qed
qed

text \<open>
  C36: a client message is serialised to exactly the announced number of bytes, and the
  packet parser of the receiving side reads back its message type, header bytes and body,
  with the protobuf flag set, whenever the type leaves the flag bit free and the header has
  fewer than \<open>2 ^ 32\<close> bytes.
\<close>

theorem client_msg_roundtrip:
  assumes "emsg_plain (cm_emsg msg)" "length (encode_header (cm_header msg)) < 2 ^ 32"
  shows "length (client_msg_write encode_header msg) = serialized_len encode_header msg
    \<and> parse_packet_header (client_msg_write encode_header msg) =
      Inr (Protobuf \<lparr>ph_emsg = cm_emsg msg, ph_is_protobuf = True,
        ph_header_data = encode_header (cm_header msg)\<rparr> (cm_body msg))"
  unfolding length_client_msg_write unfolding client_msg_write_packet
  using assms parse_packet_header_write [of "Protobuf \<lparr>ph_emsg = cm_emsg msg, ph_is_protobuf = True,
      ph_header_data = encode_header (cm_header msg)\<rparr> (cm_body msg)"]
  by (simp add: proto_hdr_fits_def)

theorem client_msg_roundtrip_witness:
  "parse_packet_header (client_msg_write (\<lambda>_. [7, 8]) (client_msg_with_body EMSG_CLIENT_HELLO [1, 2, 3]))
    = Inr (Protobuf \<lparr>ph_emsg = EMSG_CLIENT_HELLO, ph_is_protobuf = True, ph_header_data = [7, 8]\<rparr> [1, 2, 3])"
  using client_msg_roundtrip [of "client_msg_with_body EMSG_CLIENT_HELLO [1, 2, 3]" "\<lambda>_. [7, 8]"]
  by (simp add: client_msg_with_body_def emsg_plain_def PROTO_MASK_def)

end
