(* ===== verification/Transport.thy ===== *)
theory Transport
  imports Messages
begin

text \<open>
  The transport abstraction of \<^verbatim>\<open>crates/steam/src/transport\<close>: the trait \<^verbatim>\<open>Transport\<close>
  as an interface, and its implementations over a TCP stream (\<^verbatim>\<open>tcp.rs\<close>), over a
  capture file (\<^verbatim>\<open>replay.rs\<close>) and wrapped around another transport
  (\<^verbatim>\<open>recording.rs\<close>, \<^verbatim>\<open>capture.rs\<close>). Base64 and JSON are arguments.
\<close>

section \<open>The trait\<close>

text \<open>The two methods; \<^verbatim>\<open>&self\<close> with interior mutability becomes an explicit state.\<close>

record 't transport_ops =
  t_send :: "bytes \<Rightarrow> 't \<Rightarrow> unit steam_result \<times> 't"
  t_recv :: "'t \<Rightarrow> bytes steam_result \<times> 't"

text \<open>
  What a client relies on: a transport delivers the packets it still has to deliver one by
  one and in order, fails when there is none left, and sending does not disturb them.
\<close>

locale transport =
  fixes T :: "'t transport_ops" and pending :: "'t \<Rightarrow> bytes list"
  assumes recv_next: "pending t = p # ps \<Longrightarrow> \<exists>t'. t_recv T t = (Inr p, t') \<and> pending t' = ps"
    and recv_end: "pending t = [] \<Longrightarrow> \<exists>e t'. t_recv T t = (Inl e, t')"
    and send_keeps: "pending (snd (t_send T payload t)) = pending t"
begin

lemma recv_Inr: "t_recv T t = (Inr p, t') \<Longrightarrow> pending t = p # pending t'"
proof (cases "pending t")
  case Nil
  moreover assume "t_recv T t = (Inr p, t')"
  ultimately show ?thesis using recv_end by fastforce
next
  case (Cons q qs)
  moreover assume "t_recv T t = (Inr p, t')"
  ultimately show ?thesis using recv_next [OF Cons] by auto
qed

lemma recv_Inl: "t_recv T t = (Inl e, t') \<Longrightarrow> pending t = []"
  using recv_next by (cases "pending t") fastforce+

end

text \<open>
  A transport that accepts every payload and keeps what it has put on the wire: \<open>sent\<close>
  grows by the \<open>wire\<close> form of each payload and is untouched by receiving.
\<close>

locale sending_transport = transport T pending
  for T :: "'t transport_ops" and pending :: "'t \<Rightarrow> bytes list" +
  fixes sent :: "'t \<Rightarrow> bytes" and wire :: "bytes \<Rightarrow> bytes"
  assumes send_ok: "\<exists>t'. t_send T payload t = (Inr (), t') \<and> sent t' = sent t @ wire payload"
    and recv_sent: "sent (snd (t_recv T t)) = sent t"

section \<open>TCP\<close>

definition tcp_ops :: "tcp_stream transport_ops" where
  "tcp_ops = \<lparr>t_send = tcp_send, t_recv = tcp_recv\<rparr>"

text \<open>The payloads of the complete frames a byte stream begins with.\<close>

function frames_of :: "bytes \<Rightarrow> bytes list" where
  "frames_of b =
     (case parse_frame b of Parsed f r \<Rightarrow> frame_payload f # frames_of r | _ \<Rightarrow> [])"
  by pat_completeness auto
termination
  by (relation "measure length") (auto simp: parse_frame_Parsed)

declare frames_of.simps [simp del]

interpretation tcp: transport tcp_ops "\<lambda>s. frames_of (tcp_incoming s)"
proof unfold_locales
  fix t :: tcp_stream and p ps
  assume "frames_of (tcp_incoming t) = p # ps"
  then show "\<exists>t'. t_recv tcp_ops t = (Inr p, t') \<and> frames_of (tcp_incoming t') = ps"
    by (auto simp: tcp_ops_def frames_of.simps [of "tcp_incoming t"] tcp_recv_Parsed
        split: partial_result.splits)
next
  fix t :: tcp_stream
  assume "frames_of (tcp_incoming t) = []"
  with tcp_recv_cases [of t] show "\<exists>e t'. t_recv tcp_ops t = (Inl e, t')"
    by (auto simp: tcp_ops_def frames_of.simps [of "tcp_incoming t"] prod_eq_iff
        split: partial_result.splits)
next
  show "frames_of (tcp_incoming (snd (t_send tcp_ops payload t))) = frames_of (tcp_incoming t)" for payload t
    by (simp add: tcp_ops_def tcp_send_def)
qed

interpretation tcp: sending_transport tcp_ops "\<lambda>s. frames_of (tcp_incoming s)" tcp_outgoing frame_bytes
proof unfold_locales
  show "\<exists>t'. t_send tcp_ops payload t = (Inr (), t') \<and> tcp_outgoing t' = tcp_outgoing t @ frame_bytes payload"
    for payload and t :: tcp_stream
    by (simp add: tcp_ops_def tcp_send_def)
  show "tcp_outgoing (snd (t_recv tcp_ops t)) = tcp_outgoing t" for t :: tcp_stream
    by (auto simp: tcp_ops_def tcp_recv_def tcp_read_exact_def Let_def split: option.splits)
qed

section \<open>Captures\<close>

record captured_packet =
  cp_seq :: u32
  cp_emsg :: "u32 option"
  cp_payload_b64 :: string

definition captured_packet_new :: "(bytes \<Rightarrow> string) \<Rightarrow> u32 \<Rightarrow> bytes \<Rightarrow> captured_packet" where
  "captured_packet_new base64_encode seq payload =
     \<lparr>cp_seq = seq,
      cp_emsg = (if 4 \<le> length payload then Some ((from_le (take 4 payload) :: u32) AND 0x7FFFFFFF) else None),
      cp_payload_b64 = base64_encode payload\<rparr>"

definition decode_payload_b64 :: "(string \<Rightarrow> bytes option) \<Rightarrow> captured_packet \<Rightarrow> bytes option" where
  "decode_payload_b64 base64_decode pkt = base64_decode (cp_payload_b64 pkt)"

record capture_file =
  cf_description :: string
  cf_packets :: "captured_packet list"

definition capture_new :: "string \<Rightarrow> capture_file" where
  "capture_new description = \<lparr>cf_description = description, cf_packets = []\<rparr>"

text \<open>Files by path; reading a missing one is an error.\<close>

type_synonym files = "string \<Rightarrow> string option"

definition capture_save ::
  "(capture_file \<Rightarrow> string option) \<Rightarrow> string \<Rightarrow> capture_file \<Rightarrow> files \<Rightarrow> (io_error_kind + unit) \<times> files" where
  "capture_save to_json path capture fs =
     (case to_json capture of
        None \<Rightarrow> (Inl OtherKind, fs)
      | Some json \<Rightarrow> (Inr (), fs(path \<mapsto> json)))"

definition capture_load ::
  "(string \<Rightarrow> capture_file option) \<Rightarrow> string \<Rightarrow> files \<Rightarrow> io_error_kind + capture_file" where
  "capture_load from_json path fs =
     and_then (ok_or (fs path) NotFound) (\<lambda>json. ok_or (from_json json) InvalidData)"

section \<open>Replay\<close>

record replay =
  rp_packets :: "bytes list"
  rp_cursor :: nat

primrec decode_all :: "(string \<Rightarrow> bytes option) \<Rightarrow> captured_packet list \<Rightarrow> bytes list option" where
  "decode_all base64_decode [] = Some []"
| "decode_all base64_decode (pkt # pkts) =
     Option.bind (decode_payload_b64 base64_decode pkt) (\<lambda>p.
       map_option (\<lambda>ps. p # ps) (decode_all base64_decode pkts))"

definition replay_from_capture :: "(string \<Rightarrow> bytes option) \<Rightarrow> capture_file \<Rightarrow> replay option" where
  "replay_from_capture base64_decode capture =
     map_option (\<lambda>ps. \<lparr>rp_packets = ps, rp_cursor = 0\<rparr>) (decode_all base64_decode (cf_packets capture))"

definition replay_from_file ::
  "(string \<Rightarrow> bytes option) \<Rightarrow> (string \<Rightarrow> capture_file option) \<Rightarrow> string \<Rightarrow> files \<Rightarrow> replay steam_result" where
  "replay_from_file base64_decode from_json path fs =
     and_then (map_err Io (capture_load from_json path fs)) (\<lambda>capture.
     ok_or (replay_from_capture base64_decode capture) (Io OtherKind))"

definition replay_send :: "bytes \<Rightarrow> replay \<Rightarrow> unit steam_result \<times> replay" where
  "replay_send payload t = (Inr (), t)"

definition replay_recv :: "replay \<Rightarrow> bytes steam_result \<times> replay" where
  "replay_recv t =
     (let idx = rp_cursor t; t' = t\<lparr>rp_cursor := idx + 1\<rparr>
      in if idx < length (rp_packets t) then (Inr (rp_packets t ! idx), t')
         else (Inl (Connection Disconnected), t'))"

definition replay_ops :: "replay transport_ops" where
  "replay_ops = \<lparr>t_send = replay_send, t_recv = replay_recv\<rparr>"

definition replay_pending :: "replay \<Rightarrow> bytes list" where
  "replay_pending t = drop (rp_cursor t) (rp_packets t)"

interpretation replay: transport replay_ops replay_pending
proof unfold_locales
  fix t :: replay and p ps
  assume "replay_pending t = p # ps"
  then have "rp_cursor t < length (rp_packets t)" "rp_packets t ! rp_cursor t = p"
    "drop (rp_cursor t + 1) (rp_packets t) = ps"
    by (auto simp: replay_pending_def drop_Suc drop_tl nth_via_drop)
       (metis drop_all leI list.distinct(1))
  then show "\<exists>t'. t_recv replay_ops t = (Inr p, t') \<and> replay_pending t' = ps"
    by (simp add: replay_ops_def replay_recv_def replay_pending_def)
next
  show "replay_pending t = [] \<Longrightarrow> \<exists>e t'. t_recv replay_ops t = (Inl e, t')" for t :: replay
    by (simp add: replay_ops_def replay_recv_def replay_pending_def)
next
  show "replay_pending (snd (t_send replay_ops payload t)) = replay_pending t" for payload t
    by (simp add: replay_ops_def replay_send_def)
qed

interpretation replay: sending_transport replay_ops replay_pending "\<lambda>_. []" "\<lambda>_. []"
  by unfold_locales (auto simp: replay_ops_def replay_send_def)

section \<open>Recording\<close>

record 't recording =
  rc_inner :: 't
  rc_capture :: capture_file
  rc_seq :: u32
  rc_output_path :: string

definition recording_new :: "'t \<Rightarrow> string \<Rightarrow> string \<Rightarrow> 't recording" where
  "recording_new inner output_path description =
     \<lparr>rc_inner = inner, rc_capture = capture_new description, rc_seq = 0, rc_output_path = output_path\<rparr>"

definition recording_send ::
  "'t transport_ops \<Rightarrow> bytes \<Rightarrow> 't recording \<Rightarrow> unit steam_result \<times> 't recording" where
  "recording_send T payload r =
     (case t_send T payload (rc_inner r) of (res, t') \<Rightarrow> (res, r\<lparr>rc_inner := t'\<rparr>))"

definition recording_recv ::
  "(bytes \<Rightarrow> string) \<Rightarrow> 't transport_ops \<Rightarrow> 't recording \<Rightarrow> bytes steam_result \<times> 't recording" where
  "recording_recv base64_encode T r =
     (case t_recv T (rc_inner r) of
        (Inl e, t') \<Rightarrow> (Inl e, r\<lparr>rc_inner := t'\<rparr>)
      | (Inr payload, t') \<Rightarrow>
          (Inr payload,
           r\<lparr>rc_inner := t', rc_seq := rc_seq r + 1,
             rc_capture := (rc_capture r)\<lparr>cf_packets := cf_packets (rc_capture r)
               @ [captured_packet_new base64_encode (rc_seq r) payload]\<rparr>\<rparr>))"

definition recording_ops :: "(bytes \<Rightarrow> string) \<Rightarrow> 't transport_ops \<Rightarrow> 't recording transport_ops" where
  "recording_ops base64_encode T = \<lparr>t_send = recording_send T, t_recv = recording_recv base64_encode T\<rparr>"

definition recording_flush ::
  "(capture_file \<Rightarrow> string option) \<Rightarrow> 't recording \<Rightarrow> files \<Rightarrow> (io_error_kind + unit) \<times> files" where
  "recording_flush to_json r fs = capture_save to_json (rc_output_path r) (rc_capture r) fs"

text \<open>\<^verbatim>\<open>Drop\<close>: a capture without packets is not written; an error is only logged.\<close>

definition recording_drop ::
  "(capture_file \<Rightarrow> string option) \<Rightarrow> 't recording \<Rightarrow> files \<Rightarrow> files" where
  "recording_drop to_json r fs =
     (if cf_packets (rc_capture r) = [] then fs
      else snd (capture_save to_json (rc_output_path r) (rc_capture r) fs))"

text \<open>Recording does not change what is delivered, whatever it wraps.\<close>

context transport
begin

lemma recorded_transport: "transport (recording_ops base64_encode T) (\<lambda>r. pending (rc_inner r))"
proof unfold_locales
  fix r :: "'t recording" and p ps
  assume "pending (rc_inner r) = p # ps"
  from recv_next [OF this] show
    "\<exists>t'. t_recv (recording_ops base64_encode T) r = (Inr p, t') \<and> pending (rc_inner t') = ps"
    by (auto simp: recording_ops_def recording_recv_def)
next
  fix r :: "'t recording"
  assume "pending (rc_inner r) = []"
  from recv_end [OF this] show "\<exists>e t'. t_recv (recording_ops base64_encode T) r = (Inl e, t')"
    by (auto simp: recording_ops_def recording_recv_def)
next
  show "pending (rc_inner (snd (t_send (recording_ops base64_encode T) payload r))) = pending (rc_inner r)"
    for payload r
    using send_keeps by (simp add: recording_ops_def recording_send_def split: prod.split)
      (metis snd_conv)
qed

end

interpretation recorded_tcp: transport "recording_ops base64_encode tcp_ops" "\<lambda>r. frames_of (tcp_incoming (rc_inner r))"
  by (rule tcp.recorded_transport)

interpretation recorded_replay: transport "recording_ops base64_encode replay_ops" "\<lambda>r. replay_pending (rc_inner r)"
  by (rule replay.recorded_transport)

section \<open>Lemmas\<close>

text \<open>Receiving \<open>n\<close> packets.\<close>

primrec recv_n :: "'t transport_ops \<Rightarrow> nat \<Rightarrow> 't \<Rightarrow> bytes list steam_result \<times> 't" where
  "recv_n T 0 t = (Inr [], t)"
| "recv_n T (Suc n) t =
     (case t_recv T t of
        (Inl e, t') \<Rightarrow> (Inl e, t')
      | (Inr p, t') \<Rightarrow> (case recv_n T n t' of (Inl e, t'') \<Rightarrow> (Inl e, t'') | (Inr ps, t'') \<Rightarrow> (Inr (p # ps), t'')))"

context transport
begin

lemma recv_n_pending:
  "n \<le> length (pending t) \<Longrightarrow>
     \<exists>t'. recv_n T n t = (Inr (take n (pending t)), t') \<and> pending t' = drop n (pending t)"
proof (induction n arbitrary: t)
  case (Suc n)
  then obtain p ps where p: "pending t = p # ps" by (cases "pending t") auto
  from recv_next [OF p] obtain t1 where t1: "t_recv T t = (Inr p, t1)" "pending t1 = ps" by blast
  with Suc.IH [of t1] Suc.prems p show ?case by auto
qed simp

end

text \<open>What is recorded: each packet received, base64-encoded, in order.\<close>

definition capture_of :: "(bytes \<Rightarrow> string) \<Rightarrow> bytes list \<Rightarrow> captured_packet list" where
  "capture_of base64_encode ps =
     map (\<lambda>(i, p). captured_packet_new base64_encode (of_nat i) p) (enumerate 0 ps)"

lemma capture_of_snoc:
  "capture_of base64_encode (ps @ [p]) =
     capture_of base64_encode ps @ [captured_packet_new base64_encode (of_nat (length ps)) p]"
  by (simp add: capture_of_def enumerate_append_eq)

lemma recv_n_recorded:
  "recv_n (recording_ops base64_encode T) n r = (Inr ps, r') \<Longrightarrow>
   cf_packets (rc_capture r) = capture_of base64_encode qs \<Longrightarrow> rc_seq r = of_nat (length qs) \<Longrightarrow>
     cf_packets (rc_capture r') = capture_of base64_encode (qs @ ps)
     \<and> recv_n T n (rc_inner r) = (Inr ps, rc_inner r')"
proof (induction n arbitrary: r qs ps)
  case (Suc n)
  from Suc.prems(1) obtain p t1 ps' where
    t1: "t_recv T (rc_inner r) = (Inr p, t1)" and ps: "ps = p # ps'"
    and rest: "recv_n (recording_ops base64_encode T) n
      (r\<lparr>rc_inner := t1, rc_seq := rc_seq r + 1, rc_capture := (rc_capture r)\<lparr>cf_packets :=
        cf_packets (rc_capture r) @ [captured_packet_new base64_encode (rc_seq r) p]\<rparr>\<rparr>) = (Inr ps', r')"
    by (auto simp: recording_ops_def recording_recv_def split: prod.splits sum.splits)
  from Suc.IH [OF rest, of "qs @ [p]"] Suc.prems(2,3) t1 ps show ?case
    by (simp add: capture_of_snoc algebra_simps)
qed simp

lemma decode_all_capture:
  assumes "\<And>p. base64_decode (base64_encode p) = Some p"
  shows "decode_all base64_decode (capture_of base64_encode ps) = Some ps"
proof -
  have "decode_all base64_decode (map (\<lambda>(i, p). captured_packet_new base64_encode (of_nat i) p) (enumerate k ps)) = Some ps"
    for k
    by (induction ps arbitrary: k) (simp_all add: decode_payload_b64_def captured_packet_new_def assms)
  then show ?thesis by (simp add: capture_of_def)
qed

lemma recv_n_length: "recv_n T n t = (Inr ps, t') \<Longrightarrow> length ps = n"
  by (induction n arbitrary: t ps) (auto split: prod.splits sum.splits)

section \<open>Properties\<close>

text \<open>
  C38: record and replay: what a recording transport delivered while wrapped around a TCP
  connection is, read back from its capture, delivered again by a replay transport, packet
  by packet and in the same order, and then the replay reports a disconnect.
\<close>

theorem record_replay:
  assumes "\<And>p. base64_decode (base64_encode p) = Some p"
    and "recv_n (recording_ops base64_encode tcp_ops) n (recording_new s path desc) = (Inr ps, r)"
  shows "\<exists>t t'. replay_from_capture base64_decode (rc_capture r) = Some t
    \<and> recv_n replay_ops n t = (Inr ps, t') \<and> fst (t_recv replay_ops t') = Inl (Connection Disconnected)
    \<and> recv_n tcp_ops n s = (Inr ps, rc_inner r)"
proof -
  have r: "cf_packets (rc_capture r) = capture_of base64_encode ps" "recv_n tcp_ops n s = (Inr ps, rc_inner r)"
    using recv_n_recorded [OF assms(2), of "[]"] by (simp_all add: recording_new_def capture_new_def capture_of_def)
  then have t: "replay_from_capture base64_decode (rc_capture r) = Some \<lparr>rp_packets = ps, rp_cursor = 0\<rparr>"
    by (simp add: replay_from_capture_def decode_all_capture [OF assms(1)])
  obtain t' where "recv_n replay_ops n \<lparr>rp_packets = ps, rp_cursor = 0\<rparr> = (Inr ps, t')" "replay_pending t' = []"
    using replay.recv_n_pending [of n "\<lparr>rp_packets = ps, rp_cursor = 0\<rparr>"]
      recv_n_length [OF assms(2)]
    by (auto simp: replay_pending_def)
  with t r(2) show ?thesis
    by (auto simp: replay_ops_def replay_recv_def replay_pending_def)
qed

theorem record_replay_witness:
  "\<exists>t t'. recv_n replay_ops (Suc 0) t = (Inr [[1, 2]], t')
    \<and> fst (t_recv replay_ops t') = Inl (Connection Disconnected)"
proof -
  let ?s = "\<lparr>tcp_incoming = frame_bytes [1, 2], tcp_outgoing = []\<rparr>"
  let ?ops = "recording_ops chars_of_bytes tcp_ops"
  have "tcp_recv ?s = (Inr [1, 2], \<lparr>tcp_incoming = [], tcp_outgoing = []\<rparr>)"
    using tcp_recv_Parsed [of ?s "\<lparr>frame_payload = [1, 2]\<rparr>" "[]"]
    by (simp add: parse_frame_Parsed payload_fits_def)
  then obtain r where r: "recv_n ?ops (Suc 0) (recording_new ?s ''c.json'' ''d'') = (Inr [[1, 2]], r)"
    by (simp add: recording_ops_def recording_recv_def recording_new_def tcp_ops_def)
  have "Some (as_bytes (chars_of_bytes p)) = Some p" for p by simp
  from record_replay [of "\<lambda>x. Some (as_bytes x)" chars_of_bytes, OF this r] show ?thesis by blast
qed

end
