(* ===== verification/Client.thy ===== *)
theory Client
  imports Transport Crypto Checksum
begin

text \<open>
  The Steam CM client, \<^verbatim>\<open>crates/steam/src/client/mod.rs\<close>: the state shared behind
  \<^verbatim>\<open>Arc<ClientInner>\<close>, the channel handshake, the receive loop with its message queue and
  job routing, the login and the service calls. One method call runs from its start to its
  end; the typestates of \<^verbatim>\<open>SteamClient\<close> are the order in which the methods are called.

  Arguments of the definitions: the transport, the cryptographic primitives, and a record
  of protobuf codecs, RSA, CRC and gzip. Random bytes are arguments of the operations that
  draw them.
\<close>

section \<open>State\<close>

definition PROTOCOL_VERSION :: u32 where
  "PROTOCOL_VERSION = 65581"

record incoming_msg =
  im_emsg :: emsg
  im_is_protobuf :: bool
  im_header :: cmsg_header
  im_body :: bytes

text \<open>
  A pending job is a \<^verbatim>\<open>oneshot::Sender\<close>: present in the map, with a receiver that may have
  been dropped. \<open>cl_routed\<close> is what the receivers of pending jobs have been sent,
  \<open>cl_events\<close> what has been sent on the event channel while its receiver was alive.
\<close>

record 't client =
  cl_transport :: 't
  cl_cipher :: "session_cipher option"
  cl_steam_id :: steam_id
  cl_session_id :: i32
  cl_next_job_id :: u64
  cl_pending_jobs :: "u64 \<Rightarrow> bool option"
  cl_routed :: "(u64 \<times> incoming_msg) list"
  cl_event_open :: bool
  cl_events :: "incoming_msg list"
  cl_msg_queue :: "incoming_msg list"

record client_codec =
  x_decode_header :: "bytes \<Rightarrow> cmsg_header option"
  x_encode_header :: "cmsg_header \<Rightarrow> bytes"
  x_decode_multi :: "bytes \<Rightarrow> cmsg_multi option"
  x_gunzip :: "bytes \<Rightarrow> io_error_kind + bytes"
  x_decode_logon :: "bytes \<Rightarrow> i32 option option"
  x_encode_hello :: "u32 \<Rightarrow> bytes"
  x_rsa :: "bytes \<Rightarrow> crypto_error + bytes"
  x_crc32 :: "bytes \<Rightarrow> u32"

text \<open>The steps of a client thread the state; a panic of \<^verbatim>\<open>expect\<close> is the result \<open>None\<close>.\<close>

type_synonym ('t, 'a) step = "'t client \<Rightarrow> 'a steam_result \<times> 't client"

definition connect :: "'t \<Rightarrow> 't client" where
  "connect t =
     \<lparr>cl_transport = t, cl_cipher = None, cl_steam_id = SteamId 0, cl_session_id = 0,
      cl_next_job_id = 1, cl_pending_jobs = (\<lambda>_. None), cl_routed = [], cl_event_open = True,
      cl_events = [], cl_msg_queue = []\<rparr>"

section \<open>Transport access\<close>

definition transport_send :: "'t transport_ops \<Rightarrow> bytes \<Rightarrow> ('t, unit) step" where
  "transport_send T payload s =
     (case t_send T payload (cl_transport s) of (res, t') \<Rightarrow> (res, s\<lparr>cl_transport := t'\<rparr>))"

definition transport_recv :: "'t transport_ops \<Rightarrow> ('t, bytes) step" where
  "transport_recv T s =
     (case t_recv T (cl_transport s) of (res, t') \<Rightarrow> (res, s\<lparr>cl_transport := t'\<rparr>))"

text \<open>
  \<^verbatim>\<open>send_encrypted\<close> expects a cipher: in the states \<^verbatim>\<open>Encrypted\<close> and \<^verbatim>\<open>LoggedIn\<close> it
  has been set, and \<open>None\<close> (a panic) does not occur.
\<close>

definition send_encrypted ::
  "'t transport_ops \<Rightarrow> crypto \<Rightarrow> bytes \<Rightarrow> bytes \<Rightarrow> 't client \<Rightarrow> (unit steam_result \<times> 't client) option" where
  "send_encrypted T C random payload s =
     (case cl_cipher s of
        None \<Rightarrow> None
      | Some cipher \<Rightarrow> Some (transport_send T (session_encrypt C cipher random payload) s))"

section \<open>Parsing\<close>

definition parse_incoming :: "client_codec \<Rightarrow> bytes \<Rightarrow> incoming_msg steam_result" where
  "parse_incoming X data =
     (if length data < 4 then Inl (Connection (PacketTooShort 4 (length data)))
      else
        let raw_emsg = from_le (take 4 data) :: u32;
            is_proto = (raw_emsg AND PROTO_MASK \<noteq> 0);
            emsg = EMsg (raw_emsg AND EMSG_MASK)
        in if is_proto
           then and_then (map_err (\<lambda>e. Connection (Parse e)) (proto_hdr_parse data)) (\<lambda>(hdr, reader).
                and_then (ok_or (x_decode_header X (ph_header_data hdr)) ProtobufDecode) (\<lambda>proto_header.
                Inr \<lparr>im_emsg = emsg, im_is_protobuf = True, im_header = proto_header, im_body = reader\<rparr>))
           else if length data < MSG_HDR_SIZE
           then Inl (Connection (PacketTooShort MSG_HDR_SIZE (length data)))
           else Inr \<lparr>im_emsg = emsg, im_is_protobuf = False, im_header = default_header,
                  im_body = drop MSG_HDR_SIZE data\<rparr>)"

definition read_u32_le :: "bytes \<Rightarrow> (u32 \<times> bytes) steam_result" where
  "read_u32_le reader =
     (if length reader < 4 then Inl (Connection (Parse PUnexpectedEof))
      else Inr (from_le (take 4 reader), drop 4 reader))"

definition build_encrypt_response :: "client_codec \<Rightarrow> msg_hdr \<Rightarrow> bytes \<Rightarrow> bytes" where
  "build_encrypt_response X hdr encrypted_key =
     msg_hdr_write hdr @ to_le 4 (1 :: u32) @ to_le 4 (128 :: u32) @ encrypted_key
     @ to_le 4 (x_crc32 X encrypted_key) @ to_le 4 (0 :: u32)"

section \<open>The receive loop\<close>

text \<open>
  A service response for a pending job other than \<open>except\<close> goes to the job's receiver;
  \<open>None\<close> when the message is not routed. \<^verbatim>\<open>recv_routed_msg\<close> excepts no job.
\<close>

definition route :: "u64 option \<Rightarrow> incoming_msg \<Rightarrow> 't client \<Rightarrow> 't client option" where
  "route except msg s =
     (if im_emsg msg = EMSG_SERVICE_METHOD_RESPONSE then
        (case ch_jobid_target (im_header msg) of
           None \<Rightarrow> None
         | Some job_id \<Rightarrow>
             if except = Some job_id then None
             else (case cl_pending_jobs s job_id of
                     None \<Rightarrow> None
                   | Some receiver_alive \<Rightarrow>
                       Some (s\<lparr>cl_pending_jobs := (cl_pending_jobs s)(job_id := None),
                               cl_routed := (if receiver_alive then cl_routed s @ [(job_id, msg)]
                                             else cl_routed s)\<rparr>)))
      else None)"

text \<open>The sub-messages of a bundle that parse; the others are logged and dropped.\<close>

definition parse_all :: "client_codec \<Rightarrow> bytes list \<Rightarrow> incoming_msg list" where
  "parse_all X subs = List.map_filter (\<lambda>sub. result_ok (parse_incoming X sub)) subs"

definition decrypt_payload :: "crypto \<Rightarrow> session_cipher option \<Rightarrow> bytes \<Rightarrow> bytes steam_result" where
  "decrypt_payload C cipher raw =
     (case cipher of
        Some c \<Rightarrow> map_err Crypto (session_decrypt C c raw)
      | None \<Rightarrow> Inr raw)"

text \<open>One pass of the loop: \<open>None\<close> is \<^verbatim>\<open>continue\<close>, otherwise the loop returns.\<close>

definition recv_step ::
  "'t transport_ops \<Rightarrow> crypto \<Rightarrow> client_codec \<Rightarrow> u64 option \<Rightarrow> 't client
    \<Rightarrow> incoming_msg steam_result option \<times> 't client" where
  "recv_step T C X except s =
     (case cl_msg_queue s of
        msg # queue \<Rightarrow>
          let s = s\<lparr>cl_msg_queue := queue\<rparr>
          in (case route except msg s of Some s' \<Rightarrow> (None, s') | None \<Rightarrow> (Some (Inr msg), s))
      | [] \<Rightarrow>
          (case transport_recv T s of
             (Inl e, s) \<Rightarrow> (Some (Inl e), s)
           | (Inr raw, s) \<Rightarrow>
               (case and_then (decrypt_payload C (cl_cipher s) raw) (parse_incoming X) of
                  Inl e \<Rightarrow> (Some (Inl e), s)
                | Inr incoming \<Rightarrow>
                    if im_emsg incoming = EMSG_MULTI then
                      (case unpack_multi (x_decode_multi X) (x_gunzip X) (im_body incoming) of
                         Inl e \<Rightarrow> (Some (Inl e), s)
                       | Inr subs \<Rightarrow> (None, s\<lparr>cl_msg_queue := cl_msg_queue s @ parse_all X subs\<rparr>))
                    else
                      (case route except incoming s of
                         Some s' \<Rightarrow> (None, s')
                       | None \<Rightarrow> (Some (Inr incoming), s)))))"

text \<open>The loop; a loop that never returns has the value \<open>None\<close>.\<close>

partial_function (option) recv_loop ::
  "'t transport_ops \<Rightarrow> crypto \<Rightarrow> client_codec \<Rightarrow> u64 option \<Rightarrow> 't client
    \<Rightarrow> (incoming_msg steam_result \<times> 't client) option" where
  "recv_loop T C X except s =
     (case recv_step T C X except s of
        (Some r, s') \<Rightarrow> Some (r, s')
      | (None, s') \<Rightarrow> recv_loop T C X except s')"

definition recv_routed_msg where
  "recv_routed_msg T C X s = recv_loop T C X None s"

definition recv_routed_msg_except where
  "recv_routed_msg_except T C X except_job_id s = recv_loop T C X (Some except_job_id) s"

text \<open>\<^verbatim>\<open>event_tx.send\<close>; a dropped receiver is logged.\<close>

definition emit :: "incoming_msg \<Rightarrow> 't client \<Rightarrow> 't client" where
  "emit msg s = (if cl_event_open s then s\<lparr>cl_events := cl_events s @ [msg]\<rparr> else s)"

section \<open>Connected: the channel handshake\<close>

definition client_send_msg ::
  "'t transport_ops \<Rightarrow> crypto \<Rightarrow> client_codec \<Rightarrow> bytes \<Rightarrow> client_msg \<Rightarrow> 't client
    \<Rightarrow> (unit steam_result \<times> 't client) option" where
  "client_send_msg T C X random msg s =
     send_encrypted T C random (client_msg_write (x_encode_header X) msg) s"

text \<open>
  \<^verbatim>\<open>encrypt\<close>: request, response with the encrypted session key, result, \<^verbatim>\<open>ClientHello\<close>.
\<close>

definition check_encrypt_request :: "bytes \<Rightarrow> bytes steam_result" where
  "check_encrypt_request packet =
     and_then (map_err (\<lambda>e. Connection (Parse e)) (msg_hdr_parse packet)) (\<lambda>(hdr, reader).
     if mh_emsg hdr \<noteq> EMSG_CHANNEL_ENCRYPT_REQUEST
     then Inl (Connection (UnexpectedEMsg EMSG_CHANNEL_ENCRYPT_REQUEST (mh_emsg hdr)))
     else if length reader < 8 then Inl (Connection (PacketTooShort (MSG_HDR_SIZE + 8) (length packet)))
     else and_then (read_u32_le reader) (\<lambda>(protocol_version, reader).
          and_then (read_u32_le reader) (\<lambda>(universe, reader). Inr reader)))"

definition check_encrypt_result :: "bytes \<Rightarrow> unit steam_result" where
  "check_encrypt_result packet =
     and_then (map_err (\<lambda>e. Connection (Parse e)) (msg_hdr_parse packet)) (\<lambda>(hdr, reader).
     if mh_emsg hdr \<noteq> EMSG_CHANNEL_ENCRYPT_RESULT
     then Inl (Connection (UnexpectedEMsg EMSG_CHANNEL_ENCRYPT_RESULT (mh_emsg hdr)))
     else and_then (read_u32_le reader) (\<lambda>(eresult, reader).
          map_err (\<lambda>e. Connection (EncryptionFailed e)) (from_i32 eresult)))"

definition encrypt_response_hdr :: msg_hdr where
  "encrypt_response_hdr =
     \<lparr>mh_emsg = EMSG_CHANNEL_ENCRYPT_RESPONSE, mh_target_job_id = - 1, mh_source_job_id = - 1\<rparr>"

definition encrypt ::
  "'t transport_ops \<Rightarrow> crypto \<Rightarrow> client_codec \<Rightarrow> bytes \<Rightarrow> bytes \<Rightarrow> 't client
    \<Rightarrow> (unit steam_result \<times> 't client) option" where
  "encrypt T C X session_key random s =
     (case transport_recv T s of
        (Inl e, s) \<Rightarrow> Some (Inl e, s)
      | (Inr packet, s) \<Rightarrow>
     (case check_encrypt_request packet of
        Inl e \<Rightarrow> Some (Inl e, s)
      | Inr challenge \<Rightarrow>
     (case map_err Crypto (x_rsa X (session_key @ challenge)) of
        Inl e \<Rightarrow> Some (Inl e, s)
      | Inr encrypted_key \<Rightarrow>
     (case transport_send T (build_encrypt_response X encrypt_response_hdr encrypted_key) s of
        (Inl e, s) \<Rightarrow> Some (Inl e, s)
      | (Inr _, s) \<Rightarrow>
     (case transport_recv T s of
        (Inl e, s) \<Rightarrow> Some (Inl e, s)
      | (Inr result_packet, s) \<Rightarrow>
     (case check_encrypt_result result_packet of
        Inl e \<Rightarrow> Some (Inl e, s)
      | Inr _ \<Rightarrow>
          let s = s\<lparr>cl_cipher := Some (session_cipher_new session_key)\<rparr>
          in client_send_msg T C X random
               (client_msg_with_body EMSG_CLIENT_HELLO (x_encode_hello X PROTOCOL_VERSION)) s))))))"

section \<open>Encrypted: login and calls\<close>

definition login_response ::
  "client_codec \<Rightarrow> incoming_msg \<Rightarrow> 't client \<Rightarrow> incoming_msg steam_result \<times> 't client" where
  "login_response X incoming s =
     (case x_decode_logon X (im_body incoming) of
        None \<Rightarrow> (Inl ProtobufDecode, s)
      | Some body_eresult \<Rightarrow>
          let eresult = (case body_eresult of Some e \<Rightarrow> Some e | None \<Rightarrow> ch_eresult (im_header incoming))
          in (case eresult of
                None \<Rightarrow> (Inl (Connection (LogonFailed EInvalid)), s)
              | Some v \<Rightarrow>
                  (case from_i32 v of
                     Inl e \<Rightarrow> (Inl (Connection (LogonFailed e)), s)
                   | Inr _ \<Rightarrow>
                       let s = (case ch_steamid (im_header incoming) of
                                  Some sid \<Rightarrow> s\<lparr>cl_steam_id := SteamId sid\<rparr> | None \<Rightarrow> s);
                           s = (case ch_client_sessionid (im_header incoming) of
                                  Some session_id \<Rightarrow> s\<lparr>cl_session_id := session_id\<rparr> | None \<Rightarrow> s)
                       in (Inr incoming, s))))"

partial_function (option) login_loop ::
  "'t transport_ops \<Rightarrow> crypto \<Rightarrow> client_codec \<Rightarrow> 't client \<Rightarrow> (incoming_msg steam_result \<times> 't client) option" where
  "login_loop T C X s =
     Option.bind (recv_routed_msg T C X s) (\<lambda>(r, s).
       case r of
         Inl e \<Rightarrow> Some (Inl e, s)
       | Inr incoming \<Rightarrow>
           if im_emsg incoming = EMSG_CLIENT_LOG_ON_RESPONSE then Some (login_response X incoming s)
           else login_loop T C X (emit incoming s))"

definition login ::
  "'t transport_ops \<Rightarrow> crypto \<Rightarrow> client_codec \<Rightarrow> bytes \<Rightarrow> client_msg \<Rightarrow> 't client
    \<Rightarrow> (incoming_msg steam_result \<times> 't client) option" where
  "login T C X random msg s =
     Option.bind (client_send_msg T C X random msg s) (\<lambda>(r, s).
       case r of Inl e \<Rightarrow> Some (Inl e, s) | Inr _ \<Rightarrow> login_loop T C X s)"

definition from_incoming :: "incoming_msg \<Rightarrow> bytes steam_result" where
  "from_incoming msg =
     and_then (case ch_eresult (im_header msg) of
                 Some eresult \<Rightarrow> map_err (\<lambda>e. Connection (ServiceMethodFailed e)) (from_i32 eresult)
               | None \<Rightarrow> Inr ())
       (\<lambda>_. Inr (im_body msg))"

definition is_response :: "u64 \<Rightarrow> incoming_msg \<Rightarrow> bool" where
  "is_response job_id msg \<longleftrightarrow>
     im_emsg msg = EMSG_SERVICE_METHOD_RESPONSE \<and> ch_jobid_target (im_header msg) = Some job_id"

text \<open>The loop of both service calls.\<close>

partial_function (option) response_loop ::
  "'t transport_ops \<Rightarrow> crypto \<Rightarrow> client_codec \<Rightarrow> u64 \<Rightarrow> 't client \<Rightarrow> (bytes steam_result \<times> 't client) option" where
  "response_loop T C X job_id s =
     Option.bind (recv_routed_msg_except T C X job_id s) (\<lambda>(r, s).
       case r of
         Inl e \<Rightarrow> Some (Inl e, s)
       | Inr incoming \<Rightarrow>
           if is_response job_id incoming then Some (from_incoming incoming, s)
           else response_loop T C X job_id (emit incoming s))"

text \<open>\<^verbatim>\<open>fetch_add(1)\<close> on the job counter returns the old value and wraps around.\<close>

definition service_call ::
  "'t transport_ops \<Rightarrow> crypto \<Rightarrow> client_codec \<Rightarrow> bytes \<Rightarrow> emsg \<Rightarrow> (u64 \<Rightarrow> cmsg_header) \<Rightarrow> bytes \<Rightarrow> 't client
    \<Rightarrow> (bytes steam_result \<times> 't client) option" where
  "service_call T C X random emsg header body s =
     (let job_id = cl_next_job_id s;
          s = s\<lparr>cl_next_job_id := job_id + 1\<rparr>;
          msg = \<lparr>cm_emsg = emsg, cm_header = header job_id, cm_body = body\<rparr>
      in Option.bind (client_send_msg T C X random msg s) (\<lambda>(r, s).
           case r of Inl e \<Rightarrow> Some (Inl e, s) | Inr _ \<Rightarrow> response_loop T C X job_id s))"

definition call_service_method_non_authed ::
  "'t transport_ops \<Rightarrow> crypto \<Rightarrow> client_codec \<Rightarrow> bytes \<Rightarrow> string \<Rightarrow> bytes \<Rightarrow> 't client
    \<Rightarrow> (bytes steam_result \<times> 't client) option" where
  "call_service_method_non_authed T C X random method_name body s =
     service_call T C X random EMSG_SERVICE_METHOD_CALL_FROM_CLIENT_NON_AUTHED
       (\<lambda>job_id. default_header\<lparr>ch_jobid_source := Some job_id, ch_target_job_name := Some method_name\<rparr>)
       body s"

section \<open>Logged in\<close>

definition logged_in_send_msg ::
  "'t transport_ops \<Rightarrow> crypto \<Rightarrow> client_codec \<Rightarrow> bytes \<Rightarrow> client_msg \<Rightarrow> 't client
    \<Rightarrow> (unit steam_result \<times> 't client) option" where
  "logged_in_send_msg T C X random msg s =
     (let header = (cm_header msg)\<lparr>ch_steamid := Some (steam_id_raw (cl_steam_id s)),
                                   ch_client_sessionid := Some (cl_session_id s)\<rparr>
      in client_send_msg T C X random (msg\<lparr>cm_header := header\<rparr>) s)"

definition call_service_method ::
  "'t transport_ops \<Rightarrow> crypto \<Rightarrow> client_codec \<Rightarrow> bytes \<Rightarrow> string \<Rightarrow> bytes \<Rightarrow> 't client
    \<Rightarrow> (bytes steam_result \<times> 't client) option" where
  "call_service_method T C X random method_name body s =
     service_call T C X random EMSG_SERVICE_METHOD_CALL_FROM_CLIENT
       (\<lambda>job_id. default_header\<lparr>ch_steamid := Some (steam_id_raw (cl_steam_id s)),
                               ch_client_sessionid := Some (cl_session_id s),
                               ch_jobid_source := Some job_id, ch_target_job_name := Some method_name\<rparr>)
       body s"

definition send_heartbeat ::
  "'t transport_ops \<Rightarrow> crypto \<Rightarrow> client_codec \<Rightarrow> bytes \<Rightarrow> 't client
    \<Rightarrow> (unit steam_result \<times> 't client) option" where
  "send_heartbeat T C X random s =
     client_send_msg T C X random (client_msg_new EMSG_CLIENT_HEART_BEAT) s"

end
