(* ===== verification/Steps.thy ===== *)
theory Steps
  imports Client
begin

text \<open>
  Running one operation after another: an operation gives its result, an error or a value,
  and the new state, or nothing when it panics or never returns. The \<^verbatim>\<open>?\<close> of the source
  passes an error on, converted to the error type of the caller.
\<close>

type_synonym ('e, 'a, 's) run = "(('e + 'a) \<times> 's) option"

definition then_do :: "('e, 'a, 's) run \<Rightarrow> ('a \<Rightarrow> 's \<Rightarrow> ('e, 'b, 's) run) \<Rightarrow> ('e, 'b, 's) run" where
  "then_do m f = Option.bind m (\<lambda>(r, s). case r of Inl e \<Rightarrow> Some (Inl e, s) | Inr x \<Rightarrow> f x s)"

definition with_err :: "('e \<Rightarrow> 'f) \<Rightarrow> ('e, 'a, 's) run \<Rightarrow> ('f, 'a, 's) run" where
  "with_err g m = map_option (\<lambda>(r, s). (map_err g r, s)) m"

text \<open>A result that does not touch the state.\<close>

definition give :: "('e + 'a) \<Rightarrow> 's \<Rightarrow> ('e, 'a, 's) run" where
  "give r s = Some (r, s)"

text \<open>Work on one part of the state.\<close>

definition beside :: "'c \<Rightarrow> ('e, 'a, 's) run \<Rightarrow> ('e, 'a, 's \<times> 'c) run" where
  "beside c m = map_option (\<lambda>(r, s). (r, s, c)) m"

lemma then_do_simps [simp]:
  "then_do None f = None" "then_do (Some (Inl e, s)) f = Some (Inl e, s)" "then_do (Some (Inr x, s)) f = f x s"
  by (simp_all add: then_do_def)

lemma with_err_simps [simp]: "with_err g None = None" "with_err g (Some (r, s)) = Some (map_err g r, s)"
  by (simp_all add: with_err_def)

lemma beside_simps [simp]: "beside c None = None" "beside c (Some (r, s)) = Some (r, s, c)"
  by (simp_all add: beside_def)

lemma then_do_give [simp]: "then_do (give (Inr x) s) f = f x s" "then_do (give (Inl e) s) f = give (Inl e) s"
  by (simp_all add: give_def)

lemma then_do_ok:
  "then_do m f = Some (Inr y, s') \<longleftrightarrow> (\<exists>x s. m = Some (Inr x, s) \<and> f x s = Some (Inr y, s'))"
proof (cases m)
  case (Some p)
  then show ?thesis by (cases p; cases "fst p") auto
qed simp

lemma with_err_ok: "with_err g m = Some (Inr y, s') \<longleftrightarrow> m = Some (Inr y, s')"
  by (auto simp: with_err_def map_err_eq_Inr)

lemma give_ok: "give r s = Some (Inr y, s') \<longleftrightarrow> r = Inr y \<and> s' = s"
  by (auto simp: give_def)

lemma beside_ok: "beside c m = Some (Inr y, s', c') \<longleftrightarrow> m = Some (Inr y, s') \<and> c' = c"
  by (auto simp: beside_def)

lemmas run_ok = then_do_ok with_err_ok give_ok beside_ok

text \<open>A run that returns, and leaves a state with the property given when it returns a value.\<close>

definition returns :: "('s \<Rightarrow> bool) \<Rightarrow> ('e, 'a, 's) run \<Rightarrow> bool" where
  "returns Q m \<longleftrightarrow> (case m of None \<Rightarrow> False | Some (Inl _, _) \<Rightarrow> True | Some (Inr _, s) \<Rightarrow> Q s)"

lemma returns_simps [simp]:
  "\<not> returns Q None" "returns Q (Some (Inl e, s))" "returns Q (Some (Inr x, s)) = Q s"
  "returns Q (give (Inr x) s) = Q s" "returns Q (with_err g m) = returns Q m"
  by (auto simp: returns_def give_def with_err_def split: option.splits sum.splits)

lemma returnsE:
  assumes "returns Q m"
  obtains (err) e s where "m = Some (Inl e, s)" | (ok) x s where "m = Some (Inr x, s)" "Q s"
proof (cases m)
  case None
  with assms show ?thesis by simp
next
  case (Some p)
  with assms err ok show ?thesis by (cases p; cases "fst p") auto
qed

lemma returns_give: "Q s \<Longrightarrow> returns Q (give r s)"
  by (cases r) (auto simp: give_def)

lemma returns_beside: "returns Q m \<Longrightarrow> returns (\<lambda>(s, d). Q s \<and> d = c) (beside c m)"
  by (auto simp: returns_def beside_def split: option.splits sum.splits)

lemma returns_then:
  "returns Q m \<Longrightarrow> (\<And>x s. m = Some (Inr x, s) \<Longrightarrow> Q s \<Longrightarrow> returns R (f x s)) \<Longrightarrow> returns R (then_do m f)"
  by (auto simp: returns_def [of Q] then_do_def split: option.splits sum.splits)

lemma returns_mono: "returns Q m \<Longrightarrow> (\<And>s. Q s \<Longrightarrow> R s) \<Longrightarrow> returns R m"
  by (auto simp: returns_def split: option.splits sum.splits)

lemma returns_Some: "returns Q m \<Longrightarrow> m \<noteq> None"
  by (cases m) (simp_all add: returns_def)

text \<open>A run that returns and leaves such a state in any case.\<close>

definition always :: "('s \<Rightarrow> bool) \<Rightarrow> ('r \<times> 's) option \<Rightarrow> bool" where
  "always Q m \<longleftrightarrow> (case m of None \<Rightarrow> False | Some (_, s) \<Rightarrow> Q s)"

lemma always_returns: "always Q m \<Longrightarrow> returns Q m"
  by (auto simp: always_def returns_def split: option.splits sum.splits)

lemma alwaysE:
  assumes "always Q m" obtains r s where "m = Some (r, s)" "Q s"
  using assms by (auto simp: always_def split: option.splits)

lemma always_map: "always Q m \<Longrightarrow> always Q (map_option (\<lambda>(r, s). (g r, s)) m)"
  by (auto simp: always_def split: option.splits)

end
