(* ===== verification/Client_Spec.thy ===== *)
theory Client_Spec
  imports Client
begin

text \<open>
  What the client of \<^verbatim>\<open>crates/steam/src/client/mod.rs\<close> promises. The abstract view of a
  client is its inbox: the messages (and errors) that will be delivered, in order, made of
  the queue and of the packets the transport still holds. The receive loop is a FIFO over
  the inbox, a service call and a login scan it for their answer. Everything is proved once
  for any transport that keeps the contract, and holds for TCP, replay and recording.
\<close>

section \<open>The answer to a login\<close>

lemma from_i32_ok: "from_i32 v = Inr u \<longleftrightarrow> v = 1"
  by (auto simp: from_i32_def split: option.splits)

lemma login_response_ok:
  assumes "login_response X m' s = (Inr m, s')"
  shows "m' = m \<and> (\<exists>v. x_decode_logon X (im_body m) = Some v
      \<and> (if v = None then ch_eresult (im_header m) else v) = Some 1)
    \<and> s' = s\<lparr>cl_steam_id := (case ch_steamid (im_header m) of None \<Rightarrow> cl_steam_id s | Some sid \<Rightarrow> SteamId sid),
            cl_session_id := (case ch_client_sessionid (im_header m) of None \<Rightarrow> cl_session_id s | Some i \<Rightarrow> i)\<rparr>"
  using assms by (auto simp: login_response_def Let_def from_i32_ok split: option.splits sum.splits)

section \<open>The inbox\<close>

definition packet_events ::
  "crypto \<Rightarrow> client_codec \<Rightarrow> session_cipher option \<Rightarrow> bytes \<Rightarrow> incoming_msg steam_result list" where
  "packet_events C X cipher raw =
     (case and_then (decrypt_payload C cipher raw) (parse_incoming X) of
        Inl e \<Rightarrow> [Inl e]
      | Inr m \<Rightarrow>
          if im_emsg m = EMSG_MULTI then
            (case unpack_multi (x_decode_multi X) (x_gunzip X) (im_body m) of
               Inl e \<Rightarrow> [Inl e]
             | Inr subs \<Rightarrow> map Inr (parse_all X subs))
          else [Inr m])"

definition inbox ::
  "('t \<Rightarrow> bytes list) \<Rightarrow> crypto \<Rightarrow> client_codec \<Rightarrow> 't client \<Rightarrow> incoming_msg steam_result list" where
  "inbox pending C X s =
     map Inr (cl_msg_queue s) @ concat (map (packet_events C X (cl_cipher s)) (pending (cl_transport s)))"

text \<open>No job waits in the routing table.\<close>

definition no_jobs :: "'t client \<Rightarrow> bool" where
  "no_jobs s \<longleftrightarrow> cl_pending_jobs s = (\<lambda>_. None)"

text \<open>Scanning an inbox for an answer: what is passed over, the answer or error, and the rest.\<close>

fun take_reply ::
  "(incoming_msg \<Rightarrow> bool) \<Rightarrow> incoming_msg steam_result list
    \<Rightarrow> incoming_msg list \<times> incoming_msg steam_result option \<times> incoming_msg steam_result list" where
  "take_reply P [] = ([], None, [])"
| "take_reply P (Inl e # xs) = ([], Some (Inl e), xs)"
| "take_reply P (Inr m # xs) =
     (if P m then ([], Some (Inr m), xs)
      else case take_reply P xs of (passed, reply, rest) \<Rightarrow> (m # passed, reply, rest))"

text \<open>
  The outcome of an operation that waits for an answer: an exhausted inbox is an error of
  the transport, an error in the inbox is returned, an answer is evaluated.
\<close>

definition outcome ::
  "(incoming_msg \<Rightarrow> 'a steam_result) \<Rightarrow> incoming_msg steam_result option \<Rightarrow> 'a steam_result \<Rightarrow> bool" where
  "outcome f reply r \<longleftrightarrow>
     (case reply of None \<Rightarrow> (\<exists>e. r = Inl e) | Some (Inl e) \<Rightarrow> r = Inl e | Some (Inr m) \<Rightarrow> r = f m)"

text \<open>What receiving leaves alone: everything but the transport and the queue.\<close>

definition received :: "'t client \<Rightarrow> 't client \<Rightarrow> bool" where
  "received s s' \<longleftrightarrow> s' = s\<lparr>cl_transport := cl_transport s', cl_msg_queue := cl_msg_queue s'\<rparr>"

lemma received_refl [simp]: "received s s"
  by (simp add: received_def)

lemma received_trans: "received s s' \<Longrightarrow> received s' s'' \<Longrightarrow> received s s''"
  by (cases s; cases s'; cases s'') (auto simp: received_def)

lemma receivedD:
  assumes "received s s'"
  shows "cl_cipher s' = cl_cipher s" "cl_steam_id s' = cl_steam_id s" "cl_session_id s' = cl_session_id s"
    "cl_next_job_id s' = cl_next_job_id s" "cl_pending_jobs s' = cl_pending_jobs s"
    "cl_routed s' = cl_routed s" "cl_event_open s' = cl_event_open s" "cl_events s' = cl_events s"
  by (subst assms [unfolded received_def], simp)+

lemma route_no_jobs: "no_jobs s \<Longrightarrow> route except msg s = None"
  by (simp add: route_def no_jobs_def split: option.split)

lemma recv_step_queue:
  "no_jobs s \<Longrightarrow> cl_msg_queue s = m # q \<Longrightarrow> recv_step T C X except s = (Some (Inr m), s\<lparr>cl_msg_queue := q\<rparr>)"
  by (simp add: recv_step_def Let_def route_no_jobs no_jobs_def)

text \<open>A packet off the transport: one event is returned at once, a bundle fills the queue.\<close>

lemma recv_step_packet:
  assumes "no_jobs s" "cl_msg_queue s = []" "t_recv T (cl_transport s) = (Inr raw, t')"
  shows "(\<exists>x. packet_events C X (cl_cipher s) raw = [x]
           \<and> recv_step T C X except s = (Some x, s\<lparr>cl_transport := t'\<rparr>))
    \<or> (\<exists>ms. packet_events C X (cl_cipher s) raw = map Inr ms
           \<and> recv_step T C X except s = (None, s\<lparr>cl_transport := t', cl_msg_queue := ms\<rparr>))"
  using assms route_no_jobs [of "s\<lparr>cl_transport := t'\<rparr>"]
  by (auto simp: recv_step_def packet_events_def transport_recv_def no_jobs_def split: sum.splits)

section \<open>The loops over any transport\<close>

context transport
begin

lemma recv_loop_fifo:
  assumes "no_jobs s" and keeps: "\<And>t. f (snd (t_recv T t)) = f t"
  shows "\<exists>r s'. recv_loop T C X except s = Some (r, s') \<and> received s s'
    \<and> f (cl_transport s') = f (cl_transport s)
    \<and> (case inbox pending C X s of [] \<Rightarrow> (\<exists>e. r = Inl e) | x # xs \<Rightarrow> r = x \<and> inbox pending C X s' = xs)"
  using assms(1)
proof (induction "length (pending (cl_transport s))" arbitrary: s rule: less_induct)
  case less
  show ?case
  proof (cases "cl_msg_queue s")
    case (Cons m q)
    from recv_step_queue [OF less.prems Cons] Cons show ?thesis
      by (subst recv_loop.simps) (simp add: inbox_def received_def)
  next
    case Nil
    show ?thesis
    proof (cases "pending (cl_transport s)")
      case pNil: Nil
      from recv_end [OF pNil] obtain e t' where "t_recv T (cl_transport s) = (Inl e, t')" by blast
      moreover from this keeps [of "cl_transport s"] have "f t' = f (cl_transport s)" by simp
      ultimately show ?thesis using Nil pNil
        by (subst recv_loop.simps) (simp add: recv_step_def transport_recv_def inbox_def received_def)
    next
      case (Cons raw ps)
      from recv_next [OF Cons] obtain t' where
        t': "t_recv T (cl_transport s) = (Inr raw, t')" "pending t' = ps" by blast
      with keeps [of "cl_transport s"] have f: "f t' = f (cl_transport s)" by simp
      from recv_step_packet [OF less.prems Nil t'(1), of C X except] consider
        (single) x where "packet_events C X (cl_cipher s) raw = [x]"
          "recv_step T C X except s = (Some x, s\<lparr>cl_transport := t'\<rparr>)"
        | (many) ms where "packet_events C X (cl_cipher s) raw = map Inr ms"
          "recv_step T C X except s = (None, s\<lparr>cl_transport := t', cl_msg_queue := ms\<rparr>)"
        by blast
      then show ?thesis
      proof cases
        case single
        with Nil Cons t'(2) f show ?thesis
          by (subst recv_loop.simps) (simp add: inbox_def received_def)
      next
        case many
        let ?s = "s\<lparr>cl_transport := t', cl_msg_queue := ms\<rparr>"
        have "inbox pending C X ?s = inbox pending C X s"
          using many(1) Nil Cons t'(2) by (simp add: inbox_def)
        moreover have "length (pending (cl_transport ?s)) < length (pending (cl_transport s))"
          using t'(2) Cons by simp
        from less.hyps [OF this] less.prems obtain r s' where
          "recv_loop T C X except ?s = Some (r, s')" "received ?s s'"
          "f (cl_transport s') = f t'"
          "case inbox pending C X ?s of [] \<Rightarrow> (\<exists>e. r = Inl e) | x # xs \<Rightarrow> r = x \<and> inbox pending C X s' = xs"
          by (auto simp: no_jobs_def)
        moreover have "received s ?s" by (simp add: received_def)
        ultimately show ?thesis
          using many(2) f by (subst recv_loop.simps) (auto intro: received_trans)
      qed
    qed
  qed
qed

text \<open>
  A loop that waits for an answer, passing every other message to the event channel (\<open>ev\<close>)
  or dropping it.
\<close>

lemma waiting_loop:
  assumes step: "\<And>s. loop s = Option.bind (recv_loop T C X except s) (\<lambda>(r, s).
      case r of Inl e \<Rightarrow> Some (Inl e, s) | Inr m \<Rightarrow> if P m then Some (answer m s) else loop (if ev then emit m s else s))"
    and "no_jobs s" and keeps: "\<And>t. f (snd (t_recv T t)) = f t"
  shows "\<exists>passed reply rest s'. take_reply P (inbox pending C X s) = (passed, reply, rest)
    \<and> received (s\<lparr>cl_events := cl_events s @ (if ev \<and> cl_event_open s then passed else [])\<rparr>) s'
    \<and> (reply \<noteq> None \<longrightarrow> inbox pending C X s' = rest)
    \<and> f (cl_transport s') = f (cl_transport s)
    \<and> (case reply of
         None \<Rightarrow> (\<exists>e. loop s = Some (Inl e, s'))
       | Some (Inl e) \<Rightarrow> loop s = Some (Inl e, s')
       | Some (Inr m) \<Rightarrow> loop s = Some (answer m s'))"
  using assms(2)
proof (induction "inbox pending C X s" arbitrary: s)
  case Nil
  from recv_loop_fifo [of s f C X except, OF Nil.prems keeps] Nil.hyps obtain e s' where
    "recv_loop T C X except s = Some (Inl e, s')" "received s s'" "f (cl_transport s') = f (cl_transport s)"
    by (auto simp flip: Nil.hyps)
  then show ?case
    by (subst step) (auto simp flip: Nil.hyps intro!: exI [of _ s'])
next
  case (Cons x xs)
  from recv_loop_fifo [of s f C X except, OF Cons.prems keeps] obtain s1 where
    s1: "recv_loop T C X except s = Some (x, s1)" "received s s1" "inbox pending C X s1 = xs"
    "f (cl_transport s1) = f (cl_transport s)"
    by (auto simp flip: Cons.hyps(2))
  have keep: "received (s\<lparr>cl_events := cl_events s @ (if ev \<and> cl_event_open s then [] else [])\<rparr>) s1"
    using s1(2) by simp
  show ?case
  proof (cases x)
    case (Inl e)
    with s1 keep show ?thesis
      by (subst step) (auto simp flip: Cons.hyps(2))
  next
    case (Inr m)
    show ?thesis
    proof (cases "P m")
      case True
      with Inr s1 keep show ?thesis
        by (subst step) (auto simp flip: Cons.hyps(2))
    next
      case False
      let ?s2 = "if ev then emit m s1 else s1"
      have inb: "inbox pending C X ?s2 = xs"
        using s1(3) by (simp add: emit_def inbox_def)
      have "no_jobs ?s2"
        using Cons.prems receivedD(5) [OF s1(2)] by (simp add: emit_def no_jobs_def)
      from Cons.hyps(1) [OF inb [symmetric] this] obtain passed reply rest s' where
        ih: "take_reply P xs = (passed, reply, rest)"
        "received (?s2\<lparr>cl_events := cl_events ?s2
            @ (if ev \<and> cl_event_open ?s2 then passed else [])\<rparr>) s'"
        "reply \<noteq> None \<longrightarrow> inbox pending C X s' = rest"
        "f (cl_transport s') = f (cl_transport ?s2)"
        "case reply of None \<Rightarrow> (\<exists>e. loop ?s2 = Some (Inl e, s'))
           | Some (Inl e) \<Rightarrow> loop ?s2 = Some (Inl e, s')
           | Some (Inr m') \<Rightarrow> loop ?s2 = Some (answer m' s')"
        unfolding inb by blast
      have "received (s\<lparr>cl_events := cl_events s @ (if ev \<and> cl_event_open s then m # passed else [])\<rparr>) s'"
        using ih(2) s1(2)
        by (cases s; cases s1; cases s') (auto simp: emit_def received_def split: if_splits)
      moreover have "loop s = loop ?s2"
        using s1(1) Inr False by (subst step) simp
      ultimately show ?thesis
        using ih(1,3,4,5) s1(4) Inr False by (auto simp: emit_def simp flip: Cons.hyps(2) split: option.splits sum.splits)
    qed
  qed
qed

end

section \<open>Calls over a transport that sends\<close>

text \<open>What an operation has put on the wire behind what was there.\<close>

context sending_transport
begin

lemma client_send_msg_ok:
  assumes "cl_cipher s = Some c"
  obtains t' where
    "client_send_msg T C X random msg s = Some (Inr (), s\<lparr>cl_transport := t'\<rparr>)"
    "pending t' = pending (cl_transport s)"
    "sent t' = sent (cl_transport s) @ wire (session_encrypt C c random (client_msg_write (x_encode_header X) msg))"
proof -
  let ?p = "session_encrypt C c random (client_msg_write (x_encode_header X) msg)"
  from send_ok [of ?p "cl_transport s"] obtain t' where
    t': "t_send T ?p (cl_transport s) = (Inr (), t')" "sent t' = sent (cl_transport s) @ wire ?p" by blast
  show thesis
    by (rule that [of t']) (use assms t' send_keeps [of ?p "cl_transport s"] in
      \<open>simp_all add: client_send_msg_def send_encrypted_def transport_send_def\<close>)
qed

lemma service_call_spec:
  assumes "no_jobs s" "cl_cipher s = Some c"
  shows "\<exists>passed reply rest s' r. service_call T C X random emsg header body s = Some (r, s')
    \<and> take_reply (is_response (cl_next_job_id s)) (inbox pending C X s) = (passed, reply, rest)
    \<and> outcome from_incoming reply r
    \<and> received (s\<lparr>cl_next_job_id := cl_next_job_id s + 1,
                  cl_events := cl_events s @ (if cl_event_open s then passed else [])\<rparr>) s'
    \<and> (reply \<noteq> None \<longrightarrow> inbox pending C X s' = rest)
    \<and> sent (cl_transport s') = sent (cl_transport s) @ wire (session_encrypt C c random
        (client_msg_write (x_encode_header X)
          \<lparr>cm_emsg = emsg, cm_header = header (cl_next_job_id s), cm_body = body\<rparr>))"
proof -
  let ?j = "cl_next_job_id s" and ?s = "s\<lparr>cl_next_job_id := cl_next_job_id s + 1\<rparr>"
  let ?msg = "\<lparr>cm_emsg = emsg, cm_header = header ?j, cm_body = body\<rparr>"
  from assms(2) obtain t' where t': "client_send_msg T C X random ?msg ?s = Some (Inr (), ?s\<lparr>cl_transport := t'\<rparr>)"
    "pending t' = pending (cl_transport s)"
    "sent t' = sent (cl_transport s) @ wire (session_encrypt C c random (client_msg_write (x_encode_header X) ?msg))"
    using client_send_msg_ok [of ?s c C X random ?msg] by auto
  have loop: "response_loop T C X ?j s = Option.bind (recv_loop T C X (Some ?j) s) (\<lambda>(r, s).
      case r of Inl e \<Rightarrow> Some (Inl e, s)
      | Inr m \<Rightarrow> if is_response ?j m then Some (from_incoming m, s) else response_loop T C X ?j (emit m s))"
    for s by (subst response_loop.simps) (simp add: recv_routed_msg_except_def)
  let ?s1 = "?s\<lparr>cl_transport := t'\<rparr>"
  have inb: "inbox pending C X ?s1 = inbox pending C X s" using t'(2) by (simp add: inbox_def)
  have "no_jobs ?s1" using assms(1) by (simp add: no_jobs_def)
  from waiting_loop [where loop = "response_loop T C X ?j" and C = C and X = X and except = "Some ?j"
      and P = "is_response ?j" and answer = "\<lambda>m s. (from_incoming m, s)" and ev = True and s = ?s1 and f = sent,
      unfolded if_True simp_thms, OF loop this recv_sent, unfolded inb]
  obtain passed reply rest s' where *:
    "take_reply (is_response ?j) (inbox pending C X s) = (passed, reply, rest)"
    "received (?s1\<lparr>cl_events := cl_events ?s1 @ (if cl_event_open ?s1 then passed else [])\<rparr>) s'"
    "reply \<noteq> None \<longrightarrow> inbox pending C X s' = rest" "sent (cl_transport s') = sent t'"
    and "case reply of None \<Rightarrow> (\<exists>e. response_loop T C X ?j ?s1 = Some (Inl e, s'))
       | Some (Inl e) \<Rightarrow> response_loop T C X ?j ?s1 = Some (Inl e, s')
       | Some (Inr m) \<Rightarrow> response_loop T C X ?j ?s1 = Some (from_incoming m, s')"
    by auto
  then obtain r where r: "response_loop T C X ?j ?s1 = Some (r, s')" "outcome from_incoming reply r"
    by (auto simp: outcome_def split: option.splits sum.splits)
  have "service_call T C X random emsg header body s = Some (r, s')"
    using t'(1) r(1) by (simp add: service_call_def Let_def)
  moreover have "received (s\<lparr>cl_next_job_id := ?j + 1,
      cl_events := cl_events s @ (if cl_event_open s then passed else [])\<rparr>) s'"
    using *(2) by (cases s; cases s') (auto simp: received_def)
  ultimately show ?thesis using * r(2) t'(3) by auto
qed

lemma login_spec:
  assumes "no_jobs s" "cl_cipher s = Some c"
  shows "\<exists>passed reply rest s'.
      take_reply (\<lambda>m. im_emsg m = EMSG_CLIENT_LOG_ON_RESPONSE) (inbox pending C X s) = (passed, reply, rest)
    \<and> received (s\<lparr>cl_events := cl_events s @ (if cl_event_open s then passed else [])\<rparr>) s'
    \<and> (reply \<noteq> None \<longrightarrow> inbox pending C X s' = rest)
    \<and> (case reply of
         None \<Rightarrow> (\<exists>e. login T C X random msg s = Some (Inl e, s'))
       | Some (Inl e) \<Rightarrow> login T C X random msg s = Some (Inl e, s')
       | Some (Inr m) \<Rightarrow> login T C X random msg s = Some (login_response X m s'))"
proof -
  from assms(2) obtain t' where t': "client_send_msg T C X random msg s = Some (Inr (), s\<lparr>cl_transport := t'\<rparr>)"
    "pending t' = pending (cl_transport s)"
    using client_send_msg_ok [of s c C X random msg] by auto
  have loop: "login_loop T C X s = Option.bind (recv_loop T C X None s) (\<lambda>(r, s).
      case r of Inl e \<Rightarrow> Some (Inl e, s)
      | Inr m \<Rightarrow> if im_emsg m = EMSG_CLIENT_LOG_ON_RESPONSE then Some (login_response X m s)
                else login_loop T C X (emit m s))"
    for s by (subst login_loop.simps) (simp add: recv_routed_msg_def)
  let ?s1 = "s\<lparr>cl_transport := t'\<rparr>"
  have inb: "inbox pending C X ?s1 = inbox pending C X s" using t'(2) by (simp add: inbox_def)
  have "no_jobs ?s1" using assms(1) by (simp add: no_jobs_def)
  from waiting_loop [where loop = "login_loop T C X" and C = C and X = X and except = None
      and P = "\<lambda>m. im_emsg m = EMSG_CLIENT_LOG_ON_RESPONSE" and answer = "login_response X" and ev = True
      and s = ?s1 and f = sent, unfolded if_True simp_thms, OF loop this recv_sent, unfolded inb]
  obtain passed reply rest s' where *:
    "take_reply (\<lambda>m. im_emsg m = EMSG_CLIENT_LOG_ON_RESPONSE) (inbox pending C X s) = (passed, reply, rest)"
    "received (?s1\<lparr>cl_events := cl_events ?s1 @ (if cl_event_open ?s1 then passed else [])\<rparr>) s'"
    "reply \<noteq> None \<longrightarrow> inbox pending C X s' = rest"
    "case reply of None \<Rightarrow> (\<exists>e. login_loop T C X ?s1 = Some (Inl e, s'))
       | Some (Inl e) \<Rightarrow> login_loop T C X ?s1 = Some (Inl e, s')
       | Some (Inr m) \<Rightarrow> login_loop T C X ?s1 = Some (login_response X m s')"
    by auto
  have "received (s\<lparr>cl_events := cl_events s @ (if cl_event_open s then passed else [])\<rparr>) s'"
    using *(2) by (cases s; cases s') (auto simp: received_def)
  moreover have login: "login T C X random msg s = login_loop T C X ?s1"
    using t'(1) by (simp add: login_def)
  ultimately show ?thesis unfolding login using *(1,3,4) by blast
qed

end

section \<open>The client over TCP\<close>

abbreviation tcp_inbox :: "crypto \<Rightarrow> client_codec \<Rightarrow> tcp_stream client \<Rightarrow> incoming_msg steam_result list" where
  "tcp_inbox C X s \<equiv> inbox (\<lambda>t. frames_of (tcp_incoming t)) C X s"

text \<open>A concrete codec: one-byte headers that name the target job, bodies that are a logon result.\<close>

definition sample_client_codec :: client_codec where
  "sample_client_codec =
     \<lparr>x_decode_header = (\<lambda>b. Some (default_header\<lparr>ch_jobid_target := (if b = [] then None else Some (ucast (hd b)))\<rparr>)),
      x_encode_header = (\<lambda>_. []), x_decode_multi = (\<lambda>_. None), x_gunzip = Inr,
      x_decode_logon = (\<lambda>b. Some (Some 1)), x_encode_hello = (\<lambda>_. []), x_rsa = Inr, x_crc32 = (\<lambda>_. 0)\<rparr>"

text \<open>A logged-in client with the given stream in front of it.\<close>

definition sample_client :: "bytes \<Rightarrow> tcp_stream client" where
  "sample_client b =
     (connect \<lparr>tcp_incoming = b, tcp_outgoing = []\<rparr>)\<lparr>cl_cipher := Some (session_cipher_new (replicate 32 0))\<rparr>"

section \<open>Reachable states\<close>

text \<open>
  Every operation of the client as a step, with success and failure, and the drop of the
  event receiver; the typestates admit fewer orders than this relation.
\<close>

inductive reachable :: "crypto \<Rightarrow> client_codec \<Rightarrow> tcp_stream client \<Rightarrow> bool" for C X where
  fresh: "reachable C X (connect t)"
| handshake: "reachable C X s \<Longrightarrow> encrypt tcp_ops C X key random s = Some (r, s') \<Longrightarrow> reachable C X s'"
| log_in: "reachable C X s \<Longrightarrow> login tcp_ops C X random msg s = Some (r', s') \<Longrightarrow> reachable C X s'"
| call: "reachable C X s \<Longrightarrow> call_service_method tcp_ops C X random name body s = Some (b, s') \<Longrightarrow> reachable C X s'"
| call_non_authed: "reachable C X s \<Longrightarrow>
    call_service_method_non_authed tcp_ops C X random name body s = Some (b, s') \<Longrightarrow> reachable C X s'"
| send: "reachable C X s \<Longrightarrow> client_send_msg tcp_ops C X random msg s = Some (r, s') \<Longrightarrow> reachable C X s'"
| send_logged_in: "reachable C X s \<Longrightarrow> logged_in_send_msg tcp_ops C X random msg s = Some (r, s') \<Longrightarrow> reachable C X s'"
| heartbeat: "reachable C X s \<Longrightarrow> send_heartbeat tcp_ops C X random s = Some (r, s') \<Longrightarrow> reachable C X s'"
| receive: "reachable C X s \<Longrightarrow> recv_routed_msg tcp_ops C X s = Some (r', s') \<Longrightarrow> reachable C X s'"
| events_dropped: "reachable C X s \<Longrightarrow> reachable C X (s\<lparr>cl_event_open := False\<rparr>)"

definition idle :: "'t client \<Rightarrow> bool" where
  "idle s \<longleftrightarrow> no_jobs s \<and> cl_routed s = []"

lemma idle_simps [simp]:
  "idle (connect t)" "idle (s\<lparr>cl_transport := t\<rparr>) = idle s" "idle (s\<lparr>cl_cipher := c\<rparr>) = idle s"
  "idle (s\<lparr>cl_event_open := b\<rparr>) = idle s" "idle (s\<lparr>cl_events := es\<rparr>) = idle s"
  "idle (s\<lparr>cl_next_job_id := n\<rparr>) = idle s" "idle (s\<lparr>cl_steam_id := i\<rparr>) = idle s"
  "idle (s\<lparr>cl_session_id := j\<rparr>) = idle s"
  by (simp_all add: idle_def no_jobs_def connect_def)

lemma idle_received: "received s s' \<Longrightarrow> idle s \<Longrightarrow> idle s'"
  by (simp add: idle_def no_jobs_def receivedD)

lemma idle_transport:
  "transport_send T p s = (r, s') \<Longrightarrow> idle s' = idle s" "transport_recv T s = (q, s') \<Longrightarrow> idle s' = idle s"
  by (auto simp: transport_send_def transport_recv_def split: prod.splits)

lemma idle_client_send: "client_send_msg T C X random msg s = Some (r, s') \<Longrightarrow> idle s \<Longrightarrow> idle s'"
  by (auto simp: client_send_msg_def send_encrypted_def idle_transport split: option.splits)

lemma client_send_cipher: "client_send_msg T C X random msg s \<noteq> None \<longleftrightarrow> cl_cipher s \<noteq> None"
  by (simp add: client_send_msg_def send_encrypted_def split: option.split)

lemma idle_encrypt: "encrypt T C X key random s = Some (r, s') \<Longrightarrow> idle s \<Longrightarrow> idle s'"
  by (auto simp: encrypt_def Let_def idle_transport split: prod.splits sum.splits
      dest!: idle_client_send)

lemma idle_service_call:
  assumes "service_call tcp_ops C X random e h body s = Some (r, s')" "idle s"
  shows "idle s'"
proof -
  from assms(1) obtain c where "cl_cipher s = Some c"
    by (cases "cl_cipher s") (auto simp: service_call_def Let_def client_send_msg_def send_encrypted_def)
  with tcp.service_call_spec [of s c C X random e h body] assms obtain passed where
    "received (s\<lparr>cl_next_job_id := cl_next_job_id s + 1,
       cl_events := cl_events s @ (if cl_event_open s then passed else [])\<rparr>) s'"
    by (fastforce simp: idle_def)
  from idle_received [OF this] assms(2) show ?thesis by simp
qed

lemma idle_login_response: "login_response X m s = (r, s') \<Longrightarrow> idle s' = idle s"
  by (auto simp: login_response_def Let_def split: option.splits sum.splits)

lemma idle_login:
  assumes "login tcp_ops C X random msg s = Some (r, s')" "idle s"
  shows "idle s'"
proof -
  from assms(1) obtain c where c: "cl_cipher s = Some c"
    by (cases "cl_cipher s") (auto simp: login_def client_send_msg_def send_encrypted_def)
  have "no_jobs s" using assms(2) by (simp add: idle_def)
  from tcp.login_spec [OF this c, of C X random msg] obtain passed reply s1 where
    s1: "received (s\<lparr>cl_events := cl_events s @ (if cl_event_open s then passed else [])\<rparr>) s1"
    and c: "case reply of None \<Rightarrow> (\<exists>e. login tcp_ops C X random msg s = Some (Inl e, s1))
       | Some (Inl e) \<Rightarrow> login tcp_ops C X random msg s = Some (Inl e, s1)
       | Some (Inr m) \<Rightarrow> login tcp_ops C X random msg s = Some (login_response X m s1)"
    by blast
  from idle_received [OF s1] assms(2) have "idle s1" by simp
  with c assms(1) show ?thesis
    by (auto split: option.splits sum.splits dest!: idle_login_response dest: sym)
qed

lemma idle_recv:
  assumes "recv_routed_msg tcp_ops C X s = Some (r, s')" "idle s"
  shows "idle s'"
  using tcp.recv_loop_fifo [of s "\<lambda>_. ()" C X None] assms idle_received [of s s']
  by (auto simp: recv_routed_msg_def idle_def)

lemma reachable_idle: "reachable C X s \<Longrightarrow> idle s"
  by (induction rule: reachable.induct)
     (auto simp: call_service_method_def call_service_method_non_authed_def logged_in_send_msg_def
       send_heartbeat_def Let_def
       intro: idle_encrypt idle_login idle_service_call idle_client_send idle_recv)

text \<open>Packets for concrete examples: a heartbeat in the clear, an answer to job 1, a logon response.\<close>

definition sample_heartbeat :: bytes where
  "sample_heartbeat = to_le 4 (703 :: u32) @ replicate 16 0 @ [5]"

definition sample_packet :: "emsg \<Rightarrow> bytes \<Rightarrow> bytes" where
  "sample_packet e body =
     frame_bytes (session_encrypt plain_crypto (session_cipher_new (replicate 32 0)) [1, 2, 3]
       (client_msg_write (\<lambda>_. [1]) \<lparr>cm_emsg = e, cm_header = default_header, cm_body = body\<rparr>))"

definition sample_incoming :: "emsg \<Rightarrow> bytes \<Rightarrow> incoming_msg" where
  "sample_incoming e body =
     \<lparr>im_emsg = e, im_is_protobuf = True, im_header = default_header\<lparr>ch_jobid_target := Some 1\<rparr>, im_body = body\<rparr>"

lemma sample_client_simps [simp]:
  "no_jobs (sample_client b)" "no_jobs (connect t)"
  "cl_cipher (sample_client b) = Some (session_cipher_new (replicate 32 0))"
  "cl_next_job_id (sample_client b) = 1"
  by (simp_all add: sample_client_def connect_def no_jobs_def)

section \<open>Properties\<close>

text \<open>
  C2: receiving is first-in first-out: a message received is the next one of the inbox,
  which is the queue followed by the packets on the connection, bundles unpacked in place;
  nothing is lost, reordered or delivered twice, and a bad packet is reported in its place.
  The call always returns, and it changes only the connection and the queue.
\<close>

theorem recv_routed_msg_fifo:
  assumes "no_jobs s"
  shows "\<exists>r s'. recv_routed_msg tcp_ops C X s = Some (r, s') \<and> received s s'
    \<and> (case tcp_inbox C X s of
         [] \<Rightarrow> (\<exists>e. r = Inl e)
       | x # xs \<Rightarrow> r = x \<and> tcp_inbox C X s' = xs)"
  using tcp.recv_loop_fifo [of s "\<lambda>_. ()" C X None] assms by (auto simp: recv_routed_msg_def)

theorem recv_routed_msg_fifo_witness:
  "\<exists>s'. recv_routed_msg tcp_ops plain_crypto sample_client_codec
      (connect \<lparr>tcp_incoming = frame_bytes sample_heartbeat, tcp_outgoing = []\<rparr>)
    = Some (Inr \<lparr>im_emsg = EMSG_CLIENT_HEART_BEAT, im_is_protobuf = False, im_header = default_header,
        im_body = [5]\<rparr>, s')"
proof -
  let ?s = "connect \<lparr>tcp_incoming = frame_bytes sample_heartbeat, tcp_outgoing = []\<rparr>"
  have "tcp_inbox plain_crypto sample_client_codec ?s
      = [Inr \<lparr>im_emsg = EMSG_CLIENT_HEART_BEAT, im_is_protobuf = False, im_header = default_header, im_body = [5]\<rparr>]"
    by code_simp
  with recv_routed_msg_fifo [of ?s plain_crypto sample_client_codec] show ?thesis by auto
qed

text \<open>
  C1: a service call sends exactly one message, encrypted under the session and carrying
  the steam id, the session id, a fresh job id and the method name; it returns the answer
  addressed to that job, passes every message before it to the event channel in order, and
  leaves every message behind it for the next call. It ends with an error when the inbox
  holds an error before the answer or no answer at all.
\<close>

theorem call_service_method_spec:
  assumes "no_jobs s" "cl_cipher s = Some c"
  shows "\<exists>passed reply rest s' r. call_service_method tcp_ops C X random name body s = Some (r, s')
    \<and> take_reply (is_response (cl_next_job_id s)) (tcp_inbox C X s) = (passed, reply, rest)
    \<and> outcome from_incoming reply r
    \<and> received (s\<lparr>cl_next_job_id := cl_next_job_id s + 1,
                  cl_events := cl_events s @ (if cl_event_open s then passed else [])\<rparr>) s'
    \<and> (reply \<noteq> None \<longrightarrow> tcp_inbox C X s' = rest)
    \<and> tcp_outgoing (cl_transport s') = tcp_outgoing (cl_transport s) @ frame_bytes (session_encrypt C c random
        (client_msg_write (x_encode_header X)
          \<lparr>cm_emsg = EMSG_SERVICE_METHOD_CALL_FROM_CLIENT,
           cm_header = \<lparr>ch_steamid = Some (steam_id_raw (cl_steam_id s)),
             ch_client_sessionid = Some (cl_session_id s), ch_jobid_source = Some (cl_next_job_id s),
             ch_jobid_target = None, ch_target_job_name = Some name, ch_eresult = None\<rparr>,
           cm_body = body\<rparr>))"
  using tcp.service_call_spec [OF assms, of C X random EMSG_SERVICE_METHOD_CALL_FROM_CLIENT
      "\<lambda>job_id. default_header\<lparr>ch_steamid := Some (steam_id_raw (cl_steam_id s)),
         ch_client_sessionid := Some (cl_session_id s), ch_jobid_source := Some job_id,
         ch_target_job_name := Some name\<rparr>" body]
  by (simp add: call_service_method_def default_header_def)

theorem call_service_method_spec_witness:
  "\<exists>s'. call_service_method tcp_ops plain_crypto sample_client_codec [7, 8, 9] ''M'' []
      (sample_client (sample_packet EMSG_CLIENT_ACCOUNT_INFO [3] @ sample_packet EMSG_SERVICE_METHOD_RESPONSE [42]))
    = Some (Inr [42], s') \<and> cl_events s' = [sample_incoming EMSG_CLIENT_ACCOUNT_INFO [3]]"
proof -
  let ?s = "sample_client (sample_packet EMSG_CLIENT_ACCOUNT_INFO [3] @ sample_packet EMSG_SERVICE_METHOD_RESPONSE [42])"
  have "tcp_inbox plain_crypto sample_client_codec ?s
      = [Inr (sample_incoming EMSG_CLIENT_ACCOUNT_INFO [3]), Inr (sample_incoming EMSG_SERVICE_METHOD_RESPONSE [42])]"
    by code_simp
  then have reply: "take_reply (is_response 1) (tcp_inbox plain_crypto sample_client_codec ?s)
      = ([sample_incoming EMSG_CLIENT_ACCOUNT_INFO [3]], Some (Inr (sample_incoming EMSG_SERVICE_METHOD_RESPONSE [42])), [])"
    by (simp add: is_response_def sample_incoming_def)
  have "cl_event_open ?s" "cl_events ?s = []" by (simp_all add: sample_client_def connect_def)
  with call_service_method_spec [of ?s _ plain_crypto sample_client_codec "[7, 8, 9]" "''M''" "[]"] reply
  show ?thesis
    by (auto simp: outcome_def from_incoming_def sample_incoming_def default_header_def dest!: receivedD(8))
qed

text \<open>
  C10: a login waits for the logon response, passing every other message to the event
  channel, and succeeds only on a response whose result, taken from its body or else from
  its header, is OK; then it takes over the steam id and the session id of the response's
  header, where present, and nothing else of the state changes.
\<close>

theorem login_success:
  assumes "no_jobs s" "cl_cipher s = Some c"
    and "login tcp_ops C X random msg s = Some (Inr m, s')"
  shows "\<exists>passed rest v. take_reply (\<lambda>m. im_emsg m = EMSG_CLIENT_LOG_ON_RESPONSE) (tcp_inbox C X s)
        = (passed, Some (Inr m), rest)
    \<and> x_decode_logon X (im_body m) = Some v \<and> (if v = None then ch_eresult (im_header m) else v) = Some 1
    \<and> cl_steam_id s' = (case ch_steamid (im_header m) of None \<Rightarrow> cl_steam_id s | Some sid \<Rightarrow> SteamId sid)
    \<and> cl_session_id s' = (case ch_client_sessionid (im_header m) of None \<Rightarrow> cl_session_id s | Some i \<Rightarrow> i)
    \<and> cl_events s' = cl_events s @ (if cl_event_open s then passed else [])
    \<and> tcp_inbox C X s' = rest"
proof -
  from tcp.login_spec [OF assms(1,2), of C X random msg] obtain passed reply rest s1 where
    r: "take_reply (\<lambda>m. im_emsg m = EMSG_CLIENT_LOG_ON_RESPONSE) (tcp_inbox C X s) = (passed, reply, rest)"
    and s1: "received (s\<lparr>cl_events := cl_events s @ (if cl_event_open s then passed else [])\<rparr>) s1"
    and inb: "reply \<noteq> None \<longrightarrow> tcp_inbox C X s1 = rest"
    and c: "case reply of None \<Rightarrow> (\<exists>e. login tcp_ops C X random msg s = Some (Inl e, s1))
       | Some (Inl e) \<Rightarrow> login tcp_ops C X random msg s = Some (Inl e, s1)
       | Some (Inr m) \<Rightarrow> login tcp_ops C X random msg s = Some (login_response X m s1)"
    by blast
  from c assms(3) obtain m' where m': "reply = Some (Inr m')" "login_response X m' s1 = (Inr m, s')"
    by (auto split: option.splits sum.splits)
  from login_response_ok [OF m'(2)] obtain v where v: "m' = m" "x_decode_logon X (im_body m) = Some v"
    "(if v = None then ch_eresult (im_header m) else v) = Some 1"
    and s': "s' = s1\<lparr>cl_steam_id := (case ch_steamid (im_header m) of None \<Rightarrow> cl_steam_id s1 | Some sid \<Rightarrow> SteamId sid),
      cl_session_id := (case ch_client_sessionid (im_header m) of None \<Rightarrow> cl_session_id s1 | Some i \<Rightarrow> i)\<rparr>"
    by blast
  have "tcp_inbox C X s' = rest" using inb m'(1) by (simp add: inbox_def s')
  moreover have "cl_steam_id s1 = cl_steam_id s" "cl_session_id s1 = cl_session_id s"
    "cl_events s1 = cl_events s @ (if cl_event_open s then passed else [])"
    using receivedD(2,3,8) [OF s1] by simp_all
  note s' [unfolded this] this
  ultimately show ?thesis
    using v r m'(1)
    by (intro exI [of _ passed] exI [of _ rest] exI [of _ v]) simp
qed

theorem login_success_witness:
  "\<exists>s' m. login tcp_ops plain_crypto sample_client_codec [7, 8, 9] (client_msg_new EMSG_CLIENT_LOGON)
      (sample_client (sample_packet EMSG_CLIENT_LOG_ON_RESPONSE [3])) = Some (Inr m, s')
    \<and> cl_steam_id s' = SteamId 0"
proof -
  let ?s = "sample_client (sample_packet EMSG_CLIENT_LOG_ON_RESPONSE [3])"
  let ?m = "sample_incoming EMSG_CLIENT_LOG_ON_RESPONSE [3]"
  have inb: "tcp_inbox plain_crypto sample_client_codec ?s = [Inr ?m]" by code_simp
  have m: "im_emsg ?m = EMSG_CLIENT_LOG_ON_RESPONSE" "ch_steamid (im_header ?m) = None"
    by (simp_all add: sample_incoming_def default_header_def)
  from tcp.login_spec [of ?s _ plain_crypto sample_client_codec "[7, 8, 9]" "client_msg_new EMSG_CLIENT_LOGON"] inb m
  obtain s1 where "login tcp_ops plain_crypto sample_client_codec [7, 8, 9] (client_msg_new EMSG_CLIENT_LOGON) ?s
      = Some (login_response sample_client_codec ?m s1)" by auto
  moreover obtain s' where "login_response sample_client_codec ?m s1 = (Inr ?m, s')"
    by (simp add: login_response_def sample_client_codec_def sample_incoming_def default_header_def from_i32_def)
  ultimately have l: "login tcp_ops plain_crypto sample_client_codec [7, 8, 9] (client_msg_new EMSG_CLIENT_LOGON) ?s
      = Some (Inr ?m, s')" by simp
  from login_success [OF _ _ l] m have "cl_steam_id s' = cl_steam_id ?s" by auto
  with l show ?thesis by (auto simp: sample_client_def connect_def)
qed



text \<open>
  The routing of responses to pending jobs never happens: in every state a client can
  reach from a fresh connection by handshakes, logins, calls, sends and receives, whether
  they succeed or fail, the table of pending jobs is empty and no job receiver has been sent
  anything.
\<close>

theorem no_pending_jobs:
  assumes "reachable C X s"
  shows "cl_pending_jobs s = (\<lambda>_. None) \<and> cl_routed s = []"
  using reachable_idle [OF assms] by (simp add: idle_def no_jobs_def)

theorem no_pending_jobs_witness:
  "cl_routed (sample_client []) = [] \<and> cl_pending_jobs (connect \<lparr>tcp_incoming = [], tcp_outgoing = []\<rparr>) 5 = None"
  using no_pending_jobs [OF reachable.fresh [of plain_crypto sample_client_codec "\<lparr>tcp_incoming = [], tcp_outgoing = []\<rparr>"]]
  by (simp add: sample_client_def)

text \<open>
  A packet without the protobuf flag is read by the client as a 20-byte header and a
  body, whatever its message type, while the packet parser of the same crate reads every
  such packet outside the channel handshake as a 36-byte extended header: the body the
  client delivers then begins with the last 16 bytes of that header.
\<close>

theorem parse_incoming_extended:
  assumes "parse_packet_header data = Inr (Extended h body)"
  shows "parse_incoming X data = Inr \<lparr>im_emsg = eh_emsg h, im_is_protobuf = False, im_header = default_header,
    im_body = drop MSG_HDR_SIZE (extended_hdr_write h) @ body\<rparr>
    \<and> length (drop MSG_HDR_SIZE (extended_hdr_write h)) = 16"
proof -
  from parse_packet_header_inverse [OF assms] have h: "extended_hdr_fits h" "data = extended_hdr_write h @ body"
    by auto
  have "take 4 data = to_le 4 (emsg_0 (eh_emsg h))" "20 \<le> length data"
    unfolding h(2) using length_extended_hdr_write [of h]
    by (simp_all add: take_4_writes EXTENDED_HDR_SIZE_def)
  moreover have "drop 20 data = drop 20 (extended_hdr_write h) @ body"
    unfolding h(2) using length_extended_hdr_write [of h] by (simp add: EXTENDED_HDR_SIZE_def)
  ultimately show ?thesis
    using h(1) length_extended_hdr_write [of h]
    by (simp add: parse_incoming_def MSG_HDR_SIZE_def EXTENDED_HDR_SIZE_def extended_hdr_fits_def
        emsg_plain_mask from_le_to_le Let_def) (simp add: emsg_plain_def)
qed

theorem parse_incoming_extended_witness:
  "parse_incoming sample_client_codec (extended_hdr_write
      \<lparr>eh_emsg = EMSG_CLIENT_LOGGED_OFF, eh_header_size = 36, eh_header_version = 2, eh_target_job_id = 0,
       eh_source_job_id = 0, eh_header_canary = 239, eh_steam_id = 0, eh_session_id = 7\<rparr> @ [1])
    = Inr \<lparr>im_emsg = EMSG_CLIENT_LOGGED_OFF, im_is_protobuf = False, im_header = default_header,
        im_body = [0, 0, 0, 239, 0, 0, 0, 0, 0, 0, 0, 0, 7, 0, 0, 0, 1]\<rparr>"
proof -
  let ?h = "\<lparr>eh_emsg = EMSG_CLIENT_LOGGED_OFF, eh_header_size = 36, eh_header_version = 2, eh_target_job_id = 0,
       eh_source_job_id = 0, eh_header_canary = 239, eh_steam_id = 0, eh_session_id = 7\<rparr>"
  have "parse_packet_header (extended_hdr_write ?h @ [1]) = Inr (Extended ?h [1])"
    by code_simp
  from parse_incoming_extended [OF this, of sample_client_codec]
  have "parse_incoming sample_client_codec (extended_hdr_write ?h @ [1]) = Inr \<lparr>im_emsg = eh_emsg ?h,
      im_is_protobuf = False, im_header = default_header, im_body = drop MSG_HDR_SIZE (extended_hdr_write ?h) @ [1]\<rparr>"
    by blast
  moreover have "drop MSG_HDR_SIZE (extended_hdr_write ?h) @ [1] = [0, 0, 0, 239, 0, 0, 0, 0, 0, 0, 0, 0, 7, 0, 0, 0, 1]"
    by code_simp
  ultimately show ?thesis by simp
qed

end
