(* ===== verification/Network.thy ===== *)
theory Network
  imports Transport
begin

text \<open>
  Servers and addresses: the CM servers and the directory (\<^verbatim>\<open>crates/steam/src/connection/mod.rs\<close>),
  opening the TCP transport (\<^verbatim>\<open>transport/tcp.rs\<close>), CDN servers, the CDN client and the local
  cache (\<^verbatim>\<open>cdn/\<close>), and the choice of servers (\<^verbatim>\<open>discover_servers\<close> of
  \<^verbatim>\<open>crates/depotdownloader/src/main.rs\<close>).

  The network is a record of functions: name resolution, opening a connection, and HTTP GET,
  which takes the URL and the \<^verbatim>\<open>Host\<close> header and fails on a status that is not success.
\<close>

section \<open>Addresses\<close>

datatype ip_addr = V4 u8 u8 u8 u8 | V6 "u8 list"

record socket_addr =
  sa_ip :: ip_addr
  sa_port :: u16

datatype cm_server_addr = Resolved socket_addr | Dns string u16

datatype protocol = Tcp | WebSocket

record cm_server =
  sv_addr :: cm_server_addr
  sv_protocol :: protocol

record network =
  net_lookup :: "string \<Rightarrow> io_error_kind + socket_addr list"
  net_connect :: "socket_addr \<Rightarrow> io_error_kind + tcp_stream"
  net_get :: "string \<Rightarrow> string option \<Rightarrow> steam_error + bytes"

definition DEFAULT_CM_PORT :: u16 where
  "DEFAULT_CM_PORT = 27017"

definition dns_server :: "string \<Rightarrow> cm_server" where
  "dns_server host = \<lparr>sv_addr = Dns host DEFAULT_CM_PORT, sv_protocol = Tcp\<rparr>"

definition DEFAULT_CM_SERVERS :: "cm_server list" where
  "DEFAULT_CM_SERVERS = [dns_server '''']"

definition default_cm_servers :: "cm_server list" where
  "default_cm_servers =
     [dns_server ''ext1-sea1.steamserver.net'', dns_server ''ext1-iad1.steamserver.net'',
      dns_server ''ext1-lax1.steamserver.net'', dns_server ''ext1-ord1.steamserver.net'']"

text \<open>\<^verbatim>\<open>rsplit_once(':')\<close>, and \<^verbatim>\<open>rfind(':')\<close> with the two slices around it.\<close>

definition rsplit_colon :: "string \<Rightarrow> (string \<times> string) option" where
  "rsplit_colon s =
     (if CHR '':'' \<in> set s
      then Some (rev (tl (dropWhile (\<lambda>c. c \<noteq> CHR '':'') (rev s))), rev (takeWhile (\<lambda>c. c \<noteq> CHR '':'') (rev s)))
      else None)"

definition parse_dns_server :: "string \<Rightarrow> protocol \<Rightarrow> cm_server option" where
  "parse_dns_server endpoint protocol =
     Option.bind (rsplit_colon endpoint) (\<lambda>(host, port_str).
     Option.bind (parse_u16 port_str) (\<lambda>port.
     Some \<lparr>sv_addr = Dns host port, sv_protocol = protocol\<rparr>))"

text \<open>\<^verbatim>\<open>TcpTransport::connect\<close>: the first address of a name is tried.\<close>

definition tcp_connect :: "network \<Rightarrow> cm_server \<Rightarrow> tcp_stream steam_result" where
  "tcp_connect N server =
     (case sv_addr server of
        Resolved addr \<Rightarrow> map_err Io (net_connect N addr)
      | Dns host port \<Rightarrow>
          and_then (map_err Io (net_lookup N (host @ '':'' @ dec_string (unat port)))) (\<lambda>addrs.
          and_then (ok_or (case addrs of [] \<Rightarrow> None | addr # _ \<Rightarrow> Some addr) (Connection (DnsResolutionFailed host))) (\<lambda>addr.
          map_err Io (net_connect N addr))))"

section \<open>The server directory\<close>

text \<open>\<^verbatim>\<open>serde_json::Value\<close>; indexing anything but an object that has the key gives \<^verbatim>\<open>null\<close>.\<close>

datatype json =
    JNull
  | JBool bool
  | JNumber string
  | JString string
  | JArray "json list"
  | JObject "(string \<times> json) list"

definition json_index :: "json \<Rightarrow> string \<Rightarrow> json" where
  "json_index v key =
     (case v of JObject members \<Rightarrow> (case map_of members key of Some x \<Rightarrow> x | None \<Rightarrow> JNull) | _ \<Rightarrow> JNull)"

definition json_as_str :: "json \<Rightarrow> string option" where
  "json_as_str v = (case v of JString s \<Rightarrow> Some s | _ \<Rightarrow> None)"

definition json_as_array :: "json \<Rightarrow> json list option" where
  "json_as_array v = (case v of JArray xs \<Rightarrow> Some xs | _ \<Rightarrow> None)"

text \<open>One entry of the list: \<open>None\<close> when it is skipped.\<close>

definition directory_entry :: "json \<Rightarrow> cm_server option" where
  "directory_entry entry =
     Option.bind (json_as_str (json_index entry ''endpoint'')) (\<lambda>endpoint.
     let server_type = unwrap_or (json_as_str (json_index entry ''type'')) []
     in if server_type = ''netfilter'' then parse_dns_server endpoint Tcp
        else if server_type = ''websockets'' then parse_dns_server endpoint WebSocket
        else None)"

definition fetch_cm_servers ::
  "network \<Rightarrow> (bytes \<Rightarrow> json steam_result) \<Rightarrow> cell_id \<Rightarrow> cm_server list steam_result" where
  "fetch_cm_servers N parse_json cell_id =
     and_then (net_get N (''https://api.steampowered.com/ISteamDirectory/GetCMListForConnect/v1/?cellid=''
                 @ dec_string (unat (cell_id_0 cell_id))) None) (\<lambda>body.
     and_then (parse_json body) (\<lambda>resp.
     Inr (case json_as_array (json_index (json_index resp ''response'') ''serverlist'') of
            None \<Rightarrow> [] | Some server_list \<Rightarrow> List.map_filter directory_entry server_list)))"

definition discover_servers ::
  "network \<Rightarrow> (bytes \<Rightarrow> json steam_result) \<Rightarrow> cell_id \<Rightarrow> cm_server list" where
  "discover_servers N parse_json cell_id =
     (case fetch_cm_servers N parse_json cell_id of
        Inl e \<Rightarrow> default_cm_servers
      | Inr servers \<Rightarrow>
          let tcp = filter (\<lambda>s. sv_protocol s = Tcp) servers
          in if servers \<noteq> [] \<and> tcp \<noteq> [] then tcp else default_cm_servers)"

section \<open>The CDN\<close>

record cdn_server =
  cs_host :: string
  cs_port :: u16
  cs_https :: bool
  cs_vhost :: string

definition with_token :: "string \<Rightarrow> string option \<Rightarrow> string" where
  "with_token url cdn_auth_token =
     (case cdn_auth_token of None \<Rightarrow> url | Some token \<Rightarrow> url @ ''?'' @ token)"

definition server_build_url :: "cdn_server \<Rightarrow> string \<Rightarrow> string option \<Rightarrow> string" where
  "server_build_url server path cdn_auth_token =
     with_token ((if cs_https server then ''https'' else ''http'') @ ''://'' @ cs_vhost server @ '':''
       @ dec_string (unat (cs_port server)) @ ''/'' @ path) cdn_auth_token"

definition TRIGGER_DOMAIN :: string where
  "TRIGGER_DOMAIN = ''lancache.steamcontent.com''"

definition is_private :: "ip_addr \<Rightarrow> bool" where
  "is_private ip =
     (case ip of
        V4 a b c d \<Rightarrow> a = 127 \<or> a = 10 \<or> (a = 172 \<and> 16 \<le> b \<and> b < 32) \<or> (a = 192 \<and> b = 168)
      | V6 octets \<Rightarrow> octets = replicate 15 0 @ [1] \<or> hd octets AND 0xFE = 0xFC)"

definition lancache_detect :: "network \<Rightarrow> bool" where
  "lancache_detect N =
     (case net_lookup N (TRIGGER_DOMAIN @ '':80'') of
        Inl e \<Rightarrow> False
      | Inr addrs \<Rightarrow> list_ex (\<lambda>addr. is_private (sa_ip addr)) addrs)"

definition lancache_build_url :: "string \<Rightarrow> string option \<Rightarrow> string" where
  "lancache_build_url path cdn_auth_token =
     with_token (''http://'' @ TRIGGER_DOMAIN @ ''/'' @ path) cdn_auth_token"

definition host_header :: "string \<Rightarrow> string" where
  "host_header vhost = vhost"

record cdn_client =
  cdn_http :: "string \<Rightarrow> string option \<Rightarrow> steam_error + bytes"
  cdn_use_lancache :: bool

definition cdn_new :: "network \<Rightarrow> cdn_client" where
  "cdn_new N = \<lparr>cdn_http = net_get N, cdn_use_lancache = False\<rparr>"

definition with_lancache :: "cdn_client \<Rightarrow> cdn_client" where
  "with_lancache cdn = cdn\<lparr>cdn_use_lancache := True\<rparr>"

definition cdn_get :: "cdn_client \<Rightarrow> cdn_server \<Rightarrow> string \<Rightarrow> string option \<Rightarrow> bytes steam_result" where
  "cdn_get cdn server path cdn_auth_token =
     (if cdn_use_lancache cdn
      then cdn_http cdn (lancache_build_url path cdn_auth_token) (Some (host_header (cs_vhost server)))
      else cdn_http cdn (server_build_url server path cdn_auth_token) None)"

definition manifest_path_url :: "depot_id \<Rightarrow> manifest_id \<Rightarrow> u64 \<Rightarrow> string" where
  "manifest_path_url depot_id manifest_id request_code =
     ''depot/'' @ dec_string (unat (depot_id_0 depot_id)) @ ''/manifest/''
     @ dec_string (unat (manifest_id_0 manifest_id)) @ ''/5''
     @ (if 0 < request_code then ''/'' @ dec_string (unat request_code) else [])"

definition download_manifest ::
  "cdn_client \<Rightarrow> cdn_server \<Rightarrow> depot_id \<Rightarrow> manifest_id \<Rightarrow> u64 \<Rightarrow> string option \<Rightarrow> bytes steam_result" where
  "download_manifest cdn server depot_id manifest_id request_code cdn_auth_token =
     cdn_get cdn server (manifest_path_url depot_id manifest_id request_code) cdn_auth_token"

definition chunk_path_url :: "depot_id \<Rightarrow> chunk_id \<Rightarrow> string" where
  "chunk_path_url depot_id chunk_id =
     ''depot/'' @ dec_string (unat (depot_id_0 depot_id)) @ ''/chunk/'' @ chunk_id_display chunk_id"

definition download_chunk ::
  "cdn_client \<Rightarrow> cdn_server \<Rightarrow> depot_id \<Rightarrow> chunk_id \<Rightarrow> string option \<Rightarrow> bytes steam_result" where
  "download_chunk cdn server depot_id chunk_id cdn_auth_token =
     cdn_get cdn server (chunk_path_url depot_id chunk_id) cdn_auth_token"

section \<open>Lemmas\<close>

lemma rsplit_colon_append:
  assumes "CHR '':'' \<notin> set b"
  shows "rsplit_colon (a @ CHR '':'' # b) = Some (a, b)"
  using assms
  by (auto simp: rsplit_colon_def takeWhile_append2 dropWhile_append2 takeWhile_append dropWhile_append)

lemma chunk_path_url_eq: "chunk_path_url d c = chunk_path_url d' c' \<longleftrightarrow> d = d' \<and> c = c'"
proof
  assume "chunk_path_url d c = chunk_path_url d' c'"
  then have "dec_string (unat (depot_id_0 d)) @ CHR ''/'' # ''chunk/'' @ chunk_id_display c
      = dec_string (unat (depot_id_0 d')) @ CHR ''/'' # ''chunk/'' @ chunk_id_display c'"
    by (simp add: chunk_path_url_def)
  from split_at_separator [OF dec_string_no dec_string_no this] separators_no_digits
  show "d = d' \<and> c = c'"
    using chunk_id_display_inject by (cases d; cases d') (auto simp: dec_string_unat_inject)
qed simp

section \<open>Properties\<close>

lemma discover_servers_nonempty: "discover_servers N parse_json cell_id \<noteq> []"
  by (auto simp: discover_servers_def Let_def default_cm_servers_def split: sum.split)

text \<open>
  There is always a CM server to try, and all of them speak TCP, the only protocol the
  client has a transport for: the list of the directory when it offers one, else the defaults.
\<close>

theorem discover_servers_tcp:
  "discover_servers N parse_json cell_id \<noteq> [] \<and> list_all (\<lambda>s. sv_protocol s = Tcp) (discover_servers N parse_json cell_id)"
  using discover_servers_nonempty
  by (auto simp: discover_servers_def Let_def default_cm_servers_def dns_server_def list_all_iff split: sum.split)

text \<open>
  The request for a chunk names its depot and its content: two requests to a CDN server
  have the same URL exactly when they are for the same chunk of the same depot, and so have
  two requests through the cache.
\<close>

theorem chunk_url_unique:
  "(server_build_url server (chunk_path_url d c) token = server_build_url server (chunk_path_url d' c') token
      \<longleftrightarrow> d = d' \<and> c = c')
   \<and> (lancache_build_url (chunk_path_url d c) token = lancache_build_url (chunk_path_url d' c') token
      \<longleftrightarrow> d = d' \<and> c = c')"
proof -
  have "with_token (u @ chunk_path_url d c) token = with_token (u @ chunk_path_url d' c') token \<longleftrightarrow> d = d' \<and> c = c'" for u
    by (cases token) (simp_all add: with_token_def chunk_path_url_eq)
  from this [of "(if cs_https server then ''https'' else ''http'') @ ''://'' @ cs_vhost server @ '':''
       @ dec_string (unat (cs_port server)) @ ''/''"] this [of "''http://'' @ TRIGGER_DOMAIN @ ''/''"]
  show ?thesis by (simp add: server_build_url_def lancache_build_url_def)
qed

end
