(* ===== verification/Services.thy ===== *)
theory Services
  imports Client_Spec Network
begin

text \<open>
  The requests of a client: app metadata and depot keys (\<^verbatim>\<open>crates/steam/src/apps/mod.rs\<close>),
  the content service (\<^verbatim>\<open>content/mod.rs\<close>) and authentication (\<^verbatim>\<open>auth/mod.rs\<close>). The
  protobuf messages are arguments: encoders take the fields the code sets, decoders give
  the fields it reads. The requests of the first module are plain messages whose answer is
  awaited by its type, the others are service calls.
\<close>

section \<open>Data\<close>

record access_token =
  at_app_id :: app_id
  at_token :: u64

record app_info =
  ai_app_id :: "app_id option"
  ai_change_number :: "u32 option"
  ai_kv_data :: "bytes option"

record beta_branch =
  bb_name :: "string option"
  bb_password :: "string option"
  bb_description :: "string option"

record cdn_auth_token =
  ct_token :: "string option"
  ct_expiration_time :: "u32 option"

datatype guard_type = GuardNone | EmailCode | DeviceCode | DeviceConfirmation

definition guard_from_i32 :: "i32 \<Rightarrow> guard_type" where
  "guard_from_i32 v =
     (if v = 0 then GuardNone else if v = 1 then EmailCode else if v = 2 then DeviceCode
      else if v = 3 then DeviceConfirmation else GuardNone)"

record auth_session =
  as_client_id :: "u64 option"
  as_request_id :: "bytes option"
  as_poll_interval :: "u32 option"
  as_allowed_confirmations :: "guard_type list"
  as_steam_id :: "u64 option"

record qr_auth_session =
  qs_client_id :: "u64 option"
  qs_request_id :: "bytes option"
  qs_challenge_url :: "string option"
  qs_poll_interval :: "u32 option"
  qs_allowed_confirmations :: "guard_type list"

record auth_tokens =
  tk_access_token :: string
  tk_refresh_token :: string
  tk_account_name :: "string option"

record server_info =
  si_host :: "string option"
  si_https_support :: "string option"
  si_vhost :: "string option"

record rsa_key_response =
  rk_mod :: "string option"
  rk_exp :: "string option"
  rk_timestamp :: "u64 option"

text \<open>The generated protobuf code.\<close>

record service_codec =
  p_enc_access_tokens :: "u32 list \<Rightarrow> bytes"
  p_dec_access_tokens :: "bytes \<Rightarrow> (u32 option \<times> u64 option) list option"
  p_enc_product_info :: "(u32 \<times> u64) list \<Rightarrow> bytes"
  p_dec_product_info :: "bytes \<Rightarrow> (bool option \<times> (u32 option \<times> u32 option \<times> bytes option) list) option"
  p_enc_depot_key :: "u32 \<Rightarrow> u32 \<Rightarrow> bytes"
  p_dec_depot_key :: "bytes \<Rightarrow> (i32 option \<times> bytes option) option"
  p_enc_beta_password :: "u32 \<Rightarrow> string \<Rightarrow> bytes"
  p_dec_beta_password :: "bytes \<Rightarrow> (i32 option \<times> (string option \<times> string option \<times> string option) list) option"
  p_enc_servers :: "u32 \<Rightarrow> u32 option \<Rightarrow> bytes"
  p_dec_servers :: "bytes \<Rightarrow> server_info list option"
  p_enc_request_code :: "u32 \<Rightarrow> u32 \<Rightarrow> u64 \<Rightarrow> string option \<Rightarrow> string option \<Rightarrow> bytes"
  p_dec_request_code :: "bytes \<Rightarrow> u64 option option"
  p_enc_cdn_token :: "u32 \<Rightarrow> string \<Rightarrow> u32 \<Rightarrow> bytes"
  p_dec_cdn_token :: "bytes \<Rightarrow> (string option \<times> u32 option) option"
  p_enc_rsa_key :: "string \<Rightarrow> bytes"
  p_dec_rsa_key :: "bytes \<Rightarrow> rsa_key_response option"
  p_dec_begin_credentials :: "bytes \<Rightarrow>
    (u64 option \<times> bytes option \<times> u32 option \<times> i32 option list \<times> u64 option) option"
  p_dec_begin_qr :: "bytes \<Rightarrow>
    (u64 option \<times> bytes option \<times> string option \<times> u32 option \<times> i32 option list) option"
  p_enc_poll :: "u64 \<Rightarrow> bytes \<Rightarrow> bytes"
  p_dec_poll :: "bytes \<Rightarrow> (string option \<times> string option \<times> string option) option"
  p_enc_guard_code :: "u64 \<Rightarrow> u64 \<Rightarrow> string \<Rightarrow> i32 \<Rightarrow> bytes"

section \<open>App metadata and depot keys\<close>

text \<open>The loop of the requests: messages of another type are dropped.\<close>

partial_function (option) await_emsg ::
  "'t transport_ops \<Rightarrow> crypto \<Rightarrow> client_codec \<Rightarrow> emsg \<Rightarrow> 't client \<Rightarrow> (incoming_msg steam_result \<times> 't client) option" where
  "await_emsg T C X emsg s =
     Option.bind (recv_routed_msg T C X s) (\<lambda>(r, s).
       case r of
         Inl e \<Rightarrow> Some (Inl e, s)
       | Inr incoming \<Rightarrow>
           if im_emsg incoming = emsg then Some (Inr incoming, s) else await_emsg T C X emsg s)"

definition request ::
  "'t transport_ops \<Rightarrow> crypto \<Rightarrow> client_codec \<Rightarrow> bytes \<Rightarrow> emsg \<Rightarrow> bytes \<Rightarrow> emsg \<Rightarrow> (bytes \<Rightarrow> 'a steam_result)
    \<Rightarrow> 't client \<Rightarrow> ('a steam_result \<times> 't client) option" where
  "request T C X random emsg encoded answer_emsg answer s =
     Option.bind (logged_in_send_msg T C X random (client_msg_with_body emsg encoded) s) (\<lambda>(r, s).
       case r of
         Inl e \<Rightarrow> Some (Inl e, s)
       | Inr _ \<Rightarrow>
           Option.bind (await_emsg T C X answer_emsg s) (\<lambda>(r, s).
             Some (and_then r (\<lambda>incoming. answer (im_body incoming)), s)))"

definition decode_with :: "(bytes \<Rightarrow> 'a option) \<Rightarrow> bytes \<Rightarrow> 'a steam_result" where
  "decode_with decode body = ok_or (decode body) ProtobufDecode"

definition access_tokens_of :: "(u32 option \<times> u64 option) list \<Rightarrow> access_token list" where
  "access_tokens_of ts =
     List.map_filter (\<lambda>t. case t of
         (Some i, Some token) \<Rightarrow> Some \<lparr>at_app_id = AppId i, at_token = token\<rparr>
       | _ \<Rightarrow> None) ts"

definition pics_get_access_tokens ::
  "'t transport_ops \<Rightarrow> crypto \<Rightarrow> client_codec \<Rightarrow> service_codec \<Rightarrow> bytes \<Rightarrow> app_id list \<Rightarrow> 't client
    \<Rightarrow> (access_token list steam_result \<times> 't client) option" where
  "pics_get_access_tokens T C X P random app_ids s =
     request T C X random EMSG_CLIENT_PICS_ACCESS_TOKEN_REQUEST (p_enc_access_tokens P (map app_id_0 app_ids))
       EMSG_CLIENT_PICS_ACCESS_TOKEN_RESPONSE
       (\<lambda>body. map_ok access_tokens_of (decode_with (p_dec_access_tokens P) body)) s"

definition app_infos_of :: "(u32 option \<times> u32 option \<times> bytes option) list \<Rightarrow> app_info list" where
  "app_infos_of apps =
     map (\<lambda>(appid, change_number, buffer).
       \<lparr>ai_app_id = map_option AppId appid, ai_change_number = change_number, ai_kv_data = buffer\<rparr>) apps"

partial_function (option) product_info_loop ::
  "'t transport_ops \<Rightarrow> crypto \<Rightarrow> client_codec \<Rightarrow> service_codec \<Rightarrow> app_info list \<Rightarrow> 't client
    \<Rightarrow> (app_info list steam_result \<times> 't client) option" where
  "product_info_loop T C X P results s =
     Option.bind (recv_routed_msg T C X s) (\<lambda>(r, s).
       case r of
         Inl e \<Rightarrow> Some (Inl e, s)
       | Inr incoming \<Rightarrow>
           if im_emsg incoming = EMSG_CLIENT_PICS_PRODUCT_INFO_RESPONSE then
             (case p_dec_product_info P (im_body incoming) of
                None \<Rightarrow> Some (Inl ProtobufDecode, s)
              | Some (response_pending, apps) \<Rightarrow>
                  let results = results @ app_infos_of apps
                  in if \<not> unwrap_or response_pending False then Some (Inr results, s)
                     else product_info_loop T C X P results s)
           else product_info_loop T C X P results s)"

definition pics_get_product_info ::
  "'t transport_ops \<Rightarrow> crypto \<Rightarrow> client_codec \<Rightarrow> service_codec \<Rightarrow> bytes \<Rightarrow> access_token list \<Rightarrow> 't client
    \<Rightarrow> (app_info list steam_result \<times> 't client) option" where
  "pics_get_product_info T C X P random apps s =
     Option.bind (logged_in_send_msg T C X random
         (client_msg_with_body EMSG_CLIENT_PICS_PRODUCT_INFO_REQUEST
            (p_enc_product_info P (map (\<lambda>t. (app_id_0 (at_app_id t), at_token t)) apps))) s) (\<lambda>(r, s).
       case r of Inl e \<Rightarrow> Some (Inl e, s) | Inr _ \<Rightarrow> product_info_loop T C X P [] s)"

text \<open>The result code of an answer: a missing one is an error as well.\<close>

definition check_access :: "depot_id \<Rightarrow> i32 option \<Rightarrow> unit steam_result" where
  "check_access depot_id eresult =
     and_then (ok_or eresult (Connection (DepotAccessDenied depot_id EInvalid))) (\<lambda>v.
     map_err (\<lambda>e. Connection (DepotAccessDenied depot_id e)) (from_i32 v))"

definition depot_key_of :: "depot_id \<Rightarrow> i32 option \<times> bytes option \<Rightarrow> depot_key steam_result" where
  "depot_key_of depot_id body =
     and_then (check_access depot_id (fst body)) (\<lambda>_.
     and_then (ok_or (snd body) (Crypto (InvalidKeyLength 32 0))) (\<lambda>key_bytes.
     if length key_bytes \<noteq> 32 then Inl (Crypto (InvalidKeyLength 32 (length key_bytes)))
     else Inr (DepotKey key_bytes)))"

definition get_depot_decryption_key ::
  "'t transport_ops \<Rightarrow> crypto \<Rightarrow> client_codec \<Rightarrow> service_codec \<Rightarrow> bytes \<Rightarrow> depot_id \<Rightarrow> app_id \<Rightarrow> 't client
    \<Rightarrow> (depot_key steam_result \<times> 't client) option" where
  "get_depot_decryption_key T C X P random depot_id app_id s =
     request T C X random EMSG_CLIENT_GET_DEPOT_DECRYPTION_KEY
       (p_enc_depot_key P (depot_id_0 depot_id) (app_id_0 app_id))
       EMSG_CLIENT_GET_DEPOT_DECRYPTION_KEY_RESPONSE
       (\<lambda>body. and_then (decode_with (p_dec_depot_key P) body) (depot_key_of depot_id)) s"

definition beta_branches_of ::
  "depot_id \<Rightarrow> i32 option \<times> (string option \<times> string option \<times> string option) list \<Rightarrow> beta_branch list steam_result" where
  "beta_branches_of depot_id body =
     and_then (check_access depot_id (fst body)) (\<lambda>_.
     Inr (map (\<lambda>(n, p, d). \<lparr>bb_name = n, bb_password = p, bb_description = d\<rparr>) (snd body)))"

definition check_beta_password ::
  "'t transport_ops \<Rightarrow> crypto \<Rightarrow> client_codec \<Rightarrow> service_codec \<Rightarrow> bytes \<Rightarrow> app_id \<Rightarrow> string \<Rightarrow> 't client
    \<Rightarrow> (beta_branch list steam_result \<times> 't client) option" where
  "check_beta_password T C X P random app_id password s =
     request T C X random EMSG_CLIENT_CHECK_APP_BETA_PASSWORD (p_enc_beta_password P (app_id_0 app_id) password)
       EMSG_CLIENT_CHECK_APP_BETA_PASSWORD_RESPONSE
       (\<lambda>body. and_then (decode_with (p_dec_beta_password P) body) (beta_branches_of (DepotId (app_id_0 app_id)))) s"

section \<open>The content service\<close>

definition DEFAULT_MAX_CDN_SERVERS :: u32 where
  "DEFAULT_MAX_CDN_SERVERS = 20"

definition supports_https :: "server_info \<Rightarrow> bool" where
  "supports_https info =
     (case si_https_support info of None \<Rightarrow> False | Some s \<Rightarrow> s = ''mandatory'' \<or> s = ''optional'')"

definition parse_server_info :: "server_info \<Rightarrow> cdn_server option" where
  "parse_server_info info =
     Option.bind (si_host info) (\<lambda>host.
     Option.bind (case rsplit_colon host of
         Some (hostname, port) \<Rightarrow> map_option (\<lambda>p. (hostname, p)) (parse_u16 port)
       | None \<Rightarrow> Some (host, if supports_https info then 443 else 80)) (\<lambda>(hostname, port).
     Some \<lparr>cs_host = hostname, cs_port = port, cs_https = supports_https info,
           cs_vhost = unwrap_or (si_vhost info) hostname\<rparr>))"

text \<open>A service call and its decoded answer.\<close>

definition call_decode ::
  "(bytes \<Rightarrow> 'a steam_result) \<Rightarrow> (bytes steam_result \<times> 't client) option \<Rightarrow> ('a steam_result \<times> 't client) option" where
  "call_decode answer res = map_option (\<lambda>(r, s). (and_then r answer, s)) res"

definition get_cdn_servers ::
  "'t transport_ops \<Rightarrow> crypto \<Rightarrow> client_codec \<Rightarrow> service_codec \<Rightarrow> bytes \<Rightarrow> cell_id \<Rightarrow> u32 option \<Rightarrow> 't client
    \<Rightarrow> (cdn_server list steam_result \<times> 't client) option" where
  "get_cdn_servers T C X P random cell_id max_servers s =
     call_decode (\<lambda>body. map_ok (List.map_filter parse_server_info) (decode_with (p_dec_servers P) body))
       (call_service_method T C X random ''ContentServerDirectory.GetServersForSteamPipe#1''
          (p_enc_servers P (cell_id_0 cell_id)
             (case max_servers of Some n \<Rightarrow> Some n | None \<Rightarrow> Some DEFAULT_MAX_CDN_SERVERS)) s)"

definition get_manifest_request_code ::
  "'t transport_ops \<Rightarrow> crypto \<Rightarrow> client_codec \<Rightarrow> service_codec \<Rightarrow> bytes \<Rightarrow> app_id \<Rightarrow> depot_id \<Rightarrow> manifest_id
    \<Rightarrow> string option \<Rightarrow> string option \<Rightarrow> 't client \<Rightarrow> (u64 option steam_result \<times> 't client) option" where
  "get_manifest_request_code T C X P random app_id depot_id manifest_id branch branch_password_hash s =
     call_decode (decode_with (p_dec_request_code P))
       (call_service_method T C X random ''ContentServerDirectory.GetManifestRequestCode#1''
          (p_enc_request_code P (app_id_0 app_id) (depot_id_0 depot_id) (manifest_id_0 manifest_id)
             branch branch_password_hash) s)"

definition get_cdn_auth_token ::
  "'t transport_ops \<Rightarrow> crypto \<Rightarrow> client_codec \<Rightarrow> service_codec \<Rightarrow> bytes \<Rightarrow> app_id \<Rightarrow> depot_id \<Rightarrow> string
    \<Rightarrow> 't client \<Rightarrow> (cdn_auth_token steam_result \<times> 't client) option" where
  "get_cdn_auth_token T C X P random app_id depot_id host_name s =
     call_decode (\<lambda>body. map_ok (\<lambda>(t, e). \<lparr>ct_token = t, ct_expiration_time = e\<rparr>) (decode_with (p_dec_cdn_token P) body))
       (call_service_method T C X random ''ContentServerDirectory.GetCDNAuthToken#1''
          (p_enc_cdn_token P (depot_id_0 depot_id) host_name (app_id_0 app_id)) s)"

section \<open>Authentication\<close>

definition get_password_rsa_public_key ::
  "'t transport_ops \<Rightarrow> crypto \<Rightarrow> client_codec \<Rightarrow> service_codec \<Rightarrow> bytes \<Rightarrow> string \<Rightarrow> 't client
    \<Rightarrow> (rsa_key_response steam_result \<times> 't client) option" where
  "get_password_rsa_public_key T C X P random account_name s =
     call_decode (decode_with (p_dec_rsa_key P))
       (call_service_method_non_authed T C X random ''Authentication.GetPasswordRSAPublicKey#1''
          (p_enc_rsa_key P account_name) s)"

definition guard_types :: "i32 option list \<Rightarrow> guard_type list" where
  "guard_types cs = List.map_filter (map_option guard_from_i32) cs"

text \<open>The request messages of the two session starts come encoded.\<close>

definition begin_auth_session_via_credentials ::
  "'t transport_ops \<Rightarrow> crypto \<Rightarrow> client_codec \<Rightarrow> service_codec \<Rightarrow> bytes \<Rightarrow> bytes \<Rightarrow> 't client
    \<Rightarrow> (auth_session steam_result \<times> 't client) option" where
  "begin_auth_session_via_credentials T C X P random encoded s =
     call_decode (\<lambda>body. map_ok (\<lambda>(c, r, i, confs, sid).
         \<lparr>as_client_id = c, as_request_id = r, as_poll_interval = i, as_allowed_confirmations = guard_types confs,
          as_steam_id = sid\<rparr>) (decode_with (p_dec_begin_credentials P) body))
       (call_service_method_non_authed T C X random ''Authentication.BeginAuthSessionViaCredentials#1'' encoded s)"

definition begin_auth_session_via_qr ::
  "'t transport_ops \<Rightarrow> crypto \<Rightarrow> client_codec \<Rightarrow> service_codec \<Rightarrow> bytes \<Rightarrow> bytes \<Rightarrow> 't client
    \<Rightarrow> (qr_auth_session steam_result \<times> 't client) option" where
  "begin_auth_session_via_qr T C X P random encoded s =
     call_decode (\<lambda>body. map_ok (\<lambda>(c, r, u, i, confs).
         \<lparr>qs_client_id = c, qs_request_id = r, qs_challenge_url = u, qs_poll_interval = i,
          qs_allowed_confirmations = guard_types confs\<rparr>) (decode_with (p_dec_begin_qr P) body))
       (call_service_method_non_authed T C X random ''Authentication.BeginAuthSessionViaQR#1'' encoded s)"

definition tokens_of :: "string option \<times> string option \<times> string option \<Rightarrow> auth_tokens option" where
  "tokens_of body =
     (case body of
        (Some access, Some refresh, account_name) \<Rightarrow>
          if access \<noteq> [] then
            Some \<lparr>tk_access_token = access, tk_refresh_token = refresh, tk_account_name = account_name\<rparr>
          else None
      | _ \<Rightarrow> None)"

definition poll_auth_session ::
  "'t transport_ops \<Rightarrow> crypto \<Rightarrow> client_codec \<Rightarrow> service_codec \<Rightarrow> bytes \<Rightarrow> u64 \<Rightarrow> bytes \<Rightarrow> 't client
    \<Rightarrow> (auth_tokens option steam_result \<times> 't client) option" where
  "poll_auth_session T C X P random client_id request_id s =
     call_decode (\<lambda>body. map_ok tokens_of (decode_with (p_dec_poll P) body))
       (call_service_method_non_authed T C X random ''Authentication.PollAuthSessionStatus#1''
          (p_enc_poll P client_id request_id) s)"

definition guard_code_type :: "guard_type \<Rightarrow> i32" where
  "guard_code_type code_type = (case code_type of EmailCode \<Rightarrow> 1 | DeviceCode \<Rightarrow> 2 | _ \<Rightarrow> 0)"

definition submit_steam_guard_code ::
  "'t transport_ops \<Rightarrow> crypto \<Rightarrow> client_codec \<Rightarrow> service_codec \<Rightarrow> bytes \<Rightarrow> u64 \<Rightarrow> u64 \<Rightarrow> string \<Rightarrow> guard_type \<Rightarrow> 't client
    \<Rightarrow> (unit steam_result \<times> 't client) option" where
  "submit_steam_guard_code T C X P random client_id steam_id code code_type s =
     call_decode (\<lambda>body. Inr ())
       (call_service_method_non_authed T C X random ''Authentication.UpdateAuthSessionWithSteamGuardCode#1''
          (p_enc_guard_code P client_id steam_id code (guard_code_type code_type)) s)"

end
