(* ===== verification/Store.thy ===== *)
theory Store
  imports Files Btree Trim
begin

text \<open>
  What is kept on disk between runs: the manifest cache with its checksums and the record of
  installed manifests (\<^verbatim>\<open>crates/steam-client/src/manifest.rs\<close>), and the refresh tokens
  (\<^verbatim>\<open>credentials.rs\<close>). The JSON of \<^verbatim>\<open>serde_json\<close>, SHA-1 and the zip library are
  arguments. A \<^verbatim>\<open>HashMap\<close> is a map.
\<close>

section \<open>Manifests from the CDN\<close>

definition extract_zip :: "('a, 'e) codecs \<Rightarrow> bytes \<Rightarrow> bytes manifest_result" where
  "extract_zip Z data =
     and_then (ok_or (zip_archive_new Z data) (MissingSection ''zip archive'')) (\<lambda>archive.
     if zip_archive_len Z archive = 0 then Inl (MissingSection ''empty zip archive'')
     else and_then (ok_or (zip_by_index Z archive 0) (MissingSection ''zip entry'')) (\<lambda>file.
          map_err (\<lambda>_. MissingSection ''zip read failed'') (zip_read_to_end Z file)))"

definition extract_and_parse :: "('a, 'e) codecs \<Rightarrow> manifest_codec \<Rightarrow> bytes \<Rightarrow> depot_manifest manifest_result" where
  "extract_and_parse Z X data = and_then (extract_zip Z data) (parse_manifest X)"

section \<open>The manifest cache\<close>

datatype manifest_cache = ManifestCache (cache_dir: string)

definition cache_default_for :: "string \<Rightarrow> manifest_cache" where
  "cache_default_for install_dir = ManifestCache (path_join (path_join install_dir ''.depotdownloader'') ''manifests'')"

definition cache_name :: "depot_id \<Rightarrow> manifest_id \<Rightarrow> string" where
  "cache_name depot_id manifest_id =
     dec_string (unat (depot_id_0 depot_id)) @ ''_'' @ dec_string (unat (manifest_id_0 manifest_id))"

definition manifest_path :: "manifest_cache \<Rightarrow> depot_id \<Rightarrow> manifest_id \<Rightarrow> string" where
  "manifest_path cache depot_id manifest_id = path_join (cache_dir cache) (cache_name depot_id manifest_id @ ''.manifest'')"

definition sha_path :: "manifest_cache \<Rightarrow> depot_id \<Rightarrow> manifest_id \<Rightarrow> string" where
  "sha_path cache depot_id manifest_id = path_join (cache_dir cache) (cache_name depot_id manifest_id @ ''.sha'')"

text \<open>\<^verbatim>\<open>read_to_string\<close>; every failure is treated alike.\<close>

definition read_to_string :: "file_system \<Rightarrow> string \<Rightarrow> string option" where
  "read_to_string fs path = Option.bind (fs_files fs path) from_utf8"

definition cache_load ::
  "(bytes \<Rightarrow> sha1_hash) \<Rightarrow> manifest_codec \<Rightarrow> file_system \<Rightarrow> manifest_cache \<Rightarrow> depot_id \<Rightarrow> manifest_id
    \<Rightarrow> depot_manifest option" where
  "cache_load sha1 X fs cache depot_id manifest_id =
     Option.bind (fs_files fs (manifest_path cache depot_id manifest_id)) (\<lambda>data.
     Option.bind (read_to_string fs (sha_path cache depot_id manifest_id)) (\<lambda>stored_sha.
     if sha1_display (sha1 data) \<noteq> trim stored_sha then None
     else result_ok (parse_manifest X data)))"

definition cache_save ::
  "(bytes \<Rightarrow> sha1_hash) \<Rightarrow> ('a, 'e) codecs \<Rightarrow> manifest_cache \<Rightarrow> depot_id \<Rightarrow> manifest_id \<Rightarrow> bytes \<Rightarrow> file_system
    \<Rightarrow> (io_error_kind + unit) \<times> file_system" where
  "cache_save sha1 Z cache depot_id manifest_id raw_data fs =
     (case extract_zip Z raw_data of
        Inl e \<Rightarrow> (Inl InvalidData, fs)
      | Inr manifest_bytes \<Rightarrow>
          (Inr (), write_file (sha_path cache depot_id manifest_id) (as_bytes (sha1_display (sha1 manifest_bytes)))
                     (write_file (manifest_path cache depot_id manifest_id) manifest_bytes fs)))"

section \<open>Installed manifests\<close>

datatype depot_config = DepotConfig (installed_manifests: "u32 \<Rightarrow> u64 option")

definition depot_config_default :: depot_config where
  "depot_config_default = DepotConfig (\<lambda>_. None)"

definition config_path_for :: "string \<Rightarrow> string" where
  "config_path_for install_dir = path_join (path_join install_dir ''.depotdownloader'') ''depot.json''"

text \<open>A missing or unreadable file, or one that is not the JSON expected, is an empty record.\<close>

definition load_json :: "(string \<Rightarrow> 'a option) \<Rightarrow> 'a \<Rightarrow> file_system \<Rightarrow> string \<Rightarrow> 'a" where
  "load_json from_str dflt fs path =
     (case read_to_string fs path of
        None \<Rightarrow> dflt
      | Some json \<Rightarrow> unwrap_or (from_str json) dflt)"

definition save_json :: "('a \<Rightarrow> string option) \<Rightarrow> 'a \<Rightarrow> string \<Rightarrow> file_system \<Rightarrow> (io_error_kind + unit) \<times> file_system" where
  "save_json to_string_pretty x path fs =
     (case to_string_pretty x of
        None \<Rightarrow> (Inl OtherKind, fs)
      | Some json \<Rightarrow> (Inr (), write_file path (as_bytes json) fs))"

definition depot_config_load :: "(string \<Rightarrow> depot_config option) \<Rightarrow> file_system \<Rightarrow> string \<Rightarrow> depot_config" where
  "depot_config_load from_str fs path = load_json from_str depot_config_default fs path"

definition depot_config_save ::
  "(depot_config \<Rightarrow> string option) \<Rightarrow> depot_config \<Rightarrow> string \<Rightarrow> file_system \<Rightarrow> (io_error_kind + unit) \<times> file_system" where
  "depot_config_save to_string_pretty config path fs = save_json to_string_pretty config path fs"

definition get_installed :: "depot_config \<Rightarrow> depot_id \<Rightarrow> manifest_id option" where
  "get_installed config depot_id = map_option ManifestId (installed_manifests config (depot_id_0 depot_id))"

definition set_installed :: "depot_id \<Rightarrow> manifest_id \<Rightarrow> depot_config \<Rightarrow> depot_config" where
  "set_installed depot_id manifest_id config =
     DepotConfig ((installed_manifests config)(depot_id_0 depot_id \<mapsto> manifest_id_0 manifest_id))"

section \<open>Tokens\<close>

datatype token_store = TokenStore (store_tokens: "string \<Rightarrow> string option")

definition token_store_default :: token_store where
  "token_store_default = TokenStore (\<lambda>_. None)"

text \<open>The home directory as the environment names it, \<^verbatim>\<open>HOME\<close> first.\<close>

definition dirs_path :: "(string \<Rightarrow> string option) \<Rightarrow> string" where
  "dirs_path env =
     (case (case env ''HOME'' of Some home \<Rightarrow> Some home | None \<Rightarrow> env ''USERPROFILE'') of
        Some home \<Rightarrow> path_join home ''.depotdownloader''
      | None \<Rightarrow> ''.depotdownloader'')"

definition token_default_path :: "(string \<Rightarrow> string option) \<Rightarrow> string" where
  "token_default_path env = path_join (dirs_path env) ''tokens.json''"

definition token_store_load :: "(string \<Rightarrow> token_store option) \<Rightarrow> file_system \<Rightarrow> string \<Rightarrow> token_store" where
  "token_store_load from_str fs path = load_json from_str token_store_default fs path"

definition token_store_save ::
  "(token_store \<Rightarrow> string option) \<Rightarrow> token_store \<Rightarrow> string \<Rightarrow> file_system \<Rightarrow> (io_error_kind + unit) \<times> file_system" where
  "token_store_save to_string_pretty store path fs = save_json to_string_pretty store path fs"

definition token_get :: "token_store \<Rightarrow> string \<Rightarrow> string option" where
  "token_get store username = store_tokens store username"

definition token_set :: "string \<Rightarrow> string \<Rightarrow> token_store \<Rightarrow> token_store" where
  "token_set username token store = TokenStore ((store_tokens store)(username \<mapsto> token))"

section \<open>The stores are keyed maps\<close>

interpretation config_map: keyed_map depot_config_default set_installed get_installed "\<lambda>_. True"
  by unfold_locales
     (auto simp: depot_config_default_def get_installed_def set_installed_def depot_id.expand intro: depot_id.expand)

interpretation token_map: keyed_map token_store_default token_set token_get "\<lambda>_. True"
  by unfold_locales (auto simp: token_store_default_def token_get_def token_set_def)

text \<open>Saving and loading with a codec that can read what it writes.\<close>

lemma load_save_json:
  assumes "to_string_pretty x = Some json" "from_str json = Some x" "valid_str json"
  shows "load_json from_str d (snd (save_json to_string_pretty x path fs)) path = x"
  using assms by (simp add: load_json_def save_json_def read_to_string_def write_file_def)

section \<open>Checksums as text\<close>

lemma hex_digit_plain:
  assumes "d < 16"
  shows "\<not> white_start (hex_digit d) \<and> \<not> white_end (hex_digit d) \<and> byte_of_char (hex_digit d) < 0x80"
proof -
  have "list_all (\<lambda>d. \<not> white_start (hex_digit d) \<and> \<not> white_end (hex_digit d) \<and> byte_of_char (hex_digit d) < 0x80) [0..<16]"
    by code_simp
  with assms show ?thesis by (simp add: list_all_iff)
qed

lemma hex_bytes_plain:
  "c \<in> set (hex_bytes b) \<Longrightarrow> \<not> white_start c \<and> \<not> white_end c \<and> byte_of_char c < 0x80"
proof -
  assume "c \<in> set (hex_bytes b)"
  then obtain x where "c = hex_digit (unat (x :: u8) div 16) \<or> c = hex_digit (unat x mod 16)"
    by (auto simp: hex_bytes_def hex_byte_def)
  moreover have "unat x div 16 < 16" using unat_bound [of x] by (simp add: less_mult_imp_div_less)
  ultimately show ?thesis using hex_digit_plain by fastforce
qed

lemma trim_plain:
  assumes "s \<noteq> [] \<Longrightarrow> \<not> white_start (hd s)" "s \<noteq> [] \<Longrightarrow> \<not> white_end (last s)"
  shows "trim s = s"
proof (cases s)
  case Nil
  then show ?thesis by (simp add: trim_def trim_end_def strip_all_keep strip_one_None white_seqs_def)
next
  case (Cons c cs)
  with assms have "trim_start s = s" "\<not> white_end (last s)" by (auto simp: trim_start_keep)
  moreover from Cons have "s = butlast s @ [last s]" by simp
  ultimately show ?thesis using trim_end_keep by (metis trim_def)
qed

lemma trim_hex [simp]: "trim (hex_bytes b) = hex_bytes b"
  by (rule trim_plain) (use hex_bytes_plain hd_in_set last_in_set in blast)+

lemma valid_str_hex [simp]: "valid_str (hex_bytes b)"
  unfolding valid_str_def
  by (rule utf8_valid_ascii) (use hex_bytes_plain in \<open>auto simp: as_bytes_def\<close>)

section \<open>Cache entries\<close>

lemma cache_name_inject: "cache_name d m = cache_name d' m' \<longleftrightarrow> d = d' \<and> m = m'"
proof
  assume "cache_name d m = cache_name d' m'"
  then have "dec_string (unat (depot_id_0 d)) @ CHR ''_'' # dec_string (unat (manifest_id_0 m))
      = dec_string (unat (depot_id_0 d')) @ CHR ''_'' # dec_string (unat (manifest_id_0 m'))"
    by (simp add: cache_name_def)
  from split_at_separator [OF dec_string_no dec_string_no this] separators_no_digits
  show "d = d' \<and> m = m'"
    by (cases d; cases d'; cases m; cases m') (simp add: dec_string_unat_inject)
qed simp

lemma cache_name_relative: "\<not> prefix ''/'' (cache_name d m @ x)"
proof -
  obtain c cs where c: "dec_string (unat (depot_id_0 d)) = c # cs"
    using dec_string_not_Nil by (cases "dec_string (unat (depot_id_0 d))") auto
  have "CHR ''/'' \<notin> set (dec_string (unat (depot_id_0 d)))"
    by (rule dec_string_no) (rule separators_no_digits)
  with c show ?thesis by (auto simp: cache_name_def)
qed

lemma cache_paths:
  "manifest_path cache d m = manifest_path cache d' m' \<longleftrightarrow> d = d' \<and> m = m'"
  "sha_path cache d m = sha_path cache d' m' \<longleftrightarrow> d = d' \<and> m = m'"
  "manifest_path cache d m \<noteq> sha_path cache d' m'"
proof -
  have "cache_name d m @ ''.manifest'' \<noteq> cache_name d' m' @ ''.sha''"
  proof
    assume "cache_name d m @ ''.manifest'' = cache_name d' m' @ ''.sha''"
    then have "rev (cache_name d m @ ''.manifest'') = rev (cache_name d' m' @ ''.sha'')" by (rule arg_cong)
    then show False by simp
  qed
  then show "manifest_path cache d m \<noteq> sha_path cache d' m'"
    by (simp add: manifest_path_def sha_path_def path_join_relative cache_name_relative)
qed (simp_all add: manifest_path_def sha_path_def path_join_relative cache_name_relative cache_name_inject)

text \<open>
  A manifest is only taken from the cache when its file still has the checksum saved beside
  it: any other content is refused unless it has the same SHA-1.
\<close>

lemma cache_load_checked:
  assumes "cache_save sha1 Z cache d m raw fs = (Inr (), fs1)" "extract_zip Z raw = Inr b"
    and "fs_files fs2 (sha_path cache d m) = fs_files fs1 (sha_path cache d m)"
    and "cache_load sha1 X fs2 cache d m = Some manifest"
  shows "\<exists>b'. fs_files fs2 (manifest_path cache d m) = Some b' \<and> sha1 b' = sha1 b
    \<and> parse_manifest X b' = Inr manifest"
proof -
  from assms(1,2) have "fs_files fs1 (sha_path cache d m) = Some (as_bytes (hex_bytes (sha1_0 (sha1 b))))"
    by (auto simp: cache_save_def write_file_def sha1_display_def)
  with assms(3,4) obtain b' where b': "fs_files fs2 (manifest_path cache d m) = Some b'"
    "hex_bytes (sha1_0 (sha1 b')) = hex_bytes (sha1_0 (sha1 b))" "parse_manifest X b' = Inr manifest"
    by (auto simp: cache_load_def read_to_string_def sha1_display_def bind_eq_Some_conv split: if_splits)
  with hex_bytes_inject show ?thesis by (auto intro: sha1_hash.expand)
qed

lemma cache_load_saved:
  assumes "cache_save sha1 Z cache d m raw fs = (Inr (), fs')"
  shows "cache_load sha1 X fs' cache d' m' =
    (if d' = d \<and> m' = m then result_ok (extract_and_parse Z X raw) else cache_load sha1 X fs cache d' m')"
  using assms cache_paths [of cache d' m' d m] cache_paths(3) [of cache d m d' m'] cache_paths(3) [of cache d' m' d m]
    cache_paths(3) [of cache d m d m]
  by (auto simp: cache_save_def cache_load_def read_to_string_def write_file_def sha1_display_def extract_and_parse_def
      split: sum.splits)

section \<open>Properties\<close>

text \<open>
  What the manifest cache has saved it loads again, checked against its checksum: the
  manifest that the archive holds. The entries of all other manifests stay as they are.
\<close>

theorem cache_save_load:
  assumes "cache_save sha1 Z cache d m raw fs = (Inr (), fs')"
  shows "cache_load sha1 X fs' cache d' m' =
    (if d' = d \<and> m' = m then result_ok (extract_and_parse Z X raw) else cache_load sha1 X fs cache d' m')"
  by (rule cache_load_saved [OF assms])

definition empty_manifest :: depot_manifest where
  "empty_manifest =
     \<lparr>dm_depot_id = Some (DepotId 481), dm_manifest_id = Some (ManifestId 3), dm_creation_time = Some 0,
      dm_filenames_encrypted = False, dm_total_uncompressed_size = Some 9, dm_total_compressed_size = Some 5,
      dm_files = []\<rparr>"

text \<open>The archive of \<^const>\<open>stored_codecs\<close> holds one file behind four bytes.\<close>

definition empty_manifest_zip :: bytes where
  "empty_manifest_zip = [0x50, 0x4B, 3, 4] @ v4_write (\<lambda>_. replicate 20 0)
     \<lparr>vu_chunk_count = 0, vu_file_entry_count = 0, vu_encrypted_crc = 0, vu_decrypted_crc = 0, vu_flags = 0\<rparr>
     empty_manifest"

lemma extract_empty_manifest:
  "extract_and_parse stored_codecs sample_codec empty_manifest_zip = Inr empty_manifest"
proof -
  have "v4_fits (\<lambda>_. replicate 20 0) empty_manifest"
    by (simp add: v4_fits_def empty_manifest_def)
  from parse_manifest_v4_write [OF this, of sample_codec _ "[]"] show ?thesis
    by (simp add: extract_and_parse_def extract_zip_def stored_codecs_def empty_manifest_zip_def)
qed

theorem cache_save_load_witness:
  "cache_load (\<lambda>b. Sha1Hash (take 20 b)) sample_codec
     (snd (cache_save (\<lambda>b. Sha1Hash (take 20 b)) stored_codecs (cache_default_for ''d'') (DepotId 481) (ManifestId 3)
             empty_manifest_zip \<lparr>fs_files = (\<lambda>_. None), fs_executable = {}\<rparr>))
     (cache_default_for ''d'') (DepotId 481) (ManifestId 3) = Some empty_manifest"
proof -
  let ?run = "cache_save (\<lambda>b. Sha1Hash (take 20 b)) stored_codecs (cache_default_for ''d'') (DepotId 481)
      (ManifestId 3) empty_manifest_zip \<lparr>fs_files = (\<lambda>_. None), fs_executable = {}\<rparr>"
  have "?run = (Inr (), snd ?run)"
    by (simp add: cache_save_def extract_zip_def stored_codecs_def)
  from cache_save_load [OF this, of sample_codec "DepotId 481" "ManifestId 3"] show ?thesis
    by (simp add: extract_empty_manifest)
qed

end
