(* ===== verification/App_Info.thy ===== *)
theory App_Info
  imports Services Key_Value_Text
begin

text \<open>
  What the program reads out of the app metadata: \<^verbatim>\<open>parse_app_kv\<close>, the depots, branches and
  manifests of an app, the depot filter and the resolution of a manifest id
  (\<^verbatim>\<open>crates/depotdownloader/src/main.rs\<close>). \<^verbatim>\<open>parse_text_kv\<close> and \<^verbatim>\<open>parse_binary_kv\<close> are
  those of the KeyValue theories.
\<close>

section \<open>Parsing\<close>

text \<open>Text first, then binary, whatever the bytes are.\<close>

definition parse_app_kv :: "app_info \<Rightarrow> key_value option" where
  "parse_app_kv info =
     Option.bind (ai_kv_data info) (\<lambda>kv_data.
     case Option.bind (from_utf8 kv_data) (\<lambda>text. result_ok (parse_text_kv text)) of
       Some kv \<Rightarrow> Some kv
     | None \<Rightarrow> map_option fst (result_ok (parse_binary_kv kv_data)))"

definition kv_str :: "key_value \<Rightarrow> string \<Rightarrow> string option" where
  "kv_str kv key = Option.bind (kv_get kv key) kv_as_str"

definition children_of :: "key_value option \<Rightarrow> key_value btree" where
  "children_of section = (case section of None \<Rightarrow> []
     | Some kv \<Rightarrow> (case kv_value kv of KvChildren children \<Rightarrow> children | _ \<Rightarrow> []))"

section \<open>Depots\<close>

record depot_info =
  di_id :: depot_id
  di_name :: "string option"
  di_os_list :: "string option"
  di_os_arch :: "string option"
  di_language :: "string option"
  di_depot_from_app :: "u32 option"

definition depot_info_of :: "string \<Rightarrow> key_value \<Rightarrow> depot_info option" where
  "depot_info_of key value =
     map_option (\<lambda>i.
       \<lparr>di_id = DepotId i, di_name = kv_str value ''name'', di_os_list = kv_str value ''oslist'',
        di_os_arch = kv_str value ''osarch'', di_language = kv_str value ''language'',
        di_depot_from_app = Option.bind (kv_str value ''depotfromapp'') parse_u32\<rparr>) (parse_u32 key)"

definition depots_section :: "app_info \<Rightarrow> key_value btree" where
  "depots_section info = children_of (Option.bind (parse_app_kv info) (\<lambda>kv. kv_get kv ''depots''))"

definition discover_depot_details :: "app_info list \<Rightarrow> depot_info list" where
  "discover_depot_details app_infos =
     concat (map (\<lambda>info. List.map_filter (\<lambda>(key, value). depot_info_of key value) (depots_section info)) app_infos)"

record depot_filter =
  df_os :: "string option"
  df_arch :: "string option"
  df_language :: "string option"
  df_all_platforms :: bool
  df_all_archs :: bool
  df_all_languages :: bool

text \<open>\<^verbatim>\<open>split(',')\<close>: an empty string has one empty part.\<close>

fun split_comma :: "string \<Rightarrow> string list" where
  "split_comma [] = [[]]"
| "split_comma (c # cs) =
     (if c = CHR '','' then [] # split_comma cs
      else (case split_comma cs of [] \<Rightarrow> [[c]] | w # ws \<Rightarrow> (c # w) # ws))"

definition depot_matches :: "depot_filter \<Rightarrow> depot_info \<Rightarrow> bool" where
  "depot_matches flt depot =
     (if \<not> df_all_platforms flt
         \<and> (case (df_os flt, di_os_list depot) of
              (Some filter_os, Some depot_os) \<Rightarrow>
                \<not> list_ex (\<lambda>os. eq_ignore_ascii_case os filter_os) (map trim (split_comma depot_os))
            | _ \<Rightarrow> False) then False
      else if \<not> df_all_archs flt
         \<and> (case (df_arch flt, di_os_arch depot) of
              (Some filter_arch, Some depot_arch) \<Rightarrow> \<not> eq_ignore_ascii_case depot_arch filter_arch
            | _ \<Rightarrow> False) then False
      else if \<not> df_all_languages flt
         \<and> (case (df_language flt, di_language depot) of
              (Some filter_lang, Some depot_lang) \<Rightarrow> \<not> eq_ignore_ascii_case depot_lang filter_lang
            | _ \<Rightarrow> False) then False
      else True)"

definition discover_depots_filtered :: "app_info list \<Rightarrow> depot_filter \<Rightarrow> depot_id list" where
  "discover_depots_filtered app_infos flt =
     map di_id (filter (depot_matches flt) (discover_depot_details app_infos))"

section \<open>Branches\<close>

record branch_info =
  br_name :: string
  br_build_id :: "build_id option"
  br_time_updated :: "u64 option"
  br_password_required :: bool
  br_description :: "string option"

definition branch_info_of :: "string \<Rightarrow> key_value \<Rightarrow> branch_info" where
  "branch_info_of name branch_kv =
     \<lparr>br_name = name,
      br_build_id = map_option BuildId (Option.bind (kv_str branch_kv ''buildid'') parse_u32),
      br_time_updated = Option.bind (kv_str branch_kv ''timeupdated'') parse_u64,
      br_password_required =
        (case kv_str branch_kv ''pwdrequired'' of None \<Rightarrow> False | Some v \<Rightarrow> v = ''1'' \<or> v = ''true''),
      br_description = kv_str branch_kv ''description''\<rparr>"

definition discover_branches :: "app_info list \<Rightarrow> branch_info list" where
  "discover_branches app_infos =
     concat (map (\<lambda>info.
       map (\<lambda>(name, branch_kv). branch_info_of name branch_kv)
         (children_of (Option.bind (parse_app_kv info) (\<lambda>kv.
            Option.bind (kv_get kv ''depots'') (\<lambda>d. kv_get d ''branches''))))) app_infos)"

definition discover_build_id :: "app_info list \<Rightarrow> string \<Rightarrow> build_id option" where
  "discover_build_id app_infos branch =
     Option.bind (find (\<lambda>b. br_name b = branch) (discover_branches app_infos)) br_build_id"

section \<open>Manifests\<close>

record depot_manifest_entry =
  me_depot_id :: depot_id
  me_depot_name :: "string option"
  me_manifest_id :: "manifest_id option"
  me_encrypted :: bool

text \<open>The \<^verbatim>\<open>gid\<close> of a branch in one of the two sections of a depot.\<close>

definition gid_of :: "key_value \<Rightarrow> string \<Rightarrow> string \<Rightarrow> manifest_id option" where
  "gid_of depot_kv section_name branch =
     Option.bind (kv_get depot_kv section_name) (\<lambda>m.
     Option.bind (kv_get m branch) (\<lambda>b.
     Option.bind (kv_str b ''gid'') (\<lambda>s. map_option ManifestId (parse_u64 s))))"

definition manifest_entry_of :: "string \<Rightarrow> depot_id option \<Rightarrow> string \<Rightarrow> key_value \<Rightarrow> depot_manifest_entry option" where
  "manifest_entry_of branch depot_flt key depot_kv =
     Option.bind (parse_u32 key) (\<lambda>i.
     if (case depot_flt of None \<Rightarrow> False | Some d \<Rightarrow> DepotId i \<noteq> d) then None
     else
       let manifest_id = gid_of depot_kv ''manifests'' branch;
           encrypted_manifest_id =
             (if manifest_id = None then gid_of depot_kv ''encryptedmanifests'' branch else None)
       in Some \<lparr>me_depot_id = DepotId i, me_depot_name = kv_str depot_kv ''name'',
                me_manifest_id = (case manifest_id of Some x \<Rightarrow> Some x | None \<Rightarrow> encrypted_manifest_id),
                me_encrypted = (manifest_id = None \<and> encrypted_manifest_id \<noteq> None)\<rparr>)"

definition discover_manifests_for_branch ::
  "app_info list \<Rightarrow> string \<Rightarrow> depot_id option \<Rightarrow> depot_manifest_entry list" where
  "discover_manifests_for_branch app_infos branch depot_flt =
     concat (map (\<lambda>info.
       List.map_filter (\<lambda>(key, depot_kv). manifest_entry_of branch depot_flt key depot_kv) (depots_section info))
       app_infos)"

definition find_manifest :: "depot_manifest_entry list \<Rightarrow> manifest_id option" where
  "find_manifest entries = Option.bind (find (\<lambda>e. me_manifest_id e \<noteq> None) entries) me_manifest_id"

definition discover_manifest_id :: "app_info list \<Rightarrow> depot_id \<Rightarrow> string \<Rightarrow> manifest_id option" where
  "discover_manifest_id app_infos depot_id branch =
     find_manifest (discover_manifests_for_branch app_infos branch (Some depot_id))"

section \<open>Resolution\<close>

text \<open>
  \<^verbatim>\<open>resolve_manifest_id\<close>. The check of the beta password is a request of the client; it is
  made only with a password and without a manifest, and \<open>None\<close> is a check that never
  returns. The error is the text of the message.
\<close>

definition resolve_manifest_id ::
  "'t transport_ops \<Rightarrow> crypto \<Rightarrow> client_codec \<Rightarrow> service_codec \<Rightarrow> bytes \<Rightarrow> app_info list \<Rightarrow> app_id \<Rightarrow> depot_id
    \<Rightarrow> string \<Rightarrow> string option \<Rightarrow> 't client \<Rightarrow> ((string + manifest_id) \<times> 't client) option" where
  "resolve_manifest_id T C X P random app_infos app_id depot_id branch beta_password s =
     (case discover_manifest_id app_infos depot_id branch of
        Some i \<Rightarrow> Some (Inr i, s)
      | None \<Rightarrow>
          Option.bind
            (case beta_password of
               None \<Rightarrow> Some (None, s)
             | Some password \<Rightarrow>
                 map_option (\<lambda>(r, s).
                   (case r of
                      Inl e \<Rightarrow> None
                    | Inr branches \<Rightarrow>
                        find_manifest (discover_manifests_for_branch app_infos branch (Some depot_id)), s))
                   (check_beta_password T C X P random app_id password s))
            (\<lambda>(unlocked, s).
               case unlocked of
                 Some i \<Rightarrow> Some (Inr i, s)
               | None \<Rightarrow>
                   (case (if branch \<noteq> ''public'' then discover_manifest_id app_infos depot_id ''public'' else None) of
                      Some i \<Rightarrow> Some (Inr i, s)
                    | None \<Rightarrow>
                        Some (Inl (''No manifest for depot '' @ depot_id_display depot_id @ '' on branch '' @ [CHR 0x27]
                                   @ branch @ [CHR 0x27]), s))))"

section \<open>Querying\<close>

text \<open>\<^verbatim>\<open>get_app_info\<close>: token 0 for the apps without one.\<close>

definition tokens_for :: "app_id list \<Rightarrow> access_token list \<Rightarrow> access_token list" where
  "tokens_for app_ids tokens =
     map (\<lambda>app_id. \<lparr>at_app_id = app_id,
        at_token = unwrap_or (map_option at_token (find (\<lambda>t. at_app_id t = app_id) tokens)) 0\<rparr>) app_ids"

definition get_app_info ::
  "'t transport_ops \<Rightarrow> crypto \<Rightarrow> client_codec \<Rightarrow> service_codec \<Rightarrow> bytes \<Rightarrow> bytes \<Rightarrow> app_id list \<Rightarrow> 't client
    \<Rightarrow> (app_info list steam_result \<times> 't client) option" where
  "get_app_info T C X P random1 random2 app_ids s =
     Option.bind (pics_get_access_tokens T C X P random1 app_ids s) (\<lambda>(r, s).
       case r of
         Inl e \<Rightarrow> Some (Inl e, s)
       | Inr tokens \<Rightarrow> pics_get_product_info T C X P random2 (tokens_for app_ids tokens) s)"

section \<open>Lemmas\<close>

text \<open>Trimming keeps a character that is in no white space.\<close>

lemma strip_all_snoc:
  "(\<And>w. w \<in> set ws \<Longrightarrow> c \<notin> set w) \<Longrightarrow> \<exists>t. strip_all ws (s @ [c]) = t @ [c]"
proof (induction "length s" arbitrary: s rule: less_induct)
  case less
  show ?case
  proof (cases "[] \<in> set ws \<or> strip_one ws (s @ [c]) = None")
    case True
    then show ?thesis by (auto simp: strip_all.simps [of ws "s @ [c]"])
  next
    case False
    then obtain w where w: "find (\<lambda>w. prefix w (s @ [c])) ws = Some w" and ne: "[] \<notin> set ws"
      and step: "strip_one ws (s @ [c]) = Some (drop (length w) (s @ [c]))"
      by (auto simp: strip_one_def)
    from w have "w \<in> set ws" "prefix w (s @ [c])" by (auto simp: find_Some_iff simp del: prefix_snoc)
    from less.prems [OF \<open>w \<in> set ws\<close>] have "c \<notin> set w" .
    with \<open>prefix w (s @ [c])\<close> have "prefix w s" by auto
    moreover from \<open>w \<in> set ws\<close> ne have "w \<noteq> []" by auto
    ultimately obtain u where u: "s = w @ u" "length u < length s" by (auto simp: prefix_def)
    from less.hyps [OF u(2)] less.prems strip_all_step [OF ne step] show ?thesis by (simp add: u(1))
  qed
qed

lemma trim_nul: "\<exists>t. trim (CHR 0x00 # s) = CHR 0x00 # t"
proof -
  have "\<not> white_start (CHR 0x00)" by (simp add: white_start_def white_seqs_def)
  then have "trim_start (CHR 0x00 # s) = CHR 0x00 # s" by (rule trim_start_keep)
  moreover have "CHR 0x00 \<notin> set w" if "w \<in> set (map rev white_seqs)" for w
    using that by (auto simp: white_seqs_def)
  from strip_all_snoc [OF this, of "map rev white_seqs" "rev s"]
  obtain t where "strip_all (map rev white_seqs) (rev s @ [CHR 0x00]) = t @ [CHR 0x00]" by blast
  then have "trim_end (CHR 0x00 # s) = CHR 0x00 # rev t" by (simp add: trim_end_def)
  ultimately show ?thesis by (simp add: trim_def)
qed

lemma parse_text_nul: "result_ok (parse_text_kv (CHR 0x00 # s)) = None"
proof -
  obtain t where "trim (CHR 0x00 # s) = CHR 0x00 # t" using trim_nul by blast
  moreover have "skip_whitespace_and_comments (CHR 0x00 # t) = CHR 0x00 # t"
    by (rule skip_keep) (simp_all add: white_start_def white_seqs_def)
  ultimately show ?thesis
    by (simp add: parse_text_kv_def parse_text_node.simps Let_def parse_quoted_string_def starts_with_def)
qed

lemma char_of_byte_nul: "char_of_byte 0 = CHR 0x00"
  by code_simp

lemma parse_app_kv_binary:
  assumes "kv_wf kv" "kv_value kv = KvChildren m" "ai_kv_data info = Some (kv_write kv @ t)"
  shows "parse_app_kv info = Some kv"
proof -
  obtain b' where b: "kv_write kv @ t = 0 # b'" using assms(2) by (cases kv) auto
  have "result_ok (parse_text_kv str) = None" if "from_utf8 (kv_write kv @ t) = Some str" for str
  proof -
    from that b have "str = CHR 0x00 # chars_of_bytes b'"
      by (auto simp: from_utf8_def chars_of_bytes_def char_of_byte_nul split: if_splits)
    then show ?thesis using parse_text_nul by simp
  qed
  then have "Option.bind (from_utf8 (kv_write kv @ t)) (\<lambda>text. result_ok (parse_text_kv text)) = None"
    by (cases "from_utf8 (kv_write kv @ t)") simp_all
  then show ?thesis
    using kv_roundtrip(1) [OF assms(1), of t] assms(3) by (simp add: parse_app_kv_def parse_binary_kv_def)
qed

lemma parse_app_kv_text:
  assumes "text_wf kv" "valid_str (text_write kv)" "ai_kv_data info = Some (as_bytes (text_write kv))"
  shows "parse_app_kv info = Some kv"
proof -
  have "parse_text_kv (text_write kv) = Inr kv"
    using assms(1) text_roundtrip(1) [of kv "[]"] by (simp add: parse_text_kv_def trim_text_write)
  with assms show ?thesis by (simp add: parse_app_kv_def)
qed

lemma discover_of_parsed:
  "parse_app_kv info = Some kv \<Longrightarrow> discover_manifest_id [info] d branch =
     find_manifest (List.map_filter (\<lambda>(key, depot_kv). manifest_entry_of branch (Some d) key depot_kv)
       (children_of (kv_get kv ''depots'')))"
  by (simp add: discover_manifest_id_def discover_manifests_for_branch_def depots_section_def)

definition sample_app_kv :: key_value where
  "sample_app_kv =
     KeyValue ''1'' (KvChildren [(''depots'', KeyValue ''depots'' (KvChildren
       [(''2'', KeyValue ''2'' (KvChildren [(''encryptedmanifests'', KeyValue ''encryptedmanifests'' (KvChildren
         [(''beta'', KeyValue ''beta'' (KvChildren [(''gid'', KeyValue ''gid'' (KvString ''77''))]))]))]))]))])"

definition sample_app_info :: app_info where
  "sample_app_info = \<lparr>ai_app_id = Some (AppId 1), ai_change_number = None, ai_kv_data = Some (kv_write sample_app_kv)\<rparr>"

lemma sample_names:
  "parse_u32 ''2'' = Some 2" "parse_u64 ''77'' = Some 77"
  "\<not> eq_ignore_ascii_case ''encryptedmanifests'' ''manifests''"
proof -
  have "digit_char 2 = CHR ''2''" "digit_char 7 = CHR ''7''" by code_simp+
  then have "dec_string 2 = ''2''" "dec_string 77 = ''77''" by (simp_all add: dec_string.simps)
  then show "parse_u32 ''2'' = Some 2" "parse_u64 ''77'' = Some 77"
    using parse_u32_dec_string [of 2] parse_u64_dec_string [of 77] by simp_all
qed code_simp

lemma sample_app_kv_wf: "kv_wf sample_app_kv"
proof -
  have "name_ok ''1'' \<and> name_ok ''depots'' \<and> name_ok ''2'' \<and> name_ok ''encryptedmanifests'' \<and> name_ok ''beta''
      \<and> name_ok ''gid'' \<and> name_ok ''77''"
    by code_simp
  then show ?thesis by (simp add: sample_app_kv_def btree_wf_def)
qed

section \<open>Properties\<close>

text \<open>
  The metadata of an app is understood in both forms Steam sends, with no form named: a
  section in binary form is never taken for text, whatever names and strings it holds, and
  both forms give the tree that was written.
\<close>

theorem parse_app_kv_formats:
  assumes "kv_value kv = KvChildren m"
    and "ai_kv_data info = Some (kv_write kv @ t) \<and> kv_wf kv
      \<or> ai_kv_data info = Some (as_bytes (text_write kv)) \<and> text_wf kv \<and> valid_str (text_write kv)"
  shows "parse_app_kv info = Some kv"
  using assms(2) parse_app_kv_binary [OF _ assms(1)] parse_app_kv_text by blast

theorem parse_app_kv_formats_witness: "parse_app_kv sample_app_info = Some sample_app_kv"
proof -
  obtain m where "kv_value sample_app_kv = KvChildren m" by (simp add: sample_app_kv_def)
  from parse_app_kv_formats [OF this, of sample_app_info "[]"] sample_app_kv_wf show ?thesis
    by (simp add: sample_app_info_def)
qed

text \<open>The manifest of the branch, else that of the branch public.\<close>

definition resolved :: "app_info list \<Rightarrow> depot_id \<Rightarrow> string \<Rightarrow> string + manifest_id" where
  "resolved app_infos depot_id branch =
     (case (discover_manifest_id app_infos depot_id branch, discover_manifest_id app_infos depot_id ''public'') of
        (Some i, _) \<Rightarrow> Inr i
      | (None, Some i) \<Rightarrow> Inr i
      | (None, None) \<Rightarrow> Inl (''No manifest for depot '' @ depot_id_display depot_id @ '' on branch '' @ [CHR 0x27]
                                   @ branch @ [CHR 0x27]))"

lemma resolve_manifest_id_fst:
  "map_option fst (resolve_manifest_id T C X P random app_infos app_id depot_id branch beta_password s) =
     (case (discover_manifest_id app_infos depot_id branch, beta_password) of
        (None, Some password) \<Rightarrow>
          map_option (\<lambda>_. resolved app_infos depot_id branch)
            (check_beta_password T C X P random app_id password s)
      | _ \<Rightarrow> Some (resolved app_infos depot_id branch))"
proof (cases "discover_manifest_id app_infos depot_id branch")
  case (Some i)
  then show ?thesis by (simp add: resolve_manifest_id_def resolved_def)
next
  case None
  then have "find_manifest (discover_manifests_for_branch app_infos branch (Some depot_id)) = None"
    by (simp add: discover_manifest_id_def)
  with None show ?thesis
    by (cases "check_beta_password T C X P random app_id (the beta_password) s"; cases beta_password;
        cases "branch = ''public''")
       (auto simp: resolve_manifest_id_def resolved_def split: option.splits sum.splits)
qed

lemma resolve_manifest_id_resolved:
  assumes "resolve_manifest_id T C X P random app_infos app_id depot_id branch beta_password s = Some (r, s')"
  shows "r = resolved app_infos depot_id branch"
  using resolve_manifest_id_fst [of T C X P random app_infos app_id depot_id branch beta_password s] assms
  by (auto simp: map_option_case split: option.splits)

text \<open>
  C40: The manifest resolved for a depot is the one of the branch, found in the public or in
  the encrypted section, else the one of the branch public. A beta password has no influence
  on it: its check is awaited, and the metadata is not fetched again.
\<close>

theorem resolve_manifest_id_password:
  "map_option fst (resolve_manifest_id T C X P random app_infos app_id depot_id branch beta_password s) =
     (case (discover_manifest_id app_infos depot_id branch, beta_password) of
        (None, Some password) \<Rightarrow>
          map_option (\<lambda>_. resolved app_infos depot_id branch)
            (check_beta_password T C X P random app_id password s)
      | _ \<Rightarrow> Some (resolved app_infos depot_id branch))"
  by (rule resolve_manifest_id_fst)

text \<open>
  A manifest that is listed in the section of encrypted manifests only, which the code
  documents as reachable with the password of the branch, is resolved without a password.
\<close>

theorem resolve_encrypted_without_password:
  "resolve_manifest_id T C X P random [sample_app_info] (AppId 1) (DepotId 2) ''beta'' None s
     = Some (Inr (ManifestId 77), s)"
proof -
  have "parse_app_kv sample_app_info = Some sample_app_kv" 
    using parse_app_kv_binary [OF sample_app_kv_wf, of _ sample_app_info "[]"]
    by (simp add: sample_app_info_def) (simp add: sample_app_kv_def)
  from discover_of_parsed [OF this] have "discover_manifest_id [sample_app_info] (DepotId 2) ''beta'' =
      find_manifest (List.map_filter (\<lambda>(key, depot_kv). manifest_entry_of ''beta'' (Some (DepotId 2)) key depot_kv)
        (children_of (kv_get sample_app_kv ''depots'')))" .
  also have "\<dots> = Some (ManifestId 77)"
    by (simp add: sample_app_kv_def sample_names children_of_def kv_get_def manifest_entry_of_def gid_of_def kv_str_def
        kv_as_str_def find_manifest_def Let_def map_filter_simps)
  finally have "discover_manifest_id [sample_app_info] (DepotId 2) ''beta'' = Some (ManifestId 77)" .
  then show ?thesis by (simp add: resolve_manifest_id_def)
qed

end
