(* ===== verification/Cli.thy ===== *)
theory Cli
  imports App_Info Chunk
begin

text \<open>
  The command line and the errors of the program: \<^verbatim>\<open>crates/depotdownloader/src/cli.rs\<close> with
  the modern and the compatible syntax, normalised into one record of options, and
  \<^verbatim>\<open>errors.rs\<close>. Splitting the arguments is the work of the crate \<^verbatim>\<open>clap\<close>; its results are
  the records \<open>cli\<close> and \<open>compat_cli\<close>.
\<close>

section \<open>Options\<close>

datatype output_format = Table | Json | Plain

record auth_options =
  ao_username :: "string option"
  ao_password :: "string option"
  ao_qr :: bool
  ao_remember_password :: bool
  ao_device_name :: string

record download_args =
  da_app :: u32
  da_depot :: "u32 list"
  da_manifest :: "u64 list"
  da_branch :: string
  da_beta_password :: "string option"
  da_output :: "string option"
  da_os :: "string option"
  da_arch :: "string option"
  da_language :: "string option"
  da_all_platforms :: bool
  da_all_archs :: bool
  da_all_languages :: bool
  da_filelist :: "string option"
  da_file_regex :: "string option"
  da_verify :: bool
  da_lancache :: bool
  da_login_id :: "u32 option"

record info_args =
  ia_app :: u32
  ia_format :: output_format

record manifests_args =
  ma_app :: u32
  ma_branch :: string
  ma_depot :: "u32 option"
  ma_format :: output_format

record files_args =
  fa_app :: u32
  fa_depot :: u32
  fa_manifest :: "u64 option"
  fa_branch :: string
  fa_format :: output_format
  fa_raw :: bool

record workshop_args =
  wa_pubfile :: "u64 option"
  wa_ugc :: "u64 option"
  wa_output :: "string option"

datatype command =
    CmdInfo info_args
  | CmdManifests manifests_args
  | CmdFiles files_args
  | CmdDownload download_args
  | CmdWorkshop workshop_args

record cli =
  cli_auth :: auth_options
  cli_command :: command
  cli_debug :: bool
  cli_cell_id :: "u32 option"
  cli_max_downloads :: nat
  cli_capture :: "string option"
  cli_bytes :: bool
  cli_raw_errors :: bool

record compat_cli =
  cc_username :: "string option"
  cc_password :: "string option"
  cc_qr :: bool
  cc_remember_password :: bool
  cc_app :: "u32 option"
  cc_depot :: "u32 list"
  cc_manifest :: "u64 list"
  cc_branch :: string
  cc_beta_password :: "string option"
  cc_dir :: "string option"
  cc_os :: "string option"
  cc_arch :: "string option"
  cc_language :: "string option"
  cc_all_platforms :: bool
  cc_all_archs :: bool
  cc_all_languages :: bool
  cc_max_downloads :: nat
  cc_manifest_only :: bool
  cc_cell_id :: "u32 option"
  cc_filelist :: "string option"
  cc_file_regex :: "string option"
  cc_verify :: bool
  cc_pubfile :: "u64 option"
  cc_ugc :: "u64 option"
  cc_use_lancache :: bool
  cc_login_id :: "u32 option"
  cc_debug :: bool

datatype action =
    ActInfo info_args
  | ActManifests manifests_args
  | ActFiles files_args
  | ActDownload download_args
  | ActWorkshop workshop_args

record options =
  op_auth :: auth_options
  op_action :: action
  op_debug :: bool
  op_cell_id :: "u32 option"
  op_max_downloads :: nat
  op_capture :: "string option"
  op_raw_bytes :: bool
  op_raw_errors :: bool

definition from_modern :: "cli \<Rightarrow> options" where
  "from_modern c =
     (let action =
        (case cli_command c of
           CmdInfo args \<Rightarrow> ActInfo args
         | CmdManifests args \<Rightarrow> ActManifests args
         | CmdFiles args \<Rightarrow> ActFiles args
         | CmdDownload args \<Rightarrow> ActDownload args
         | CmdWorkshop args \<Rightarrow> ActWorkshop args)
      in \<lparr>op_auth = cli_auth c, op_action = action, op_debug = cli_debug c, op_cell_id = cli_cell_id c,
          op_max_downloads = cli_max_downloads c, op_capture = cli_capture c, op_raw_bytes = cli_bytes c,
          op_raw_errors = cli_raw_errors c\<rparr>)"

definition first_of :: "'a list \<Rightarrow> 'a option" where
  "first_of xs = (case xs of [] \<Rightarrow> None | x # _ \<Rightarrow> Some x)"

definition compat_action :: "compat_cli \<Rightarrow> u32 \<Rightarrow> string + action" where
  "compat_action c app =
     (if cc_manifest_only c then
        and_then (ok_or (first_of (cc_depot c)) ''error: -depot not specified'') (\<lambda>depot.
        Inr (ActFiles \<lparr>fa_app = app, fa_depot = depot, fa_manifest = first_of (cc_manifest c),
                       fa_branch = cc_branch c, fa_format = Table, fa_raw = False\<rparr>))
      else if cc_pubfile c \<noteq> None \<or> cc_ugc c \<noteq> None then
        Inr (ActWorkshop \<lparr>wa_pubfile = cc_pubfile c, wa_ugc = cc_ugc c, wa_output = cc_dir c\<rparr>)
      else
        Inr (ActDownload
          \<lparr>da_app = app, da_depot = cc_depot c, da_manifest = cc_manifest c, da_branch = cc_branch c,
           da_beta_password = cc_beta_password c, da_output = cc_dir c, da_os = cc_os c, da_arch = cc_arch c,
           da_language = cc_language c, da_all_platforms = cc_all_platforms c, da_all_archs = cc_all_archs c,
           da_all_languages = cc_all_languages c, da_filelist = cc_filelist c, da_file_regex = cc_file_regex c,
           da_verify = cc_verify c, da_lancache = cc_use_lancache c, da_login_id = cc_login_id c\<rparr>))"

definition from_compat :: "compat_cli \<Rightarrow> string + options" where
  "from_compat c =
     (let auth = \<lparr>ao_username = cc_username c, ao_password = cc_password c, ao_qr = cc_qr c,
                  ao_remember_password = cc_remember_password c, ao_device_name = ''depotdownloader-rs''\<rparr>
      in and_then (ok_or (cc_app c) ''error: -app not specified'') (\<lambda>app.
         and_then (compat_action c app) (\<lambda>action.
         Inr \<lparr>op_auth = auth, op_action = action, op_debug = cc_debug c, op_cell_id = cc_cell_id c,
              op_max_downloads = cc_max_downloads c, op_capture = None, op_raw_bytes = False,
              op_raw_errors = False\<rparr>)))"

text \<open>\<^verbatim>\<open>Options::parse\<close>, with the two results of \<^verbatim>\<open>clap\<close>.\<close>

definition options_parse :: "(string \<Rightarrow> string option) \<Rightarrow> cli \<Rightarrow> compat_cli \<Rightarrow> string + options" where
  "options_parse env cm cc =
     (if env ''DD_COMPAT'' = Some ''1'' then from_compat cc else Inr (from_modern cm))"

section \<open>Errors\<close>

datatype cli_error =
    CliSteam steam_error
  | CliManifest manifest_error
  | CliChunk chunk_error
  | CliIo io_error_kind
  | CliJson
  | CliJoin
  | CliReqwest "u16 option"
  | CliProtobuf
  | CliRegex
  | CliOther string

definition human_message :: "cli_error \<Rightarrow> string option" where
  "human_message e =
     (case e of
        CliSteam (Http status) \<Rightarrow>
          if status = Some 401 then Some (''Access denied. This depot requires authentication.'' @ [CHR 0x0A] @ ''Try logging in with --username <user> or check that your account owns this app.'')
          else if status = Some 403 then Some (''Forbidden. The CDN rejected the request.'' @ [CHR 0x0A] @ ''The manifest request code may have expired. Try running the command again.'')
          else if status = Some 404 then Some (''Not found. The requested content does not exist on the CDN.'' @ [CHR 0x0A] @ ''The manifest ID may be wrong, or the content has been removed.'')
          else None
      | CliSteam (Connection (DepotAccessDenied _ _)) \<Rightarrow> Some (''Access denied by Steam for this depot.'' @ [CHR 0x0A] @ ''If this is a paid game, log in with --username <user>.'' @ [CHR 0x0A] @ ''If this is a free dedicated server, check the depot ID.'')
      | CliSteam (Connection (LogonFailed _)) \<Rightarrow> Some (''Login failed. Check your credentials and try again.'' @ [CHR 0x0A] @ ''If using stored credentials, delete ~/.depotdownloader/tokens.json to re-authenticate.'')
      | CliSteam (Connection (ServiceMethodFailed e)) \<Rightarrow>
          if e = EInvalidPassword then Some (''Invalid password. Check your credentials and try again.'')
          else if e = ETwoFactorRequired then Some (''This account requires two-factor authentication.'' @ [CHR 0x0A] @ ''A Steam Guard code will be requested during login.'')
          else if e = ERateLimitExceeded \<or> e = ELoginDeniedThrottle then Some (''Too many login attempts. Wait a few minutes and try again.'')
          else if e = EExpired then Some (''Session expired. Try logging in again.'')
          else None
      | CliSteam (Connection (EncryptionFailed _)) \<Rightarrow> Some (''Encryption handshake failed. The Steam server rejected our connection.'' @ [CHR 0x0A] @ ''Try again - a different server may be selected.'')
      | CliSteam (Connection Disconnected) \<Rightarrow> Some (''Disconnected from the Steam server.'' @ [CHR 0x0A] @ ''The server may be busy. Try again in a moment.'')
      | CliSteam (Connection (DnsResolutionFailed _)) \<Rightarrow> Some (''Could not resolve the server hostname.'' @ [CHR 0x0A] @ ''Check your network connection and DNS settings.'')
      | CliSteam (Io kind) \<Rightarrow>
          if kind = TimedOut then Some (''Connection timed out. The server may be unreachable.'' @ [CHR 0x0A] @ ''Check your network connection and try again.'')
          else if kind = ConnectionReset then Some (''Connection reset by the Steam server.'' @ [CHR 0x0A] @ ''Try again - a different server may be selected.'')
          else None
      | _ \<Rightarrow> None)"

definition is_auth_error :: "cli_error \<Rightarrow> bool" where
  "is_auth_error e =
     (case e of
        CliSteam (Connection (LogonFailed _)) \<Rightarrow> True
      | CliSteam (Connection (ServiceMethodFailed _)) \<Rightarrow> True
      | _ \<Rightarrow> False)"

section \<open>Sizes\<close>

text \<open>
  \<^verbatim>\<open>fmt_size\<close>: the unit is chosen on the integer; the quotient of two doubles printed with two
  digits is an argument.
\<close>

definition fmt_size :: "(nat \<Rightarrow> nat \<Rightarrow> string) \<Rightarrow> u64 \<Rightarrow> bool \<Rightarrow> string" where
  "fmt_size ratio2 bytes raw =
     (let n = unat bytes; KIB = 1024; MIB = 1024 * KIB; GIB = 1024 * MIB
      in if raw then dec_string n
         else if GIB \<le> n then ratio2 n GIB @ '' GiB''
         else if MIB \<le> n then ratio2 n MIB @ '' MiB''
         else if KIB \<le> n then ratio2 n KIB @ '' KiB''
         else dec_string n @ '' B'')"

end
