(* ===== verification/Login.thy ===== *)
theory Login
  imports Steps Services Store Cli
begin

text \<open>
  Logging in: \<^verbatim>\<open>connect_and_login\<close>, \<^verbatim>\<open>try_connect_login\<close>, \<^verbatim>\<open>do_login\<close>,
  \<^verbatim>\<open>authenticate_qr\<close> and \<^verbatim>\<open>authenticate_credentials\<close> of
  \<^verbatim>\<open>crates/depotdownloader/src/main.rs\<close>. What the user types, the RSA and QR crates, the
  encoders of the requests, the JSON of the token store and the random bytes are arguments,
  collected in a record; the k-th server that is tried has its own.
\<close>

section \<open>Arguments\<close>

record credentials_request =
  cr_account_name :: string
  cr_encrypted_password :: string
  cr_encryption_timestamp :: u64
  cr_persistence :: i32
  cr_website_id :: string
  cr_device_name :: string
  cr_platform_type :: i32
  cr_os_type :: i32

record logon_request =
  lo_protocol_version :: u32
  lo_cell_id :: u32
  lo_client_os_type :: u32
  lo_client_language :: string
  lo_access_token :: "string option"
  lo_account_name :: "string option"
  lo_should_remember_password :: "bool option"

text \<open>The uses of random bytes, and with a number those of the k-th attempt or poll.\<close>

datatype draw = SessionKey | Hello | RsaKeyCall nat | RsaPadding nat | BeginCall nat | GuardCall | PollCall nat | Logon

record ('n, 'k) login_env =
  le_random :: "draw \<Rightarrow> bytes"
  le_env :: "string \<Rightarrow> string option"
  le_password :: "nat \<Rightarrow> string + string"
  le_guard_code :: "io_error_kind + string"
  le_from_be_hex :: "string \<Rightarrow> u32 \<Rightarrow> 'n option"
  le_rsa_key :: "'n \<Rightarrow> 'n \<Rightarrow> string + 'k"
  le_rsa_encrypt :: "'k \<Rightarrow> bytes \<Rightarrow> bytes \<Rightarrow> string + bytes"
  le_base64 :: "bytes \<Rightarrow> string"
  le_qr_code :: "string \<Rightarrow> string + unit"
  le_enc_credentials :: "credentials_request \<Rightarrow> bytes"
  le_enc_qr :: "string \<Rightarrow> i32 \<Rightarrow> bytes"
  le_enc_logon :: "logon_request \<Rightarrow> bytes"
  le_tokens_from_str :: "string \<Rightarrow> token_store option"
  le_tokens_to_str :: "token_store \<Rightarrow> string option"

section \<open>Passwords\<close>

definition MAX_PASSWORD_ATTEMPTS :: nat where
  "MAX_PASSWORD_ATTEMPTS = 3"

text \<open>The password of the command line is used once, later ones are read from the terminal.\<close>

definition password_for :: "('n, 'k) login_env \<Rightarrow> options \<Rightarrow> nat \<Rightarrow> cli_error + string" where
  "password_for E opts attempts =
     (case ao_password (op_auth opts) of
        Some p \<Rightarrow>
          if attempts = 1 then Inr p
          else map_err (\<lambda>e. CliOther (''failed to read password: '' @ e)) (le_password E attempts)
      | None \<Rightarrow> map_err (\<lambda>e. CliOther (''failed to read password: '' @ e)) (le_password E attempts))"

definition encrypt_password ::
  "('n, 'k) login_env \<Rightarrow> nat \<Rightarrow> string \<Rightarrow> rsa_key_response \<Rightarrow> cli_error + (string \<times> u64)" where
  "encrypt_password E attempts password rsa_response =
     and_then (ok_or (rk_mod rsa_response) (CliOther ''missing RSA modulus'')) (\<lambda>modulus.
     and_then (ok_or (rk_exp rsa_response) (CliOther ''missing RSA exponent'')) (\<lambda>exponent.
     and_then (ok_or (rk_timestamp rsa_response) (CliOther ''missing RSA timestamp'')) (\<lambda>timestamp.
     and_then (ok_or (le_from_be_hex E modulus (of_nat (length modulus) * 4)) (CliOther ''invalid RSA modulus hex'')) (\<lambda>n.
     and_then (ok_or (le_from_be_hex E exponent (of_nat (length exponent) * 4)) (CliOther ''invalid RSA exponent hex'')) (\<lambda>e.
     and_then (map_err (\<lambda>m. CliOther (''invalid RSA key: '' @ m)) (le_rsa_key E n e)) (\<lambda>public_key.
     and_then (map_err (\<lambda>m. CliOther (''RSA encryption failed: '' @ m))
        (le_rsa_encrypt E public_key (le_random E (RsaPadding attempts)) (as_bytes password))) (\<lambda>encrypted_password.
     Inr (le_base64 E encrypted_password, timestamp))))))))"

definition begin_request :: "options \<Rightarrow> string \<Rightarrow> string \<Rightarrow> u64 \<Rightarrow> credentials_request" where
  "begin_request opts username encrypted_password timestamp =
     \<lparr>cr_account_name = username, cr_encrypted_password = encrypted_password, cr_encryption_timestamp = timestamp,
      cr_persistence = persistence_i32 Persistent, cr_website_id = ''Client'',
      cr_device_name = ao_device_name (op_auth opts), cr_platform_type = platform_type_i32 PT_SteamClient,
      cr_os_type = os_type_i32 Windows11\<rparr>"

text \<open>One pass of the loop; the outcome of the last call is a value, it decides about the next pass.\<close>

definition password_attempt ::
  "'t transport_ops \<Rightarrow> crypto \<Rightarrow> client_codec \<Rightarrow> service_codec \<Rightarrow> ('n, 'k) login_env \<Rightarrow> options \<Rightarrow> string \<Rightarrow> nat
    \<Rightarrow> 't client \<Rightarrow> (cli_error, auth_session steam_result, 't client) run" where
  "password_attempt T C X P E opts username attempts s =
     then_do (give (password_for E opts attempts) s) (\<lambda>password s.
     then_do (with_err CliSteam (get_password_rsa_public_key T C X P (le_random E (RsaKeyCall attempts)) username s))
       (\<lambda>rsa_response s.
     then_do (give (encrypt_password E attempts password rsa_response) s) (\<lambda>(encrypted_password, timestamp) s.
     map_option (\<lambda>(r, s). (Inr r, s))
       (begin_auth_session_via_credentials T C X P (le_random E (BeginCall attempts))
          (le_enc_credentials E (begin_request opts username encrypted_password timestamp)) s))))"

definition invalid_password :: steam_error where
  "invalid_password = Connection (ServiceMethodFailed EInvalidPassword)"

text \<open>The loop, with the number of passes already made.\<close>

function begin_session ::
  "'t transport_ops \<Rightarrow> crypto \<Rightarrow> client_codec \<Rightarrow> service_codec \<Rightarrow> ('n, 'k) login_env \<Rightarrow> options \<Rightarrow> string \<Rightarrow> nat
    \<Rightarrow> 't client \<Rightarrow> (cli_error, auth_session, 't client) run" where
  "begin_session T C X P E opts username attempts s =
     (case password_attempt T C X P E opts username (attempts + 1) s of
        None \<Rightarrow> None
      | Some (Inl e, s) \<Rightarrow> Some (Inl e, s)
      | Some (Inr (Inr session), s) \<Rightarrow> Some (Inr session, s)
      | Some (Inr (Inl e), s) \<Rightarrow>
          if e = invalid_password \<and> attempts + 1 < MAX_PASSWORD_ATTEMPTS
          then begin_session T C X P E opts username (attempts + 1) s
          else Some (Inl (CliSteam e), s))"
  by pat_completeness auto
termination
  by (relation "measure (\<lambda>(T, C, X, P, E, opts, username, attempts, s). MAX_PASSWORD_ATTEMPTS - attempts)") auto

declare begin_session.simps [simp del]

section \<open>Guard codes and polling\<close>

text \<open>The first code that is asked for is submitted; a confirmation on the phone is only announced.\<close>

fun handle_guard ::
  "'t transport_ops \<Rightarrow> crypto \<Rightarrow> client_codec \<Rightarrow> service_codec \<Rightarrow> ('n, 'k) login_env \<Rightarrow> u64 \<Rightarrow> u64 \<Rightarrow> guard_type list
    \<Rightarrow> 't client \<Rightarrow> (cli_error, unit, 't client) run" where
  "handle_guard T C X P E client_id steam_id [] s = Some (Inr (), s)"
| "handle_guard T C X P E client_id steam_id (confirmation # rest) s =
     (if confirmation = DeviceCode \<or> confirmation = EmailCode then
        then_do (give (map_err CliIo (le_guard_code E)) s) (\<lambda>code s.
        with_err CliSteam (submit_steam_guard_code T C X P (le_random E GuardCall) client_id steam_id (trim code) confirmation s))
      else handle_guard T C X P E client_id steam_id rest s)"

text \<open>
  \<^verbatim>\<open>Duration::from_secs_f32\<close> panics on a negative number, on \<^verbatim>\<open>NaN\<close> and from \<open>2^64\<close>
  seconds on; the number is given by its bits. The default is 5.0.
\<close>

definition interval_ok :: "u32 \<Rightarrow> bool" where
  "interval_ok b \<longleftrightarrow> b = 0x80000000 \<or> b < 0x5F800000"

definition poll_interval :: "u32 option \<Rightarrow> u32" where
  "poll_interval interval = unwrap_or interval 0x40A00000"

text \<open>Polling, from the n-th poll on; a panic and an endless run are \<open>None\<close>.\<close>

partial_function (option) poll_loop ::
  "'t transport_ops \<Rightarrow> crypto \<Rightarrow> client_codec \<Rightarrow> service_codec \<Rightarrow> ('n, 'k) login_env \<Rightarrow> u32 option \<Rightarrow> u64 \<Rightarrow> bytes
    \<Rightarrow> nat \<Rightarrow> 't client \<Rightarrow> (cli_error, string, 't client) run" where
  "poll_loop T C X P E interval client_id request_id n s =
     (if \<not> interval_ok (poll_interval interval) then None
      else
        Option.bind (poll_auth_session T C X P (le_random E (PollCall n)) client_id request_id s) (\<lambda>(r, s).
          case r of
            Inl e \<Rightarrow> Some (Inl (CliSteam e), s)
          | Inr (Some tokens) \<Rightarrow> Some (Inr (tk_refresh_token tokens), s)
          | Inr None \<Rightarrow> poll_loop T C X P E interval client_id request_id (n + 1) s))"

definition authenticate_credentials ::
  "'t transport_ops \<Rightarrow> crypto \<Rightarrow> client_codec \<Rightarrow> service_codec \<Rightarrow> ('n, 'k) login_env \<Rightarrow> string \<Rightarrow> options
    \<Rightarrow> 't client \<Rightarrow> (cli_error, string, 't client) run" where
  "authenticate_credentials T C X P E username opts s =
     then_do (begin_session T C X P E opts username 0 s) (\<lambda>session s.
     then_do (give (ok_or (as_client_id session) (CliOther ''missing client_id in auth session'')) s) (\<lambda>client_id s.
     then_do (give (ok_or (as_request_id session) (CliOther ''missing request_id'')) s) (\<lambda>request_id s.
     then_do (give (ok_or (as_steam_id session) (CliOther ''missing steam_id'')) s) (\<lambda>steam_id s.
     then_do (handle_guard T C X P E client_id steam_id (as_allowed_confirmations session) s) (\<lambda>_ s.
     poll_loop T C X P E (as_poll_interval session) client_id request_id 0 s)))))"

definition authenticate_qr ::
  "'t transport_ops \<Rightarrow> crypto \<Rightarrow> client_codec \<Rightarrow> service_codec \<Rightarrow> ('n, 'k) login_env \<Rightarrow> options
    \<Rightarrow> 't client \<Rightarrow> (cli_error, string, 't client) run" where
  "authenticate_qr T C X P E opts s =
     then_do (with_err CliSteam (begin_auth_session_via_qr T C X P (le_random E (BeginCall 0))
        (le_enc_qr E (ao_device_name (op_auth opts)) (platform_type_i32 PT_WebBrowser)) s)) (\<lambda>session s.
     then_do (give (ok_or (qs_challenge_url session) (CliOther ''no QR challenge URL'')) s) (\<lambda>challenge_url s.
     then_do (give (ok_or (qs_client_id session) (CliOther ''no client_id'')) s) (\<lambda>client_id s.
     then_do (give (ok_or (qs_request_id session) (CliOther ''no request_id'')) s) (\<lambda>request_id s.
     then_do (give (map_err (\<lambda>e. CliOther (''Failed to generate QR code: '' @ e)) (le_qr_code E challenge_url)) s) (\<lambda>_ s.
     poll_loop T C X P E (qs_poll_interval session) client_id request_id 0 s)))))"

section \<open>Logging on\<close>

text \<open>The fields that every login sets, and the message with the identity it asks for.\<close>

definition logon_request :: "options \<Rightarrow> logon_request" where
  "logon_request opts =
     \<lparr>lo_protocol_version = PROTOCOL_VERSION, lo_cell_id = unwrap_or (op_cell_id opts) 0,
      lo_client_os_type = ucast (os_type_i32 Windows11), lo_client_language = ''english'',
      lo_access_token = None, lo_account_name = None, lo_should_remember_password = None\<rparr>"

definition build_logon_body :: "('n, 'k) login_env \<Rightarrow> options \<Rightarrow> bytes" where
  "build_logon_body E opts =
     le_enc_logon E ((logon_request opts)\<lparr>lo_account_name := ao_username (op_auth opts)\<rparr>)"

definition logon_msg :: "e_account_type \<Rightarrow> bytes \<Rightarrow> client_msg" where
  "logon_msg ty logon_body =
     (client_msg_with_body EMSG_CLIENT_LOGON logon_body)
       \<lparr>cm_header := default_header
          \<lparr>ch_steamid := Some (steam_id_raw (steam_id_from_parts (universe_u8 UV_Public) (account_type_u8 ty) 0 0)),
           ch_client_sessionid := Some 0\<rparr>\<rparr>"

text \<open>The refresh token of a user: the stored one, or a new one that may be stored.\<close>

definition obtain_token ::
  "'t transport_ops \<Rightarrow> crypto \<Rightarrow> client_codec \<Rightarrow> service_codec \<Rightarrow> ('n, 'k) login_env \<Rightarrow> string \<Rightarrow> options
    \<Rightarrow> 't client \<times> file_system \<Rightarrow> (cli_error, string, 't client \<times> file_system) run" where
  "obtain_token T C X P E username opts sf =
     (let (s, fs) = sf;
          token_path = token_default_path (le_env E);
          store = token_store_load (le_tokens_from_str E) fs token_path
      in case token_get store username of
           Some stored \<Rightarrow> Some (Inr stored, s, fs)
         | None \<Rightarrow>
             then_do (beside fs (authenticate_credentials T C X P E username opts s)) (\<lambda>token (s, fs).
               Some (Inr token, s,
                 if ao_remember_password (op_auth opts)
                 then snd (token_store_save (le_tokens_to_str E) (token_set username token store) token_path fs)
                 else fs)))"

definition do_login ::
  "'t transport_ops \<Rightarrow> crypto \<Rightarrow> client_codec \<Rightarrow> service_codec \<Rightarrow> ('n, 'k) login_env \<Rightarrow> options
    \<Rightarrow> 't client \<times> file_system \<Rightarrow> (cli_error, unit, 't client \<times> file_system) run" where
  "do_login T C X P E opts sf =
     then_do (beside (snd sf) (with_err CliSteam (encrypt T C X (le_random E SessionKey) (le_random E Hello) (fst sf)))) (\<lambda>_ sf.
     then_do
       (case ao_username (op_auth opts) of
          Some username \<Rightarrow>
            then_do (obtain_token T C X P E username opts sf) (\<lambda>access_token sf.
            Some (Inr (logon_msg AT_Individual (le_enc_logon E ((logon_request opts)
              \<lparr>lo_access_token := Some access_token, lo_account_name := Some username,
               lo_should_remember_password := Some (ao_remember_password (op_auth opts))\<rparr>))), sf))
        | None \<Rightarrow>
            if ao_qr (op_auth opts) then
              then_do (beside (snd sf) (authenticate_qr T C X P E opts (fst sf))) (\<lambda>access_token sf.
              Some (Inr (logon_msg AT_Individual (le_enc_logon E ((logon_request opts)
                \<lparr>lo_access_token := Some access_token\<rparr>))), sf))
            else Some (Inr (logon_msg AT_AnonUser (build_logon_body E opts)), sf)) (\<lambda>msg sf.
     then_do (beside (snd sf) (with_err CliSteam (login T C X (le_random E Logon) msg (fst sf)))) (\<lambda>_ sf.
     Some (Inr (), sf))))"

section \<open>Servers\<close>

text \<open>The client holds its transport behind \<^verbatim>\<open>dyn Transport\<close>: TCP or a recording of it.\<close>

datatype dyn_transport = DynTcp tcp_stream | DynRecording "tcp_stream recording"

definition dyn_ops :: "(bytes \<Rightarrow> string) \<Rightarrow> dyn_transport transport_ops" where
  "dyn_ops base64 =
     \<lparr>t_send = (\<lambda>payload t. case t of
        DynTcp s \<Rightarrow> apsnd DynTcp (t_send tcp_ops payload s)
      | DynRecording r \<Rightarrow> apsnd DynRecording (t_send (recording_ops base64 tcp_ops) payload r)),
      t_recv = (\<lambda>t. case t of
        DynTcp s \<Rightarrow> apsnd DynTcp (t_recv tcp_ops s)
      | DynRecording r \<Rightarrow> apsnd DynRecording (t_recv (recording_ops base64 tcp_ops) r))\<rparr>"

definition open_transport ::
  "network \<Rightarrow> (cm_server_addr \<Rightarrow> string) \<Rightarrow> cm_server \<Rightarrow> options \<Rightarrow> dyn_transport steam_result" where
  "open_transport N addr_debug server opts =
     map_ok (\<lambda>tcp.
       case op_capture opts of
         None \<Rightarrow> DynTcp tcp
       | Some path \<Rightarrow> DynRecording (recording_new tcp path (''capture from '' @ addr_debug (sv_addr server))))
       (tcp_connect N server)"

text \<open>Dropping a client that records writes the capture if it holds a packet.\<close>

definition drop_transport :: "(capture_file \<Rightarrow> string option) \<Rightarrow> dyn_transport \<Rightarrow> file_system \<Rightarrow> file_system" where
  "drop_transport to_json t fs =
     (case t of
        DynTcp _ \<Rightarrow> fs
      | DynRecording r \<Rightarrow>
          if cf_packets (rc_capture r) = [] then fs
          else (case to_json (rc_capture r) of
                  None \<Rightarrow> fs | Some json \<Rightarrow> write_file (rc_output_path r) (as_bytes json) fs))"

text \<open>The receiver of the events lives as long as \<^verbatim>\<open>try_connect_login\<close> runs.\<close>

definition try_connect_login ::
  "network \<Rightarrow> (cm_server_addr \<Rightarrow> string) \<Rightarrow> (bytes \<Rightarrow> string) \<Rightarrow> (capture_file \<Rightarrow> string option)
    \<Rightarrow> crypto \<Rightarrow> client_codec \<Rightarrow> service_codec \<Rightarrow> ('n, 'k) login_env \<Rightarrow> cm_server \<Rightarrow> options
    \<Rightarrow> file_system \<Rightarrow> (cli_error, dyn_transport client, file_system) run" where
  "try_connect_login N addr_debug base64 to_json C X P E server opts fs =
     (case open_transport N addr_debug server opts of
        Inl e \<Rightarrow> Some (Inl (CliSteam e), fs)
      | Inr t \<Rightarrow>
          map_option (\<lambda>(r, s, fs).
            case r of
              Inl e \<Rightarrow> (Inl e, drop_transport to_json (cl_transport s) fs)
            | Inr _ \<Rightarrow> (Inr (s\<lparr>cl_event_open := False\<rparr>), fs))
            (do_login (dyn_ops base64) C X P E opts (connect t, fs)))"

fun try_servers ::
  "(nat \<Rightarrow> cm_server \<Rightarrow> file_system \<Rightarrow> (cli_error, 'c, file_system) run) \<Rightarrow> nat \<Rightarrow> cli_error option
    \<Rightarrow> cm_server list \<Rightarrow> file_system \<Rightarrow> (cli_error, 'c, file_system) run" where
  "try_servers attempt i last_err [] fs =
     Some (Inl (unwrap_or last_err (CliOther ''No CM servers available'')), fs)"
| "try_servers attempt i last_err (server # servers) fs =
     (case attempt i server fs of
        None \<Rightarrow> None
      | Some (Inr c, fs) \<Rightarrow> Some (Inr c, fs)
      | Some (Inl e, fs) \<Rightarrow>
          if is_auth_error e then Some (Inl e, fs) else try_servers attempt (i + 1) (Some e) servers fs)"

definition connect_and_login ::
  "network \<Rightarrow> (bytes \<Rightarrow> json steam_result) \<Rightarrow> (cm_server_addr \<Rightarrow> string) \<Rightarrow> (bytes \<Rightarrow> string)
    \<Rightarrow> (capture_file \<Rightarrow> string option) \<Rightarrow> crypto \<Rightarrow> client_codec \<Rightarrow> service_codec \<Rightarrow> (nat \<Rightarrow> ('n, 'k) login_env)
    \<Rightarrow> options \<Rightarrow> file_system \<Rightarrow> (cli_error, dyn_transport client, file_system) run" where
  "connect_and_login N parse_json addr_debug base64 to_json C X P E opts fs =
     (let servers = discover_servers N parse_json (CellId (unwrap_or (op_cell_id opts) 0))
      in if servers = [] then Some (Inl (CliOther ''No CM servers available''), fs)
         else try_servers (\<lambda>i server. try_connect_login N addr_debug base64 to_json C X P (E i) server opts)
                0 None servers fs)"

end
