(* ===== verification/Depot_Run.thy ===== *)
theory Depot_Run
  imports Login Download
begin

text \<open>
  The download command: \<^verbatim>\<open>run_download\<close> of \<^verbatim>\<open>crates/depotdownloader/src/main.rs\<close>, which puts
  the client, the CDN, the manifest cache, the record of installed manifests and the
  downloader together. The third-party tools are one record of arguments, what the network
  answers while a depot is processed and the orders of its tasks another one per depot.
  The events go to a progress renderer, which only draws.
\<close>

section \<open>Arguments\<close>

record ('r, 'a, 'e) tools =
  tl_sha1 :: "bytes \<Rightarrow> sha1_hash"
  tl_manifest_codec :: manifest_codec
  tl_codecs :: "('a, 'e) codecs"
  tl_base64_decode :: "string \<Rightarrow> bytes option"
  tl_build_regex :: "string \<Rightarrow> 'r option"
  tl_regex_error :: "string \<Rightarrow> string"
  tl_is_match :: "'r \<Rightarrow> string \<Rightarrow> bool"
  tl_error_text :: "steam_error \<Rightarrow> string"
  tl_box_text :: "box_error \<Rightarrow> string"
  tl_config_from_str :: "string \<Rightarrow> depot_config option"
  tl_config_to_str :: "depot_config \<Rightarrow> string option"

datatype depot_draw = DepotKeyCall | BetaPasswordCall | RequestCodeCall | AuthTokenCall

record depot_env =
  pe_random :: "depot_draw \<Rightarrow> bytes"
  pe_http :: "string \<Rightarrow> string option \<Rightarrow> steam_error + bytes"
  pe_chunk_http :: "nat \<Rightarrow> nat \<Rightarrow> string \<Rightarrow> string option \<Rightarrow> steam_error + bytes"
  pe_task_order :: "nat \<Rightarrow> nat list"
  pe_chunk_order :: "nat \<Rightarrow> nat \<Rightarrow> nat list"

section \<open>Chunks from the CDN\<close>

text \<open>
  \<^verbatim>\<open>CdnChunkFetcher\<close>: the answers of the network to the k-th attempt of a task are given;
  the error is boxed.
\<close>

definition cdn_chunk_fetcher ::
  "(steam_error \<Rightarrow> string) \<Rightarrow> (nat \<Rightarrow> nat \<Rightarrow> string \<Rightarrow> string option \<Rightarrow> steam_error + bytes) \<Rightarrow> cdn_client \<Rightarrow> cdn_server
    \<Rightarrow> string option \<Rightarrow> nat \<Rightarrow> nat \<Rightarrow> depot_id \<Rightarrow> chunk_id \<Rightarrow> box_error + bytes" where
  "cdn_chunk_fetcher error_text answers cdn server cdn_auth_token task attempt depot_id chunk_id =
     map_err (\<lambda>e. FetchError (error_text e))
       (download_chunk (cdn\<lparr>cdn_http := answers task attempt\<rparr>) server depot_id chunk_id cdn_auth_token)"

definition builder_cdn where
  "builder_cdn error_text answers cdn server cdn_auth_token b =
     builder_fetcher (cdn_chunk_fetcher error_text answers cdn server cdn_auth_token) b"

section \<open>One depot\<close>

text \<open>The manifest: from the cache, else from the CDN and into the cache.\<close>

definition obtain_manifest ::
  "('r, 'a, 'e) tools \<Rightarrow> cdn_client \<Rightarrow> cdn_server \<Rightarrow> manifest_cache \<Rightarrow> depot_id \<Rightarrow> manifest_id \<Rightarrow> u64 \<Rightarrow> string option
    \<Rightarrow> file_system \<Rightarrow> (cli_error + depot_manifest) \<times> file_system" where
  "obtain_manifest L cdn server cache depot_id manifest_id request_code cdn_token fs =
     (case cache_load (tl_sha1 L) (tl_manifest_codec L) fs cache depot_id manifest_id of
        Some cached \<Rightarrow> (Inr cached, fs)
      | None \<Rightarrow>
          (case download_manifest cdn server depot_id manifest_id request_code cdn_token of
             Inl e \<Rightarrow> (Inl (CliSteam e), fs)
           | Inr manifest_bytes \<Rightarrow>
               (map_err CliManifest (extract_and_parse (tl_codecs L) (tl_manifest_codec L) manifest_bytes),
                snd (cache_save (tl_sha1 L) (tl_codecs L) cache depot_id manifest_id manifest_bytes fs))))"

definition decrypt_manifest ::
  "('r, 'a, 'e) tools \<Rightarrow> crypto \<Rightarrow> depot_key \<Rightarrow> depot_manifest \<Rightarrow> cli_error + depot_manifest" where
  "decrypt_manifest L C depot_key manifest =
     (if dm_filenames_encrypted manifest
      then (case decrypt_filenames C (tl_base64_decode L) depot_key manifest of
              (Inl e, _) \<Rightarrow> Inl (CliManifest e)
            | (Inr _, manifest) \<Rightarrow> Inr manifest)
      else Inr manifest)"

definition file_filter_of ::
  "('r, 'a, 'e) tools \<Rightarrow> download_args \<Rightarrow> file_system \<Rightarrow> cli_error + 'r file_filter option" where
  "file_filter_of L args fs =
     (case da_filelist args of
        Some path \<Rightarrow> map_ok Some (map_err CliIo (from_filelist (tl_build_regex L) fs path))
      | None \<Rightarrow>
          (case da_file_regex args of
             Some pattern \<Rightarrow>
               map_ok Some (ok_or (from_regex (tl_build_regex L) pattern)
                 (CliOther (''Invalid regex: '' @ tl_regex_error L pattern)))
           | None \<Rightarrow> Inr None))"

definition install_dir_of :: "bool \<Rightarrow> string \<Rightarrow> depot_id \<Rightarrow> build_id option \<Rightarrow> string" where
  "install_dir_of custom_output base_dir depot_id build_id =
     (if custom_output then base_dir
      else
        let p = path_join base_dir (depot_id_display depot_id)
        in case build_id of Some bid \<Rightarrow> path_join p (build_id_display bid) | None \<Rightarrow> p)"

definition previous_manifest_of ::
  "('r, 'a, 'e) tools \<Rightarrow> manifest_cache \<Rightarrow> depot_id \<Rightarrow> manifest_id \<Rightarrow> manifest_id option \<Rightarrow> file_system
    \<Rightarrow> depot_manifest option" where
  "previous_manifest_of L cache depot_id manifest_id installed_id fs =
     Option.bind (Option.bind installed_id (\<lambda>old_id. if old_id \<noteq> manifest_id then Some old_id else None)) (\<lambda>old_id.
     cache_load (tl_sha1 L) (tl_manifest_codec L) fs cache depot_id old_id)"

definition depot_job_of ::
  "('r, 'a, 'e) tools \<Rightarrow> depot_env \<Rightarrow> cdn_client \<Rightarrow> cdn_server \<Rightarrow> string option \<Rightarrow> nat \<Rightarrow> download_args \<Rightarrow> depot_id
    \<Rightarrow> depot_key \<Rightarrow> string \<Rightarrow> 'r file_filter option \<Rightarrow> depot_manifest option \<Rightarrow> string + 'r depot_job" where
  "depot_job_of L E cdn server cdn_token max_downloads args depot_id depot_key install_dir file_filter previous_manifest =
     build_job
       (builder_previous_manifest previous_manifest
       (builder_file_filter file_filter
       (builder_verify (da_verify args)
       (builder_event_sender
       (builder_max_downloads max_downloads
       (builder_install_dir install_dir
       (builder_depot_key depot_key
       (builder_depot_id depot_id
       (builder_cdn (tl_error_text L) (pe_chunk_http E) cdn server cdn_token
        default_builder)))))))))"

text \<open>From the manifest on: everything that works on the files.\<close>

definition install_manifest ::
  "('r, 'a, 'e) tools \<Rightarrow> depot_env \<Rightarrow> crypto \<Rightarrow> cdn_client \<Rightarrow> cdn_server \<Rightarrow> string option \<Rightarrow> nat \<Rightarrow> download_args
    \<Rightarrow> string \<Rightarrow> bool \<Rightarrow> build_id option \<Rightarrow> depot_id \<Rightarrow> depot_key \<Rightarrow> manifest_id \<Rightarrow> depot_manifest
    \<Rightarrow> file_system \<Rightarrow> (cli_error + unit) \<times> file_system" where
  "install_manifest L E C cdn server cdn_token max_downloads args base_dir custom_output build_id depot_id depot_key
     manifest_id manifest fs =
     (case file_filter_of L args fs of
        Inl e \<Rightarrow> (Inl e, fs)
      | Inr file_filter \<Rightarrow>
          let config_path = config_path_for base_dir;
              installed_id = get_installed (depot_config_load (tl_config_from_str L) fs config_path) depot_id
          in if installed_id = Some manifest_id \<and> \<not> da_verify args then (Inr (), fs)
             else
               (case depot_job_of L E cdn server cdn_token max_downloads args depot_id depot_key
                       (install_dir_of custom_output base_dir depot_id build_id) file_filter
                       (previous_manifest_of L (cache_default_for base_dir) depot_id manifest_id installed_id fs) of
                  Inl m \<Rightarrow> (Inl (CliOther m), fs)
                | Inr job \<Rightarrow>
                    (case download C (tl_codecs L) (tl_is_match L) job (pe_task_order E) (pe_chunk_order E) manifest fs of
                       (Inl e, _, fs) \<Rightarrow> (Inl (CliOther (tl_box_text L e)), fs)
                     | (Inr _, _, fs) \<Rightarrow>
                         (Inr (), snd (depot_config_save (tl_config_to_str L)
                            (set_installed depot_id manifest_id (depot_config_load (tl_config_from_str L) fs config_path))
                            config_path fs)))))"

definition install_depot ::
  "('r, 'a, 'e) tools \<Rightarrow> depot_env \<Rightarrow> crypto \<Rightarrow> cdn_client \<Rightarrow> cdn_server \<Rightarrow> u64 \<Rightarrow> string option \<Rightarrow> nat
    \<Rightarrow> download_args \<Rightarrow> string \<Rightarrow> bool \<Rightarrow> build_id option \<Rightarrow> depot_id \<Rightarrow> depot_key \<Rightarrow> manifest_id
    \<Rightarrow> file_system \<Rightarrow> (cli_error + unit) \<times> file_system" where
  "install_depot L E C cdn server request_code cdn_token max_downloads args base_dir custom_output build_id depot_id
     depot_key manifest_id fs =
     (case obtain_manifest L (cdn\<lparr>cdn_http := pe_http E\<rparr>) server (cache_default_for base_dir) depot_id manifest_id
             request_code cdn_token fs of
        (Inl e, fs) \<Rightarrow> (Inl e, fs)
      | (Inr manifest, fs) \<Rightarrow>
          (case decrypt_manifest L C depot_key manifest of
             Inl e \<Rightarrow> (Inl e, fs)
           | Inr manifest \<Rightarrow>
               install_manifest L E C cdn server cdn_token max_downloads args base_dir custom_output build_id depot_id
                 depot_key manifest_id manifest fs))"

text \<open>One pass of the loop over the depots. A CDN token that is not available is no error.\<close>

definition process_depot ::
  "('r, 'a, 'e) tools \<Rightarrow> depot_env \<Rightarrow> 't transport_ops \<Rightarrow> crypto \<Rightarrow> client_codec \<Rightarrow> service_codec \<Rightarrow> app_info list
    \<Rightarrow> cdn_client \<Rightarrow> cdn_server \<Rightarrow> nat \<Rightarrow> download_args \<Rightarrow> string \<Rightarrow> bool \<Rightarrow> build_id option
    \<Rightarrow> (depot_id \<Rightarrow> manifest_id option) \<Rightarrow> depot_id
    \<Rightarrow> 't client \<times> file_system \<Rightarrow> (cli_error, unit, 't client \<times> file_system) run" where
  "process_depot L E T C X P app_infos cdn server max_downloads args base_dir custom_output build_id explicit_manifests
     depot_id sf =
     (let app_id = AppId (da_app args)
      in
      then_do (beside (snd sf) (with_err CliSteam
          (get_depot_decryption_key T C X P (pe_random E DepotKeyCall) depot_id app_id (fst sf)))) (\<lambda>depot_key sf.
      then_do (case explicit_manifests depot_id of
            Some i \<Rightarrow> give (Inr i) sf
          | None \<Rightarrow> beside (snd sf) (with_err CliOther
              (resolve_manifest_id T C X P (pe_random E BetaPasswordCall) app_infos app_id depot_id (da_branch args)
                 (da_beta_password args) (fst sf)))) (\<lambda>manifest_id sf.
      then_do (beside (snd sf) (with_err CliSteam
          (get_manifest_request_code T C X P (pe_random E RequestCodeCall) app_id depot_id manifest_id
             (Some (da_branch args)) None (fst sf)))) (\<lambda>request_code sf.
      then_do (beside (snd sf) (map_option (\<lambda>(r, s). (Inr (case r of Inl _ \<Rightarrow> None | Inr auth \<Rightarrow> ct_token auth), s))
          (get_cdn_auth_token T C X P (pe_random E AuthTokenCall) app_id depot_id (cs_host server) (fst sf)))) (\<lambda>cdn_token (s, fs).
      (case install_depot L E C cdn server (unwrap_or request_code 0) cdn_token max_downloads args base_dir custom_output
              build_id depot_id depot_key manifest_id fs of
         (r, fs) \<Rightarrow> Some (r, s, fs)))))))"

section \<open>The command\<close>

definition filter_of_args :: "download_args \<Rightarrow> depot_filter" where
  "filter_of_args args =
     \<lparr>df_os = da_os args, df_arch = da_arch args, df_language = da_language args,
      df_all_platforms = da_all_platforms args, df_all_archs = da_all_archs args,
      df_all_languages = da_all_languages args\<rparr>"

definition depots_of :: "download_args \<Rightarrow> app_info list \<Rightarrow> depot_id list" where
  "depots_of args app_infos =
     (if da_depot args = [] then discover_depots_filtered app_infos (filter_of_args args)
      else map DepotId (da_depot args))"

text \<open>Collecting into a hash map: of several manifests for a depot the last one counts.\<close>

definition explicit_manifests_of :: "download_args \<Rightarrow> depot_id list \<Rightarrow> depot_id \<Rightarrow> manifest_id option" where
  "explicit_manifests_of args depot_ids = map_of (rev (zip depot_ids (map ManifestId (da_manifest args))))"

text \<open>The CDN client and the number of parallel downloads.\<close>

definition cdn_of :: "network \<Rightarrow> options \<Rightarrow> download_args \<Rightarrow> cdn_client \<times> nat" where
  "cdn_of N opts args =
     (if da_lancache args \<and> lancache_detect N
      then (with_lancache (cdn_new N), if op_max_downloads opts = 8 then 25 else op_max_downloads opts)
      else (cdn_new N, op_max_downloads opts))"

fun for_depots ::
  "(nat \<Rightarrow> depot_id \<Rightarrow> 's \<Rightarrow> (cli_error, unit, 's) run) \<Rightarrow> nat \<Rightarrow> depot_id list \<Rightarrow> 's \<Rightarrow> (cli_error, unit, 's) run" where
  "for_depots step i [] s = Some (Inr (), s)"
| "for_depots step i (d # ds) s = then_do (step i d s) (\<lambda>_ s. for_depots step (i + 1) ds s)"

text \<open>With a client that is logged in.\<close>

definition download_app ::
  "network \<Rightarrow> ('r, 'a, 'e) tools \<Rightarrow> (nat \<Rightarrow> depot_env) \<Rightarrow> 't transport_ops \<Rightarrow> crypto \<Rightarrow> client_codec \<Rightarrow> service_codec
    \<Rightarrow> bytes \<times> bytes \<times> bytes \<Rightarrow> options \<Rightarrow> download_args
    \<Rightarrow> 't client \<times> file_system \<Rightarrow> (cli_error, unit, 't client \<times> file_system) run" where
  "download_app N L E T C X P random opts args sf =
     (let app_id = AppId (da_app args);
          cell_id = CellId (unwrap_or (op_cell_id opts) 0);
          (random1, random2, random3) = random
      in
      then_do (beside (snd sf) (with_err CliSteam (get_app_info T C X P random1 random2 [app_id] (fst sf)))) (\<lambda>app_infos sf.
      then_do (beside (snd sf) (with_err CliSteam (get_cdn_servers T C X P random3 cell_id None (fst sf)))) (\<lambda>cdn_servers sf.
      if cdn_servers = [] then Some (Inl (CliOther ''No CDN servers available''), sf)
      else
        let depot_ids = depots_of args app_infos
        in if depot_ids = [] then Some (Inl (CliOther ''No depots to download''), sf)
           else
             let (cdn, max_downloads) = cdn_of N opts args;
                 base_dir = unwrap_or (da_output args) ''depots''
             in for_depots (\<lambda>i. process_depot L (E i) T C X P app_infos cdn (hd cdn_servers) max_downloads args base_dir
                     (da_output args \<noteq> None) (discover_build_id app_infos (da_branch args))
                     (explicit_manifests_of args depot_ids)) 0 depot_ids sf)))"

definition run_download ::
  "network \<Rightarrow> (bytes \<Rightarrow> json steam_result) \<Rightarrow> (cm_server_addr \<Rightarrow> string) \<Rightarrow> (bytes \<Rightarrow> string)
    \<Rightarrow> (capture_file \<Rightarrow> string option) \<Rightarrow> (nat \<Rightarrow> ('n, 'k) login_env) \<Rightarrow> ('r, 'a, 'e) tools \<Rightarrow> (nat \<Rightarrow> depot_env)
    \<Rightarrow> crypto \<Rightarrow> client_codec \<Rightarrow> service_codec \<Rightarrow> bytes \<times> bytes \<times> bytes \<Rightarrow> options \<Rightarrow> download_args
    \<Rightarrow> file_system \<Rightarrow> (cli_error, unit, file_system) run" where
  "run_download N parse_json addr_debug base64 to_json G L E C X P random opts args fs =
     then_do (connect_and_login N parse_json addr_debug base64 to_json C X P G opts fs) (\<lambda>client fs.
     map_option (\<lambda>(r, s, fs). (r, drop_transport to_json (cl_transport s) fs))
       (download_app N L E (dyn_ops base64) C X P random opts args (client, fs)))"

end
