(* ===== verification/Commands.thy ===== *)
theory Commands
  imports Depot_Run
begin

text \<open>
  The other commands and the main function of \<^verbatim>\<open>crates/depotdownloader/src/main.rs\<close>:
  \<^verbatim>\<open>run_info\<close>, \<^verbatim>\<open>run_manifests\<close>, \<^verbatim>\<open>run_files\<close>, \<^verbatim>\<open>run_workshop\<close>, and the printing of
  errors. The output of a command is the list of the lines it prints. JSON, calendar dates,
  the quotient of two doubles and the text of errors are arguments.
\<close>

section \<open>Text layout\<close>

text \<open>Alignment counts characters: the bytes that do not continue a character.\<close>

definition char_count :: "string \<Rightarrow> nat" where
  "char_count s = length (filter (\<lambda>c. byte_of_char c AND 0xC0 \<noteq> 0x80) s)"

definition pad_right :: "nat \<Rightarrow> string \<Rightarrow> string" where
  "pad_right w s = s @ replicate (w - char_count s) (CHR '' '')"

definition pad_left :: "nat \<Rightarrow> string \<Rightarrow> string" where
  "pad_left w s = replicate (w - char_count s) (CHR '' '') @ s"

definition em_dash :: string where
  "em_dash = [CHR 0xE2, CHR 0x80, CHR 0x94]"

definition arrow :: string where
  "arrow = [CHR 0xE2, CHR 0x86, CHR 0x92]"

record formats =
  ft_time :: "int \<Rightarrow> string option"
  ft_ratio :: "nat \<Rightarrow> nat \<Rightarrow> string"

definition fmt_timestamp :: "formats \<Rightarrow> u32 \<Rightarrow> string" where
  "fmt_timestamp F unix = unwrap_or (ft_time F (uint unix)) (dec_string (unat unix))"

definition fmt_timestamp_u64 :: "formats \<Rightarrow> u64 \<Rightarrow> string" where
  "fmt_timestamp_u64 F unix = unwrap_or (ft_time F (sint unix)) (dec_string (unat unix))"

section \<open>Info\<close>

record branch_overview =
  bo_name :: string
  bo_build_id :: "build_id option"
  bo_time_updated :: "u64 option"
  bo_password_required :: bool
  bo_description :: "string option"
  bo_manifests :: "depot_manifest_entry list"

record depot_overview =
  do_id :: depot_id
  do_name :: "string option"
  do_os_list :: "string option"
  do_os_arch :: "string option"

record app_overview =
  ov_app_id :: app_id
  ov_branches :: "branch_overview list"
  ov_depots :: "depot_overview list"

definition overview_of :: "app_id \<Rightarrow> app_info list \<Rightarrow> app_overview" where
  "overview_of app_id app_infos =
     \<lparr>ov_app_id = app_id,
      ov_branches = map (\<lambda>b. \<lparr>bo_name = br_name b, bo_build_id = br_build_id b, bo_time_updated = br_time_updated b,
          bo_password_required = br_password_required b, bo_description = br_description b,
          bo_manifests = discover_manifests_for_branch app_infos (br_name b) None\<rparr>) (discover_branches app_infos),
      ov_depots = map (\<lambda>d. \<lparr>do_id = di_id d, do_name = di_name d, do_os_list = di_os_list d, do_os_arch = di_os_arch d\<rparr>)
        (discover_depot_details app_infos)\<rparr>"

definition depot_number :: "depot_id \<Rightarrow> string" where
  "depot_number d = dec_string (unat (depot_id_0 d))"

definition manifest_number :: "manifest_id \<Rightarrow> string" where
  "manifest_number m = dec_string (unat (manifest_id_0 m))"

definition branch_row :: "formats \<Rightarrow> branch_overview \<Rightarrow> string" where
  "branch_row F b =
     ''  '' @ pad_right 20 (bo_name b) @ '' ''
     @ pad_left 10 (unwrap_or (map_option build_id_display (bo_build_id b)) []) @ '' ''
     @ pad_left 22 (unwrap_or (map_option (fmt_timestamp_u64 F) (bo_time_updated b)) []) @ '' ''
     @ (if bo_password_required b then ''[password]'' else [])"

definition depot_row :: "depot_overview \<Rightarrow> string" where
  "depot_row d =
     ''  '' @ pad_right 12 (depot_number (do_id d)) @ '' '' @ pad_right 30 (unwrap_or (do_name d) []) @ '' ''
     @ pad_right 20 (unwrap_or (do_os_list d) []) @ '' '' @ unwrap_or (do_os_arch d) []"

definition branch_manifests :: "branch_overview \<Rightarrow> string list" where
  "branch_manifests b =
     (if bo_manifests b = [] then []
      else (''Manifests for branch '' @ [CHR 0x27] @ bo_name b @ [CHR 0x27] @ '':'')
        # map (\<lambda>m. ''  depot '' @ pad_right 10 (depot_number (me_depot_id m)) @ '' '' @ arrow @ '' ''
            @ unwrap_or (map_option manifest_number (me_manifest_id m)) em_dash) (bo_manifests b))"

definition info_lines :: "formats \<Rightarrow> (app_overview \<Rightarrow> string option) \<Rightarrow> output_format \<Rightarrow> app_overview \<Rightarrow> cli_error + string list" where
  "info_lines F to_json fmt overview =
     (case fmt of
        Json \<Rightarrow> map_ok (\<lambda>l. [l]) (ok_or (to_json overview) CliJson)
      | Plain \<Rightarrow> Inr (map (\<lambda>d. depot_number (do_id d)) (ov_depots overview))
      | Table \<Rightarrow>
          Inr ([''App '' @ dec_string (unat (app_id_0 (ov_app_id overview))), [], ''Branches:'',
                ''  '' @ pad_right 20 ''NAME'' @ '' '' @ pad_left 10 ''BUILD'' @ '' '' @ pad_left 22 ''UPDATED'' @ '' FLAGS'']
               @ map (branch_row F) (ov_branches overview)
               @ [[], ''Depots:'',
                  ''  '' @ pad_right 12 ''ID'' @ '' '' @ pad_right 30 ''NAME'' @ '' '' @ pad_right 20 ''OS'' @ '' ARCH'']
               @ map depot_row (ov_depots overview)
               @ [[]] @ concat (map branch_manifests (ov_branches overview))))"

definition info_app ::
  "formats \<Rightarrow> (app_overview \<Rightarrow> string option) \<Rightarrow> 't transport_ops \<Rightarrow> crypto \<Rightarrow> client_codec \<Rightarrow> service_codec
    \<Rightarrow> bytes \<times> bytes \<Rightarrow> info_args \<Rightarrow> 't client \<times> file_system \<Rightarrow> (cli_error, string list, 't client \<times> file_system) run" where
  "info_app F to_json T C X P random args sf =
     (let app_id = AppId (ia_app args)
      in then_do (beside (snd sf) (with_err CliSteam (get_app_info T C X P (fst random) (snd random) [app_id] (fst sf))))
           (\<lambda>app_infos sf. give (info_lines F to_json (ia_format args) (overview_of app_id app_infos)) sf))"

section \<open>Manifests\<close>

definition manifest_row :: "depot_manifest_entry \<Rightarrow> string" where
  "manifest_row e =
     pad_right 12 (depot_number (me_depot_id e)) @ '' '' @ pad_right 30 (unwrap_or (me_depot_name e) []) @ '' ''
     @ pad_left 22 (unwrap_or (map_option manifest_number (me_manifest_id e)) em_dash)"

definition manifests_lines ::
  "(depot_manifest_entry list \<Rightarrow> string option) \<Rightarrow> output_format \<Rightarrow> depot_manifest_entry list \<Rightarrow> cli_error + string list" where
  "manifests_lines to_json fmt entries =
     (case fmt of
        Json \<Rightarrow> map_ok (\<lambda>l. [l]) (ok_or (to_json entries) CliJson)
      | Plain \<Rightarrow>
          Inr (List.map_filter (\<lambda>e. map_option (\<lambda>i. depot_number (me_depot_id e) @ '' '' @ manifest_number i) (me_manifest_id e))
                 entries)
      | Table \<Rightarrow>
          Inr ((pad_right 12 ''DEPOT'' @ '' '' @ pad_right 30 ''NAME'' @ '' '' @ pad_left 22 ''MANIFEST ID'')
               # map manifest_row entries))"

definition manifests_app ::
  "(depot_manifest_entry list \<Rightarrow> string option) \<Rightarrow> 't transport_ops \<Rightarrow> crypto \<Rightarrow> client_codec \<Rightarrow> service_codec
    \<Rightarrow> bytes \<times> bytes \<Rightarrow> manifests_args \<Rightarrow> 't client \<times> file_system
    \<Rightarrow> (cli_error, string list, 't client \<times> file_system) run" where
  "manifests_app to_json T C X P random args sf =
     then_do (beside (snd sf) (with_err CliSteam (get_app_info T C X P (fst random) (snd random) [AppId (ma_app args)] (fst sf))))
       (\<lambda>app_infos sf.
       let entries = discover_manifests_for_branch app_infos (ma_branch args) (map_option DepotId (ma_depot args))
       in if entries = [] then
            Some (Inl (CliOther (''No manifests found on branch '' @ [CHR 0x27] @ ma_branch args @ [CHR 0x27])), sf)
          else give (manifests_lines to_json (ma_format args) entries) sf)"

section \<open>Files\<close>

definition file_row :: "formats \<Rightarrow> bool \<Rightarrow> manifest_file \<Rightarrow> string" where
  "file_row F raw file =
     pad_right 60 (unwrap_or (mf_filename file) ''<unnamed>'') @ '' ''
     @ pad_left 12 (unwrap_or (map_option (\<lambda>s. fmt_size (ft_ratio F) s raw) (mf_size file)) ''?'') @ '' ''
     @ pad_left 8 (dec_string (length (mf_chunks file)))"

definition files_lines ::
  "formats \<Rightarrow> (depot_manifest \<Rightarrow> string option) \<Rightarrow> options \<Rightarrow> output_format \<Rightarrow> depot_id \<Rightarrow> manifest_id \<Rightarrow> depot_manifest
    \<Rightarrow> cli_error + string list" where
  "files_lines F to_json opts fmt depot_id manifest_id manifest =
     (case fmt of
        Json \<Rightarrow> map_ok (\<lambda>l. [l]) (ok_or (to_json manifest) CliJson)
      | Plain \<Rightarrow> Inr (List.map_filter mf_filename (dm_files manifest))
      | Table \<Rightarrow>
          Inr ([''Depot:    '' @ depot_number depot_id, ''Manifest: '' @ manifest_number manifest_id]
               @ (case dm_creation_time manifest of None \<Rightarrow> [] | Some t \<Rightarrow> [''Created:  '' @ fmt_timestamp F t])
               @ (case dm_total_uncompressed_size manifest of None \<Rightarrow> []
                  | Some s \<Rightarrow> [''Size:     '' @ fmt_size (ft_ratio F) s (op_raw_bytes opts)])
               @ [''Files:    '' @ dec_string (length (dm_files manifest))]
               @ (if dm_filenames_encrypted manifest
                  then [''NOTE:     filenames are encrypted (use authenticated login or --raw)''] else [])
               @ [[], pad_right 60 ''FILENAME'' @ '' '' @ pad_left 12 ''SIZE'' @ '' '' @ pad_left 8 ''CHUNKS'']
               @ map (file_row F (op_raw_bytes opts)) (dm_files manifest)))"

datatype files_draw = FilesTokens | FilesInfo | FilesServers | FilesCode | FilesKey

definition files_app ::
  "network \<Rightarrow> formats \<Rightarrow> (depot_manifest \<Rightarrow> string option) \<Rightarrow> ('r, 'a, 'e) tools \<Rightarrow> 't transport_ops \<Rightarrow> crypto
    \<Rightarrow> client_codec \<Rightarrow> service_codec \<Rightarrow> (files_draw \<Rightarrow> bytes) \<Rightarrow> options \<Rightarrow> files_args
    \<Rightarrow> 't client \<times> file_system \<Rightarrow> (cli_error, string list, 't client \<times> file_system) run" where
  "files_app N F to_json L T C X P random opts args sf =
     (let app_id = AppId (fa_app args);
          depot_id = DepotId (fa_depot args);
          cell_id = CellId (unwrap_or (op_cell_id opts) 0)
      in
      then_do (case fa_manifest args of
            Some i \<Rightarrow> give (Inr (ManifestId i)) sf
          | None \<Rightarrow>
              then_do (beside (snd sf) (with_err CliSteam
                  (get_app_info T C X P (random FilesTokens) (random FilesInfo) [app_id] (fst sf)))) (\<lambda>app_infos sf.
              give (ok_or (discover_manifest_id app_infos depot_id (fa_branch args))
                 (CliOther (''No manifest found for depot '' @ depot_id_display depot_id @ '' on branch '' @ [CHR 0x27]
                    @ fa_branch args @ [CHR 0x27]))) sf)) (\<lambda>manifest_id sf.
      then_do (beside (snd sf) (with_err CliSteam (get_cdn_servers T C X P (random FilesServers) cell_id None (fst sf)))) (\<lambda>cdn_servers sf.
      if cdn_servers = [] then Some (Inl (CliOther ''No CDN servers available''), sf)
      else
        then_do (beside (snd sf) (with_err CliSteam
          (get_manifest_request_code T C X P (random FilesCode) app_id depot_id manifest_id (Some (fa_branch args)) None (fst sf)))) (\<lambda>code sf.
        then_do (give (map_err CliSteam
          (download_manifest (cdn_new N) (hd cdn_servers) depot_id manifest_id (unwrap_or code 0) None)) sf) (\<lambda>manifest_bytes sf.
        then_do (give (map_err CliManifest (extract_and_parse (tl_codecs L) (tl_manifest_codec L) manifest_bytes)) sf) (\<lambda>manifest sf.
        then_do
          (if dm_filenames_encrypted manifest \<and> \<not> fa_raw args then
             Option.bind (get_depot_decryption_key T C X P (random FilesKey) depot_id app_id (fst sf)) (\<lambda>(r, s).
               case r of
                 Inl e \<Rightarrow> Some (Inr manifest, s, snd sf)
               | Inr key \<Rightarrow>
                   (case decrypt_filenames C (tl_base64_decode L) key manifest of
                      (Inl e, _) \<Rightarrow> Some (Inl (CliManifest e), s, snd sf)
                    | (Inr _, manifest) \<Rightarrow> Some (Inr manifest, s, snd sf)))
           else Some (Inr manifest, sf)) (\<lambda>manifest sf.
        give (files_lines F to_json opts (fa_format args) depot_id manifest_id manifest) sf)))))))"

section \<open>Workshop\<close>

record published_file =
  pf_title :: "string option"
  pf_consumer_appid :: "u32 option"
  pf_file_url :: "string option"
  pf_filename :: "string option"
  pf_hcontent_file :: "u64 option"

record workshop_codec =
  w_enc_details :: "u64 \<Rightarrow> bytes"
  w_dec_details :: "bytes \<Rightarrow> published_file list option"
  w_http :: "string \<Rightarrow> u16 option + bytes"

datatype workshop_draw = DetailsCall | WorkshopServers | WorkshopKey | WorkshopCode

definition non_empty :: "string option \<Rightarrow> string option" where
  "non_empty url = Option.bind url (\<lambda>u. if u \<noteq> [] then Some u else None)"

definition pubfile_of :: "workshop_args \<Rightarrow> cli_error + u64" where
  "pubfile_of args =
     (case (wa_pubfile args, wa_ugc args) of
        (Some i, _) \<Rightarrow> Inr i
      | (None, Some i) \<Rightarrow> Inr i
      | (None, None) \<Rightarrow> Inl (CliOther ''Specify --pubfile or --ugc''))"

text \<open>The depot of an item has the number of its app; an error of the name decryption is ignored.\<close>

definition workshop_depot ::
  "network \<Rightarrow> ('r, 'a, 'e) tools \<Rightarrow> depot_env \<Rightarrow> 't transport_ops \<Rightarrow> crypto \<Rightarrow> client_codec \<Rightarrow> service_codec
    \<Rightarrow> (workshop_draw \<Rightarrow> bytes) \<Rightarrow> options \<Rightarrow> string \<Rightarrow> u32 \<Rightarrow> u64
    \<Rightarrow> 't client \<times> file_system \<Rightarrow> (cli_error, unit, 't client \<times> file_system) run" where
  "workshop_depot N L E T C X P random opts output app_id hcontent sf =
     (let manifest_id = ManifestId hcontent;
          depot_id = DepotId app_id;
          cell_id = CellId (unwrap_or (op_cell_id opts) 0)
      in
      then_do (beside (snd sf) (with_err CliSteam (get_cdn_servers T C X P (random WorkshopServers) cell_id None (fst sf)))) (\<lambda>cdn_servers sf.
      if cdn_servers = [] then Some (Inl (CliOther ''No CDN servers available''), sf)
      else
        then_do (beside (snd sf) (with_err CliSteam
          (get_depot_decryption_key T C X P (random WorkshopKey) depot_id (AppId app_id) (fst sf)))) (\<lambda>depot_key sf.
        then_do (beside (snd sf) (with_err CliSteam
          (get_manifest_request_code T C X P (random WorkshopCode) (AppId app_id) depot_id manifest_id None None (fst sf)))) (\<lambda>code sf.
        then_do (give (map_err CliSteam
          (download_manifest (cdn_new N) (hd cdn_servers) depot_id manifest_id (unwrap_or code 0) None)) sf) (\<lambda>manifest_bytes sf.
        then_do (give (map_err CliManifest (extract_and_parse (tl_codecs L) (tl_manifest_codec L) manifest_bytes)) sf) (\<lambda>manifest (s, fs).
        let manifest =
              (if dm_filenames_encrypted manifest
               then snd (decrypt_filenames C (tl_base64_decode L) depot_key manifest) else manifest)
        in case build_job
               (builder_event_sender
               (builder_max_downloads (op_max_downloads opts)
               (builder_install_dir output
               (builder_depot_key depot_key
               (builder_depot_id depot_id
               (builder_cdn (tl_error_text L) (pe_chunk_http E) (cdn_new N) (hd cdn_servers) None
                default_builder)))))) of
             Inl m \<Rightarrow> Some (Inl (CliOther m), s, fs)
           | Inr job \<Rightarrow>
               (case download C (tl_codecs L) (tl_is_match L) job (pe_task_order E) (pe_chunk_order E) manifest fs of
                  (Inl e, _, fs) \<Rightarrow> Some (Inl (CliOther (tl_box_text L e)), s, fs)
                | (Inr _, _, fs) \<Rightarrow> Some (Inr (), s, fs))))))))"

definition workshop_app ::
  "network \<Rightarrow> workshop_codec \<Rightarrow> ('r, 'a, 'e) tools \<Rightarrow> depot_env \<Rightarrow> 't transport_ops \<Rightarrow> crypto \<Rightarrow> client_codec \<Rightarrow> service_codec
    \<Rightarrow> (workshop_draw \<Rightarrow> bytes) \<Rightarrow> options \<Rightarrow> workshop_args \<Rightarrow> u64
    \<Rightarrow> 't client \<times> file_system \<Rightarrow> (cli_error, unit, 't client \<times> file_system) run" where
  "workshop_app N W L E T C X P random opts args pubfile_id sf =
     then_do (beside (snd sf) (with_err CliSteam
        (call_service_method T C X (random DetailsCall) ''PublishedFile.GetDetails#1'' (w_enc_details W pubfile_id) (fst sf)))) (\<lambda>body sf.
     then_do (give (ok_or (w_dec_details W body) CliProtobuf) sf) (\<lambda>details_resp sf.
     then_do (give (ok_or (first_of details_resp) (CliOther ''No published file details returned'')) sf) (\<lambda>details sf.
     then_do (give (ok_or (pf_consumer_appid details) (CliOther ''Workshop item has no associated app ID'')) sf) (\<lambda>app_id sf.
     let output = unwrap_or (wa_output args) ''workshop''
     in case non_empty (pf_file_url details) of
          Some url \<Rightarrow>
            then_do (give (map_err CliReqwest (w_http W url)) sf) (\<lambda>bytes (s, fs).
            Some (Inr (), s, write_file (path_join output (unwrap_or (pf_filename details) ''workshop_item'')) bytes fs))
        | None \<Rightarrow>
            (case pf_hcontent_file details of
               Some hcontent \<Rightarrow>
                 if 0 < hcontent then workshop_depot N L E T C X P random opts output app_id hcontent sf
                 else Some (Inl (CliOther ''Workshop item has no downloadable content''), sf)
             | None \<Rightarrow> Some (Inl (CliOther ''Workshop item has no downloadable content''), sf))))))"

section \<open>The program\<close>

text \<open>What the commands are run with besides the client.\<close>

record ('r, 'a, 'e) program_env =
  se_network :: network
  se_formats :: formats
  se_overview_json :: "app_overview \<Rightarrow> string option"
  se_entries_json :: "depot_manifest_entry list \<Rightarrow> string option"
  se_manifest_json :: "depot_manifest \<Rightarrow> string option"
  se_tools :: "('r, 'a, 'e) tools"
  se_depots :: "nat \<Rightarrow> depot_env"
  se_workshop :: workshop_codec
  se_app_random :: "bytes \<times> bytes \<times> bytes"
  se_files_random :: "files_draw \<Rightarrow> bytes"
  se_workshop_random :: "workshop_draw \<Rightarrow> bytes"

definition app_command ::
  "('r, 'a, 'e) program_env \<Rightarrow> 't transport_ops \<Rightarrow> crypto \<Rightarrow> client_codec \<Rightarrow> service_codec \<Rightarrow> options
    \<Rightarrow> 't client \<times> file_system \<Rightarrow> (cli_error, string list, 't client \<times> file_system) run" where
  "app_command U T C X P opts sf =
     (let (random1, random2, random3) = se_app_random U
      in case op_action opts of
           ActInfo args \<Rightarrow> info_app (se_formats U) (se_overview_json U) T C X P (random1, random2) args sf
         | ActManifests args \<Rightarrow> manifests_app (se_entries_json U) T C X P (random1, random2) args sf
         | ActFiles args \<Rightarrow>
             files_app (se_network U) (se_formats U) (se_manifest_json U) (se_tools U) T C X P (se_files_random U) opts args sf
         | ActDownload args \<Rightarrow>
             then_do (download_app (se_network U) (se_tools U) (se_depots U) T C X P (se_app_random U) opts args sf)
               (\<lambda>_ sf. Some (Inr [], sf))
         | ActWorkshop args \<Rightarrow>
             then_do (give (pubfile_of args) sf) (\<lambda>pubfile_id sf.
             then_do (workshop_app (se_network U) (se_workshop U) (se_tools U) (se_depots U 0) T C X P
                (se_workshop_random U) opts args pubfile_id sf) (\<lambda>_ sf. Some (Inr [], sf))))"

text \<open>
  A command logs in first; only \<^verbatim>\<open>run_workshop\<close> looks at its arguments before. The login
  is an argument: \<open>connect_and_login\<close> of the network and the options.
\<close>

definition run_action ::
  "('r, 'a, 'e) program_env \<Rightarrow> 't transport_ops \<Rightarrow> ('t \<Rightarrow> file_system \<Rightarrow> file_system) \<Rightarrow> crypto \<Rightarrow> client_codec \<Rightarrow> service_codec
    \<Rightarrow> (file_system \<Rightarrow> (cli_error, 't client, file_system) run) \<Rightarrow> options
    \<Rightarrow> file_system \<Rightarrow> (cli_error, string list, file_system) run" where
  "run_action U T drop_client C X P log_in opts fs =
     then_do (case op_action opts of
           ActWorkshop args \<Rightarrow> give (map_ok (\<lambda>_. ()) (pubfile_of args)) fs
         | _ \<Rightarrow> Some (Inr (), fs)) (\<lambda>_ fs.
     then_do (log_in fs) (\<lambda>client fs.
     map_option (\<lambda>(r, s, fs). (r, drop_client (cl_transport s) fs)) (app_command U T C X P opts (client, fs))))"

definition error_lines :: "(cli_error \<Rightarrow> string) \<Rightarrow> (cli_error \<Rightarrow> string) \<Rightarrow> bool \<Rightarrow> cli_error \<Rightarrow> string list" where
  "error_lines debug display raw e =
     (if raw then [''Error: '' @ debug e]
      else (case human_message e of
              Some msg \<Rightarrow> [''Error: '' @ msg, [], ''(run with --raw-errors for technical details)'']
            | None \<Rightarrow> [''Error: '' @ display e]))"

text \<open>The exit code with the lines of both outputs, and the files.\<close>

definition main_run ::
  "('r, 'a, 'e) program_env \<Rightarrow> 't transport_ops \<Rightarrow> ('t \<Rightarrow> file_system \<Rightarrow> file_system) \<Rightarrow> crypto \<Rightarrow> client_codec \<Rightarrow> service_codec
    \<Rightarrow> (options \<Rightarrow> file_system \<Rightarrow> (cli_error, 't client, file_system) run)
    \<Rightarrow> (cli_error \<Rightarrow> string) \<Rightarrow> (cli_error \<Rightarrow> string) \<Rightarrow> string + options
    \<Rightarrow> file_system \<Rightarrow> (nat \<times> string list \<times> string list \<times> file_system) option" where
  "main_run U T drop_client C X P log_in debug display parsed fs =
     (case parsed of
        Inl e \<Rightarrow> Some (1, [], [e], fs)
      | Inr opts \<Rightarrow>
          map_option (\<lambda>(r, fs).
            case r of
              Inl e \<Rightarrow> (1, [], error_lines debug display (op_raw_errors opts) e, fs)
            | Inr out \<Rightarrow> (0, out, [], fs)) (run_action U T drop_client C X P (log_in opts) opts fs))"

end
