(* ===== verification/Services_Spec.thy ===== *)
theory Services_Spec
  imports Services
begin

text \<open>
  What the requests promise, over any transport that keeps the contract and so over TCP: which
  message answers a request, what happens to the messages before it, and what is accepted as
  an answer.
\<close>

section \<open>Requests over a transport\<close>

context sending_transport
begin

lemma logged_in_send_ok:
  assumes "cl_cipher s = Some c"
  obtains t' where
    "logged_in_send_msg T C X random msg s = Some (Inr (), s\<lparr>cl_transport := t'\<rparr>)"
    "pending t' = pending (cl_transport s)"
    "sent t' = sent (cl_transport s) @ wire (session_encrypt C c random (client_msg_write (x_encode_header X)
       (msg\<lparr>cm_header := (cm_header msg)\<lparr>ch_steamid := Some (steam_id_raw (cl_steam_id s)),
                                        ch_client_sessionid := Some (cl_session_id s)\<rparr>\<rparr>)))"
  using client_send_msg_ok [OF assms, of C X random
      "msg\<lparr>cm_header := (cm_header msg)\<lparr>ch_steamid := Some (steam_id_raw (cl_steam_id s)),
                                        ch_client_sessionid := Some (cl_session_id s)\<rparr>\<rparr>"]
  by (auto simp: logged_in_send_msg_def Let_def)

text \<open>An answer is the first message of its type; the messages before it are dropped.\<close>

lemma request_spec:
  assumes "no_jobs s" "cl_cipher s = Some c"
  shows "\<exists>passed reply rest s' r. request T C X random emsg encoded answer_emsg answer s = Some (r, s')
    \<and> take_reply (\<lambda>m. im_emsg m = answer_emsg) (inbox pending C X s) = (passed, reply, rest)
    \<and> outcome (\<lambda>m. answer (im_body m)) reply r
    \<and> received s s'
    \<and> (reply \<noteq> None \<longrightarrow> inbox pending C X s' = rest)
    \<and> sent (cl_transport s') = sent (cl_transport s) @ wire (session_encrypt C c random
        (client_msg_write (x_encode_header X)
          \<lparr>cm_emsg = emsg, cm_header = default_header\<lparr>ch_steamid := Some (steam_id_raw (cl_steam_id s)),
             ch_client_sessionid := Some (cl_session_id s)\<rparr>, cm_body = encoded\<rparr>))"
proof -
  from logged_in_send_ok [OF assms(2), of C X random "client_msg_with_body emsg encoded"] obtain t' where
    t': "logged_in_send_msg T C X random (client_msg_with_body emsg encoded) s = Some (Inr (), s\<lparr>cl_transport := t'\<rparr>)"
    "pending t' = pending (cl_transport s)"
    "sent t' = sent (cl_transport s) @ wire (session_encrypt C c random (client_msg_write (x_encode_header X)
       \<lparr>cm_emsg = emsg, cm_header = default_header\<lparr>ch_steamid := Some (steam_id_raw (cl_steam_id s)),
             ch_client_sessionid := Some (cl_session_id s)\<rparr>, cm_body = encoded\<rparr>))"
    by (auto simp: client_msg_with_body_def)
  let ?s1 = "s\<lparr>cl_transport := t'\<rparr>"
  have inb: "inbox pending C X ?s1 = inbox pending C X s" using t'(2) by (simp add: inbox_def)
  have "no_jobs ?s1" using assms(1) by (simp add: no_jobs_def)
  have loop: "await_emsg T C X answer_emsg s = Option.bind (recv_loop T C X None s) (\<lambda>(r, s).
      case r of Inl e \<Rightarrow> Some (Inl e, s)
      | Inr m \<Rightarrow> if im_emsg m = answer_emsg then Some (Inr m, s) else await_emsg T C X answer_emsg s)"
    for s by (subst await_emsg.simps) (simp add: recv_routed_msg_def)
  from waiting_loop [where loop = "await_emsg T C X answer_emsg" and C = C and X = X and except = None
      and P = "\<lambda>m. im_emsg m = answer_emsg" and answer = "\<lambda>m s. (Inr m, s)" and ev = False and s = ?s1 and f = sent,
      unfolded if_False simp_thms, OF loop \<open>no_jobs ?s1\<close> recv_sent, unfolded inb]
  obtain passed reply rest s' where *:
    "take_reply (\<lambda>m. im_emsg m = answer_emsg) (inbox pending C X s) = (passed, reply, rest)"
    "received (?s1\<lparr>cl_events := cl_events ?s1 @ []\<rparr>) s'"
    "reply \<noteq> None \<longrightarrow> inbox pending C X s' = rest" "sent (cl_transport s') = sent t'"
    "case reply of None \<Rightarrow> (\<exists>e. await_emsg T C X answer_emsg ?s1 = Some (Inl e, s'))
       | Some (Inl e) \<Rightarrow> await_emsg T C X answer_emsg ?s1 = Some (Inl e, s')
       | Some (Inr m) \<Rightarrow> await_emsg T C X answer_emsg ?s1 = Some (Inr m, s')"
    by auto
  have "received s s'" using *(2) by (cases s; cases s') (auto simp: received_def)
  moreover from *(5) obtain r where
    "request T C X random emsg encoded answer_emsg answer s = Some (r, s')" "outcome (\<lambda>m. answer (im_body m)) reply r"
    using t'(1) by (auto simp: request_def outcome_def split: option.splits sum.splits)
  ultimately show ?thesis using * t'(3) by auto
qed

end

section \<open>Product info\<close>

text \<open>The answer of a product info request over an inbox: every part until one is not pending.\<close>

fun collect_infos ::
  "service_codec \<Rightarrow> app_info list \<Rightarrow> incoming_msg steam_result list
    \<Rightarrow> app_info list steam_result option \<times> incoming_msg steam_result list" where
  "collect_infos P results [] = (None, [])"
| "collect_infos P results (Inl e # xs) = (Some (Inl e), xs)"
| "collect_infos P results (Inr m # xs) =
     (if im_emsg m = EMSG_CLIENT_PICS_PRODUCT_INFO_RESPONSE then
        (case p_dec_product_info P (im_body m) of
           None \<Rightarrow> (Some (Inl ProtobufDecode), xs)
         | Some (p, apps) \<Rightarrow>
             if p = Some True then collect_infos P (results @ app_infos_of apps) xs
             else (Some (Inr (results @ app_infos_of apps)), xs))
      else collect_infos P results xs)"

context sending_transport
begin

lemma product_info_loop_spec:
  assumes "no_jobs s"
  shows "\<exists>r s'. product_info_loop T C X P results s = Some (r, s') \<and> received s s'
    \<and> (case collect_infos P results (inbox pending C X s) of
         (None, _) \<Rightarrow> (\<exists>e. r = Inl e)
       | (Some r', rest) \<Rightarrow> r = r' \<and> inbox pending C X s' = rest)"
  using assms
proof (induction "inbox pending C X s" arbitrary: s results)
  case Nil
  from recv_loop_fifo [of s "\<lambda>_. ()" C X None, OF Nil.prems refl] Nil.hyps show ?case
    by (subst product_info_loop.simps) (auto simp: recv_routed_msg_def simp flip: Nil.hyps)
next
  case (Cons x xs)
  from recv_loop_fifo [of s "\<lambda>_. ()" C X None, OF Cons.prems refl] obtain s1 where
    s1: "recv_loop T C X None s = Some (x, s1)" "received s s1" "inbox pending C X s1 = xs"
    by (auto simp flip: Cons.hyps(2))
  have "no_jobs s1" using Cons.prems receivedD(5) [OF s1(2)] by (simp add: no_jobs_def)
  note IH = Cons.hyps(1) [OF s1(3) [symmetric] this, unfolded s1(3)]
  show ?case
  proof (cases x)
    case (Inl e)
    with s1 show ?thesis
      by (subst product_info_loop.simps) (auto simp: recv_routed_msg_def simp flip: Cons.hyps(2))
  next
    case (Inr m)
    have step: "product_info_loop T C X P results s =
        (if im_emsg m = EMSG_CLIENT_PICS_PRODUCT_INFO_RESPONSE then
           (case p_dec_product_info P (im_body m) of
              None \<Rightarrow> Some (Inl ProtobufDecode, s1)
            | Some (p, apps) \<Rightarrow>
                if \<not> unwrap_or p False then Some (Inr (results @ app_infos_of apps), s1)
                else product_info_loop T C X P (results @ app_infos_of apps) s1)
         else product_info_loop T C X P results s1)"
      using s1(1) Inr by (subst product_info_loop.simps) (simp add: recv_routed_msg_def Let_def split: option.split prod.split)
    have pending: "unwrap_or p False \<longleftrightarrow> p = Some True" for p by (cases p) auto
    have IH': "\<exists>r s'. product_info_loop T C X P results s1 = Some (r, s') \<and> received s s'
        \<and> (case collect_infos P results xs of
             (None, _) \<Rightarrow> (\<exists>e. r = Inl e)
           | (Some r', rest) \<Rightarrow> r = r' \<and> inbox pending C X s' = rest)" for results
      using IH [of results]
      by (elim exE conjE) (intro exI conjI, assumption, rule received_trans [OF s1(2)], assumption+)
    show ?thesis
    proof (cases "im_emsg m = EMSG_CLIENT_PICS_PRODUCT_INFO_RESPONSE")
      case other: False
      with IH' [of results] Inr show ?thesis unfolding step Cons.hyps(2) [symmetric] by simp
    next
      case answer: True
      show ?thesis
      proof (cases "p_dec_product_info P (im_body m)")
        case None
        with answer Inr s1 show ?thesis unfolding step Cons.hyps(2) [symmetric] by simp
      next
        case (Some d)
        obtain p apps where "d = (p, apps)" by (cases d)
        with answer Some Inr s1 IH' [of "results @ app_infos_of apps"] show ?thesis
          unfolding step Cons.hyps(2) [symmetric] by (cases "p = Some True") (simp_all add: pending)
      qed
    qed
  qed
qed

end

section \<open>Properties\<close>

lemma depot_key_of_Inr:
  "depot_key_of depot_id body = Inr key \<longleftrightarrow> body = (Some 1, Some (depot_key_0 key)) \<and> length (depot_key_0 key) = 32"
  by (cases body; cases key)
     (auto simp: depot_key_of_def check_access_def and_then_eq_Inr map_err_eq_Inr split: option.splits)

text \<open>
  C39: Asking for a depot key sends one request; the key returned is the 32 bytes of the first
  key answer of the inbox, and that answer carries the result OK. Nothing else is accepted as a
  key, the messages before the answer are dropped without an event, those behind it wait.
\<close>

theorem get_depot_decryption_key_ok:
  assumes "no_jobs s" "cl_cipher s = Some c"
  shows "\<exists>passed reply rest s' r. get_depot_decryption_key tcp_ops C X P random depot_id app_id s = Some (r, s')
    \<and> take_reply (\<lambda>m. im_emsg m = EMSG_CLIENT_GET_DEPOT_DECRYPTION_KEY_RESPONSE) (tcp_inbox C X s) = (passed, reply, rest)
    \<and> (\<forall>key. r = Inr key \<longleftrightarrow> (\<exists>m. reply = Some (Inr m) \<and> length (depot_key_0 key) = 32
          \<and> p_dec_depot_key P (im_body m) = Some (Some 1, Some (depot_key_0 key))))
    \<and> received s s' \<and> (reply \<noteq> None \<longrightarrow> tcp_inbox C X s' = rest)"
proof -
  from tcp.request_spec [OF assms, of C X random EMSG_CLIENT_GET_DEPOT_DECRYPTION_KEY
      "p_enc_depot_key P (depot_id_0 depot_id) (app_id_0 app_id)" EMSG_CLIENT_GET_DEPOT_DECRYPTION_KEY_RESPONSE
      "\<lambda>body. and_then (decode_with (p_dec_depot_key P) body) (depot_key_of depot_id)"]
  obtain passed reply rest s' r where *: "get_depot_decryption_key tcp_ops C X P random depot_id app_id s = Some (r, s')"
    "take_reply (\<lambda>m. im_emsg m = EMSG_CLIENT_GET_DEPOT_DECRYPTION_KEY_RESPONSE) (tcp_inbox C X s) = (passed, reply, rest)"
    "outcome (\<lambda>m. and_then (decode_with (p_dec_depot_key P) (im_body m)) (depot_key_of depot_id)) reply r"
    "received s s'" "reply \<noteq> None \<longrightarrow> tcp_inbox C X s' = rest"
    unfolding get_depot_decryption_key_def by blast
  from *(3) have "r = Inr key \<longleftrightarrow> (\<exists>m. reply = Some (Inr m) \<and> length (depot_key_0 key) = 32
      \<and> p_dec_depot_key P (im_body m) = Some (Some 1, Some (depot_key_0 key)))" for key
    by (auto simp: outcome_def decode_with_def and_then_eq_Inr depot_key_of_Inr split: option.splits sum.splits)
  with * show ?thesis by blast
qed

definition sample_service_codec :: service_codec where
  "sample_service_codec =
     \<lparr>p_enc_access_tokens = (\<lambda>_. []), p_dec_access_tokens = (\<lambda>_. None), p_enc_product_info = (\<lambda>_. []),
      p_dec_product_info = (\<lambda>b. Some (Some (b = [1]), [(Some (of_nat (length b)), None, Some b)])),
      p_enc_depot_key = (\<lambda>_ _. []), p_dec_depot_key = (\<lambda>b. Some (Some 1, Some b)),
      p_enc_beta_password = (\<lambda>_ _. []), p_dec_beta_password = (\<lambda>_. None), p_enc_servers = (\<lambda>_ _. []),
      p_dec_servers = (\<lambda>_. None), p_enc_request_code = (\<lambda>_ _ _ _ _. []), p_dec_request_code = (\<lambda>_. None),
      p_enc_cdn_token = (\<lambda>_ _ _. []), p_dec_cdn_token = (\<lambda>_. None), p_enc_rsa_key = (\<lambda>_. []),
      p_dec_rsa_key = (\<lambda>_. None), p_dec_begin_credentials = (\<lambda>_. None), p_dec_begin_qr = (\<lambda>_. None),
      p_enc_poll = (\<lambda>_ _. []), p_dec_poll = (\<lambda>b. Some (if b = [] then None else Some ''a'', Some ''r'', None)),
      p_enc_guard_code = (\<lambda>_ _ _ _. [])\<rparr>"

theorem get_depot_decryption_key_ok_witness:
  "\<exists>s'. get_depot_decryption_key tcp_ops plain_crypto sample_client_codec sample_service_codec [7, 8, 9]
      (DepotId 1) (AppId 2)
      (sample_client (sample_packet EMSG_CLIENT_ACCOUNT_INFO [3]
         @ sample_packet EMSG_CLIENT_GET_DEPOT_DECRYPTION_KEY_RESPONSE (replicate 32 5)))
    = Some (Inr (DepotKey (replicate 32 5)), s')"
proof -
  let ?s = "sample_client (sample_packet EMSG_CLIENT_ACCOUNT_INFO [3]
         @ sample_packet EMSG_CLIENT_GET_DEPOT_DECRYPTION_KEY_RESPONSE (replicate 32 5))"
  have "tcp_inbox plain_crypto sample_client_codec ?s = [Inr (sample_incoming EMSG_CLIENT_ACCOUNT_INFO [3]),
      Inr (sample_incoming EMSG_CLIENT_GET_DEPOT_DECRYPTION_KEY_RESPONSE (replicate 32 5))]"
    by code_simp
  then have "take_reply (\<lambda>m. im_emsg m = EMSG_CLIENT_GET_DEPOT_DECRYPTION_KEY_RESPONSE)
      (tcp_inbox plain_crypto sample_client_codec ?s)
      = ([sample_incoming EMSG_CLIENT_ACCOUNT_INFO [3]],
         Some (Inr (sample_incoming EMSG_CLIENT_GET_DEPOT_DECRYPTION_KEY_RESPONSE (replicate 32 5))), [])"
    by (simp add: sample_incoming_def)
  moreover have "p_dec_depot_key sample_service_codec b = Some (Some 1, Some b)" for b
    by (simp add: sample_service_codec_def)
  ultimately show ?thesis
    using get_depot_decryption_key_ok [of ?s "session_cipher_new (replicate 32 0)" plain_crypto sample_client_codec
        sample_service_codec "[7, 8, 9]" "DepotId 1" "AppId 2"]
    by (auto simp: sample_incoming_def)
qed

text \<open>
  A product info request always returns; it gives the apps of all answers of the inbox up
  to the first one that announces no further answer, in their order, or the first error.
\<close>

theorem pics_get_product_info_collects:
  assumes "no_jobs s" "cl_cipher s = Some c"
  shows "\<exists>r s'. pics_get_product_info tcp_ops C X P random apps s = Some (r, s') \<and> received s s'
    \<and> (case collect_infos P [] (tcp_inbox C X s) of
         (None, _) \<Rightarrow> (\<exists>e. r = Inl e)
       | (Some r', rest) \<Rightarrow> r = r' \<and> tcp_inbox C X s' = rest)"
proof -
  let ?msg = "client_msg_with_body EMSG_CLIENT_PICS_PRODUCT_INFO_REQUEST
            (p_enc_product_info P (map (\<lambda>t. (app_id_0 (at_app_id t), at_token t)) apps))"
  from tcp.logged_in_send_ok [OF assms(2), of C X random ?msg] obtain t' where
    t': "logged_in_send_msg tcp_ops C X random ?msg s = Some (Inr (), s\<lparr>cl_transport := t'\<rparr>)"
    "frames_of (tcp_incoming t') = frames_of (tcp_incoming (cl_transport s))"
    by blast
  let ?s1 = "s\<lparr>cl_transport := t'\<rparr>"
  have inb: "tcp_inbox C X ?s1 = tcp_inbox C X s" using t'(2) by (simp add: inbox_def)
  have "no_jobs ?s1" using assms(1) by (simp add: no_jobs_def)
  from tcp.product_info_loop_spec [OF this, of C X P "[]", unfolded inb]
  obtain r s' where "product_info_loop tcp_ops C X P [] ?s1 = Some (r, s')" "received ?s1 s'"
    "case collect_infos P [] (tcp_inbox C X s) of (None, _) \<Rightarrow> (\<exists>e. r = Inl e)
       | (Some r', rest) \<Rightarrow> r = r' \<and> tcp_inbox C X s' = rest"
    by (elim exE conjE) (rule that)
  moreover have "received s s'" using \<open>received ?s1 s'\<close> by (cases s; cases s') (auto simp: received_def)
  ultimately show ?thesis using t'(1) by (auto simp: pics_get_product_info_def)
qed

theorem pics_get_product_info_collects_witness:
  "\<exists>s'. pics_get_product_info tcp_ops plain_crypto sample_client_codec sample_service_codec [7, 8, 9] []
      (sample_client (sample_packet EMSG_CLIENT_PICS_PRODUCT_INFO_RESPONSE [1]
         @ sample_packet EMSG_CLIENT_PICS_PRODUCT_INFO_RESPONSE [4, 4]))
    = Some (Inr (app_infos_of [(Some 1, None, Some [1]), (Some 2, None, Some [4, 4])]), s')"
proof -
  let ?s = "sample_client (sample_packet EMSG_CLIENT_PICS_PRODUCT_INFO_RESPONSE [1]
         @ sample_packet EMSG_CLIENT_PICS_PRODUCT_INFO_RESPONSE [4, 4])"
  have "collect_infos sample_service_codec [] (tcp_inbox plain_crypto sample_client_codec ?s)
      = (Some (Inr (app_infos_of [(Some 1, None, Some [1]), (Some 2, None, Some [4, 4])])), [])"
    by code_simp
  with pics_get_product_info_collects [of ?s "session_cipher_new (replicate 32 0)" plain_crypto sample_client_codec
      sample_service_codec "[7, 8, 9]" "[]"]
  show ?thesis by auto
qed

text \<open>
  The address of a CDN server is split at its last colon: with a port, host and port are
  found again whatever the host holds; without a colon the port follows the https support; a
  virtual host is taken over, and defaults to the host without the port.
\<close>

theorem parse_server_info_address:
  "parse_server_info \<lparr>si_host = Some (host @ '':'' @ dec_string (unat port)), si_https_support = h, si_vhost = v\<rparr>
     = Some \<lparr>cs_host = host, cs_port = port, cs_https = (h = Some ''mandatory'' \<or> h = Some ''optional''),
             cs_vhost = (case v of None \<Rightarrow> host | Some vhost \<Rightarrow> vhost)\<rparr>"
proof -
  have "rsplit_colon (host @ '':'' @ dec_string (unat port)) = Some (host, dec_string (unat port))"
    using rsplit_colon_append [OF dec_string_no [OF separators_no_digits(1)]] by simp
  then show ?thesis
    by (auto simp: parse_server_info_def supports_https_def split: option.splits)
qed

end
