(* ===== verification/Login_Spec.thy ===== *)
theory Login_Spec
  imports Login Services_Spec
begin

text \<open>
  What the login promises: the order in which servers are tried, the number of passwords,
  what polling waits for, the token store, and that every run comes to an end.
\<close>

section \<open>The transport behind a client\<close>

definition dyn_inner :: "dyn_transport \<Rightarrow> tcp_stream" where
  "dyn_inner t = (case t of DynTcp s \<Rightarrow> s | DynRecording r \<Rightarrow> rc_inner r)"

lemma dyn_send:
  "fst (t_send (dyn_ops base64) payload t) = fst (t_send tcp_ops payload (dyn_inner t))"
  "dyn_inner (snd (t_send (dyn_ops base64) payload t)) = snd (t_send tcp_ops payload (dyn_inner t))"
  by (cases t; simp add: dyn_ops_def dyn_inner_def recording_ops_def recording_send_def split: prod.split)+

lemma dyn_recv:
  "fst (t_recv (dyn_ops base64) t) = fst (t_recv tcp_ops (dyn_inner t))"
  "dyn_inner (snd (t_recv (dyn_ops base64) t)) = snd (t_recv tcp_ops (dyn_inner t))"
  by (cases t; simp add: dyn_ops_def dyn_inner_def recording_ops_def recording_recv_def split: prod.split sum.split)+

text \<open>Whether it records or not, the transport delivers the frames of its TCP stream.\<close>

interpretation dyn: sending_transport "dyn_ops base64" "\<lambda>t. frames_of (tcp_incoming (dyn_inner t))"
  "\<lambda>t. tcp_outgoing (dyn_inner t)" frame_bytes
proof unfold_locales
  fix t p ps
  assume "frames_of (tcp_incoming (dyn_inner t)) = p # ps"
  from tcp.recv_next [OF this] dyn_recv [of base64 t] show
    "\<exists>t'. t_recv (dyn_ops base64) t = (Inr p, t') \<and> frames_of (tcp_incoming (dyn_inner t')) = ps"
    by (metis fst_conv snd_conv prod.collapse)
next
  fix t
  assume "frames_of (tcp_incoming (dyn_inner t)) = []"
  from tcp.recv_end [OF this] dyn_recv [of base64 t] show "\<exists>e t'. t_recv (dyn_ops base64) t = (Inl e, t')"
    by (metis fst_conv prod.collapse)
next
  show "frames_of (tcp_incoming (dyn_inner (snd (t_send (dyn_ops base64) payload t)))) =
      frames_of (tcp_incoming (dyn_inner t))" for payload t
    by (simp only: dyn_send(2) tcp.send_keeps)
next
  show "\<exists>t'. t_send (dyn_ops base64) payload t = (Inr (), t')
      \<and> tcp_outgoing (dyn_inner t') = tcp_outgoing (dyn_inner t) @ frame_bytes payload" for payload t
    using tcp.send_ok [of payload "dyn_inner t"] dyn_send [of base64 payload t]
    by (metis fst_conv snd_conv prod.collapse)
next
  show "tcp_outgoing (dyn_inner (snd (t_recv (dyn_ops base64) t))) = tcp_outgoing (dyn_inner t)" for t
    by (simp only: dyn_recv(2) tcp.recv_sent)
qed

section \<open>Calls and polls\<close>

text \<open>A client that can call: the handshake is done and no job is pending.\<close>

definition live :: "'t client \<Rightarrow> bool" where
  "live s \<longleftrightarrow> no_jobs s \<and> cl_cipher s \<noteq> None"

lemma live_received: "received s s' \<Longrightarrow> live s \<Longrightarrow> live s'"
  by (simp add: live_def no_jobs_def receivedD)

lemma take_reply_rest:
  "take_reply Q xs = (passed, Some r, rest) \<Longrightarrow> length rest < length xs"
  by (induction Q xs arbitrary: passed rule: take_reply.induct) (auto split: if_splits prod.splits)

lemma always_call_decode: "always Q m \<Longrightarrow> always Q (call_decode f m)"
  by (simp add: call_decode_def always_map)

text \<open>What polling comes to over an inbox: each poll waits for the answer to its own job.\<close>

function poll_outcome ::
  "service_codec \<Rightarrow> u64 \<Rightarrow> incoming_msg steam_result list \<Rightarrow> string steam_result option" where
  "poll_outcome P job xs =
     (case take_reply (is_response job) xs of
        (_, None, _) \<Rightarrow> None
      | (_, Some (Inl e), _) \<Rightarrow> Some (Inl e)
      | (_, Some (Inr m), rest) \<Rightarrow>
          (case and_then (from_incoming m) (\<lambda>body. map_ok tokens_of (decode_with (p_dec_poll P) body)) of
             Inl e \<Rightarrow> Some (Inl e)
           | Inr (Some tokens) \<Rightarrow> Some (Inr (tk_refresh_token tokens))
           | Inr None \<Rightarrow> poll_outcome P (job + 1) rest))"
  by pat_completeness auto
termination poll_outcome
  by (relation "measure (\<lambda>(P, job, xs). length xs)") (auto dest: take_reply_rest [OF sym])

declare poll_outcome.simps [simp del]

context sending_transport
begin

lemma live_service_call:
  assumes "live s"
  shows "always live (service_call T C X random emsg header body s)"
proof -
  from assms obtain c where "no_jobs s" "cl_cipher s = Some c" by (auto simp: live_def)
  from service_call_spec [OF this, of C X random emsg header body] obtain passed r s' where
    "service_call T C X random emsg header body s = Some (r, s')"
    "received (s\<lparr>cl_next_job_id := cl_next_job_id s + 1,
                  cl_events := cl_events s @ (if cl_event_open s then passed else [])\<rparr>) s'"
    by blast
  with assms show ?thesis by (auto simp: always_def live_def no_jobs_def dest!: live_received)
qed

lemma live_authentication:
  assumes "live s"
  shows "always live (get_password_rsa_public_key T C X P random account_name s)"
    "always live (begin_auth_session_via_credentials T C X P random encoded s)"
    "always live (begin_auth_session_via_qr T C X P random encoded s)"
    "always live (submit_steam_guard_code T C X P random client_id steam_id code ty s)"
  using live_service_call [OF assms]
  by (simp_all add: get_password_rsa_public_key_def begin_auth_session_via_credentials_def begin_auth_session_via_qr_def
      submit_steam_guard_code_def call_service_method_non_authed_def always_call_decode)

lemma poll_loop_spec:
  assumes "live s" "interval_ok (poll_interval interval)"
  shows "\<exists>r s'. poll_loop T C X P E interval client_id request_id n s = Some (r, s') \<and> live s'
    \<and> (case poll_outcome P (cl_next_job_id s) (inbox pending C X s) of
         None \<Rightarrow> (\<exists>e. r = Inl (CliSteam e))
       | Some r' \<Rightarrow> r = map_err CliSteam r')"
  using assms(1)
proof (induction "length (inbox pending C X s)" arbitrary: s n rule: less_induct)
  case less
  then obtain c where "no_jobs s" "cl_cipher s = Some c" by (auto simp: live_def)
  from service_call_spec [OF this, of C X "le_random E (PollCall n)" EMSG_SERVICE_METHOD_CALL_FROM_CLIENT_NON_AUTHED
      "\<lambda>job_id. default_header\<lparr>ch_jobid_source := Some job_id,
         ch_target_job_name := Some ''Authentication.PollAuthSessionStatus#1''\<rparr>" "p_enc_poll P client_id request_id",
      folded call_service_method_non_authed_def]
  obtain passed reply rest s1 r1 where
    call: "call_service_method_non_authed T C X (le_random E (PollCall n)) ''Authentication.PollAuthSessionStatus#1''
         (p_enc_poll P client_id request_id) s = Some (r1, s1)"
    and reply: "take_reply (is_response (cl_next_job_id s)) (inbox pending C X s) = (passed, reply, rest)"
    and out: "outcome from_incoming reply r1"
    and s1: "received (s\<lparr>cl_next_job_id := cl_next_job_id s + 1,
                  cl_events := cl_events s @ (if cl_event_open s then passed else [])\<rparr>) s1"
    and inb: "reply \<noteq> None \<longrightarrow> inbox pending C X s1 = rest"
    by (elim exE conjE) (rule that)
  have live: "live s1" using live_received [OF s1] less.prems by (simp add: live_def no_jobs_def)
  have job: "cl_next_job_id s1 = cl_next_job_id s + 1" using receivedD(4) [OF s1] by simp
  let ?r = "and_then r1 (\<lambda>body. map_ok tokens_of (decode_with (p_dec_poll P) body))"
  have step: "poll_loop T C X P E interval client_id request_id n s =
      (case ?r of Inl e \<Rightarrow> Some (Inl (CliSteam e), s1)
       | Inr (Some tokens) \<Rightarrow> Some (Inr (tk_refresh_token tokens), s1)
       | Inr None \<Rightarrow> poll_loop T C X P E interval client_id request_id (n + 1) s1)"
    using assms(2) call by (subst poll_loop.simps) (simp add: poll_auth_session_def call_decode_def)
  show ?case
  proof (cases reply)
    case None
    with out obtain e where "r1 = Inl e" by (auto simp: outcome_def)
    with step live reply None show ?thesis by (subst poll_outcome.simps) simp
  next
    case (Some x)
    show ?thesis
    proof (cases x)
      case (Inl e)
      with out Some have "r1 = Inl e" by (simp add: outcome_def)
      with step live reply Some Inl show ?thesis by (subst poll_outcome.simps) simp
    next
      case (Inr m)
      with out Some have r1: "r1 = from_incoming m" by (simp add: outcome_def)
      have po: "poll_outcome P (cl_next_job_id s) (inbox pending C X s) =
          (case ?r of Inl e \<Rightarrow> Some (Inl e)
           | Inr (Some tokens) \<Rightarrow> Some (Inr (tk_refresh_token tokens))
           | Inr None \<Rightarrow> poll_outcome P (cl_next_job_id s1) (inbox pending C X s1))"
        using reply Some Inr inb job r1 by (subst poll_outcome.simps) (simp split: sum.split option.split)
      from less.hyps [OF _ live, of "n + 1"] take_reply_rest [of _ "inbox pending C X s"] reply Some inb
      have IH: "\<exists>r s'. poll_loop T C X P E interval client_id request_id (n + 1) s1 = Some (r, s') \<and> live s'
          \<and> (case poll_outcome P (cl_next_job_id s1) (inbox pending C X s1) of
               None \<Rightarrow> (\<exists>e. r = Inl (CliSteam e)) | Some r' \<Rightarrow> r = map_err CliSteam r')"
        by blast
      show ?thesis
      proof (cases ?r)
        case (Inl e)
        with step po live show ?thesis by simp
      next
        case (Inr t)
        with step po live IH show ?thesis by (cases t) simp_all
      qed
    qed
  qed
qed

text \<open>Every part of an authentication returns; the polling does when its interval can be slept.\<close>

lemma password_attempt_returns:
  assumes "live s"
  shows "returns live (password_attempt T C X P E opts username attempts s)"
  unfolding password_attempt_def
  by (rule returns_then, rule returns_give, rule assms)
     (rule returns_then, simp, rule always_returns, rule live_authentication, assumption,
       rule returns_then, rule returns_give, assumption,
       auto split: prod.split intro!: always_returns always_map live_authentication)

lemma begin_session_returns:
  "live s \<Longrightarrow> returns live (begin_session T C X P E opts username attempts s)"
proof (induction "MAX_PASSWORD_ATTEMPTS - attempts" arbitrary: attempts s rule: less_induct)
  case less
  from password_attempt_returns [OF less.prems, of C X P E opts username "attempts + 1"] show ?case
  proof (cases rule: returnsE)
    case err
    then show ?thesis by (subst begin_session.simps) simp
  next
    case (ok r s')
    with less.hyps [of "attempts + 1" s'] show ?thesis
      by (subst begin_session.simps) (auto split: sum.split)
  qed
qed

lemma handle_guard_returns:
  "live s \<Longrightarrow> returns live (handle_guard T C X P E client_id steam_id confirmations s)"
proof (induction confirmations)
  case (Cons c cs)
  have "returns live (then_do (give (map_err CliIo (le_guard_code E)) s) (\<lambda>code s.
      with_err CliSteam (submit_steam_guard_code T C X P (le_random E GuardCall) client_id steam_id (trim code) c s)))"
    by (rule returns_then, rule returns_give, rule Cons.prems) (auto intro: always_returns live_authentication)
  with Cons show ?case by simp
qed simp

lemma poll_loop_returns:
  "live s \<Longrightarrow> interval_ok (poll_interval interval)
    \<Longrightarrow> returns live (poll_loop T C X P E interval client_id request_id n s)"
  using poll_loop_spec [of s interval C X P E client_id request_id n]
  by (auto simp: returns_def split: sum.split)

lemma encrypt_returns: "no_jobs s \<Longrightarrow> returns live (encrypt T C X key random s)"
  by (auto simp: encrypt_def Let_def transport_recv_def transport_send_def client_send_msg_def send_encrypted_def
      live_def no_jobs_def returns_def split: prod.split sum.split)

lemma live_login_response: "live (snd (login_response X m s)) \<longleftrightarrow> live s"
  by (simp add: login_response_def live_def no_jobs_def Let_def split: option.split sum.split)

lemma login_returns: "live s \<Longrightarrow> returns live (login T C X random msg s)"
proof -
  assume "live s"
  then obtain c where "no_jobs s" "cl_cipher s = Some c" by (auto simp: live_def)
  from login_spec [OF this, of C X random msg] obtain passed reply s' where
    reply: "received (s\<lparr>cl_events := cl_events s @ (if cl_event_open s then passed else [])\<rparr>) s'"
    and run: "case reply of
         None \<Rightarrow> (\<exists>e. login T C X random msg s = Some (Inl e, s'))
       | Some (Inl e) \<Rightarrow> login T C X random msg s = Some (Inl e, s')
       | Some (Inr m) \<Rightarrow> login T C X random msg s = Some (login_response X m s')"
    by blast
  have live: "live s'"
    using live_received [OF reply] \<open>live s\<close> by (simp add: live_def no_jobs_def)
  show ?thesis
  proof (cases reply)
    case (Some x)
    then show ?thesis
    proof (cases x)
      case (Inr m)
      with Some run have "login T C X random msg s = Some (login_response X m s')" by simp
      with live live_login_response [of X m s'] show ?thesis
        by (cases "login_response X m s'"; cases "fst (login_response X m s')") simp_all
    qed (use run in simp)
  qed (use run in auto)
qed

end

section \<open>A login returns\<close>

text \<open>The servers name intervals that can be slept.\<close>

definition intervals_ok :: "service_codec \<Rightarrow> bool" where
  "intervals_ok P \<longleftrightarrow>
     (\<forall>b c r i confs sid. p_dec_begin_credentials P b = Some (c, r, i, confs, sid) \<longrightarrow> interval_ok (poll_interval i))
   \<and> (\<forall>b c r u i confs. p_dec_begin_qr P b = Some (c, r, u, i, confs) \<longrightarrow> interval_ok (poll_interval i))"

lemma session_intervals:
  assumes "intervals_ok P"
  shows "begin_auth_session_via_credentials T C X P random encoded s = Some (Inr session, s')
      \<Longrightarrow> interval_ok (poll_interval (as_poll_interval session))"
    "begin_auth_session_via_qr T C X P random encoded s = Some (Inr qr_session, s')
      \<Longrightarrow> interval_ok (poll_interval (qs_poll_interval qr_session))"
  using assms
  by (auto simp: begin_auth_session_via_credentials_def begin_auth_session_via_qr_def call_decode_def decode_with_def
      result_simps intervals_ok_def split: option.splits prod.splits) blast+

lemma begin_session_last:
  "begin_session T C X P E opts username attempts s = Some (Inr session, s')
    \<Longrightarrow> \<exists>random encoded s1. begin_auth_session_via_credentials T C X P random encoded s1 = Some (Inr session, s')"
proof (induction T C X P E opts username attempts s rule: begin_session.induct)
  case (1 T C X P E opts username attempts s)
  show ?case
  proof (cases "password_attempt T C X P E opts username (attempts + 1) s")
    case None
    with 1(2) show ?thesis by (simp add: begin_session.simps [of T])
  next
    case (Some p)
    obtain r s1 where p: "p = (r, s1)" by (cases p)
    show ?thesis
    proof (cases r)
      case (Inl e)
      with 1(2) Some p show ?thesis by (simp add: begin_session.simps [of T])
    next
      case (Inr q)
      show ?thesis
      proof (cases q)
        case (Inl e)
        with 1 Some p Inr show ?thesis by (simp add: begin_session.simps [of T C X P E opts username attempts] split: if_splits)
      next
        case q: (Inr t)
        with 1(2) Some p Inr have "password_attempt T C X P E opts username (attempts + 1) s = Some (Inr (Inr session), s')"
          by (simp add: begin_session.simps [of T])
        then show ?thesis
          by (auto simp: password_attempt_def then_do_ok split: prod.splits)
      qed
    qed
  qed
qed

lemma begin_session_interval:
  "intervals_ok P \<Longrightarrow> begin_session T C X P E opts username attempts s = Some (Inr session, s')
    \<Longrightarrow> interval_ok (poll_interval (as_poll_interval session))"
  using begin_session_last session_intervals(1) by blast

context sending_transport
begin

lemma authenticate_returns:
  assumes "intervals_ok P" "live s"
  shows "returns live (authenticate_credentials T C X P E username opts s)"
    "returns live (authenticate_qr T C X P E opts s)"
proof -
  have give: "returns live (then_do (give r s) f)" if "live s" "\<And>x. returns live (f x s)"
    for r :: "cli_error + 'x" and f :: "'x \<Rightarrow> 't client \<Rightarrow> (cli_error, 'y, 't client) run" and s
    by (cases r) (simp_all add: that give_def)
  show "returns live (authenticate_credentials T C X P E username opts s)"
    unfolding authenticate_credentials_def
    by (rule returns_then, rule begin_session_returns, rule assms(2))
       (auto intro!: give returns_then [OF handle_guard_returns] poll_loop_returns
         dest: begin_session_interval [OF assms(1)])
  show "returns live (authenticate_qr T C X P E opts s)"
    unfolding authenticate_qr_def
    by (rule returns_then, simp, rule always_returns, rule live_authentication, rule assms(2))
       (auto intro!: give poll_loop_returns simp: with_err_ok dest: session_intervals(2) [OF assms(1)])
qed

lemma do_login_returns:
  assumes "intervals_ok P" "no_jobs s"
  shows "returns (\<lambda>sf. live (fst sf)) (do_login T C X P E opts (s, fs))"
proof -
  have token: "returns (\<lambda>(s, _). live s) (obtain_token T C X P E username opts (s, fs))" if "live s" for username s fs
    using authenticate_returns(1) [OF assms(1) that, of C X E username opts] that
    by (auto simp: obtain_token_def Let_def split: option.split elim!: returnsE)
  have msg: "returns (\<lambda>(s, _). live s)
       (case ao_username (op_auth opts) of
          Some username \<Rightarrow> then_do (obtain_token T C X P E username opts sf) (\<lambda>token sf. Some (Inr (f username token), sf))
        | None \<Rightarrow> if ao_qr (op_auth opts)
            then then_do (beside (snd sf) (authenticate_qr T C X P E opts (fst sf))) (\<lambda>token sf. Some (Inr (g token), sf))
            else Some (Inr anonymous, sf))"
    if "live (fst sf)" for sf and f g and anonymous :: client_msg
  proof (cases "ao_username (op_auth opts)")
    case None
    from authenticate_returns(2) [OF assms(1) that, of C X E opts] that None show ?thesis
      by (auto elim!: returnsE)
  next
    case (Some username)
    from token [OF that, of username "snd sf"] Some show ?thesis by (auto intro: returns_then)
  qed
  show ?thesis
    unfolding do_login_def
  proof (rule returns_then [where Q = "\<lambda>sf. live (fst sf)"])
    show "returns (\<lambda>sf. live (fst sf)) (beside (snd (s, fs)) (with_err CliSteam
        (encrypt T C X (le_random E SessionKey) (le_random E Hello) (fst (s, fs)))))"
      using encrypt_returns [OF assms(2), of C X "le_random E SessionKey" "le_random E Hello"]
      by (auto elim!: returnsE)
  next
    fix x and sf :: "'t client \<times> file_system"
    assume live: "live (fst sf)"
    have "returns (\<lambda>sf. live (fst sf)) (then_do (beside (snd sf) (with_err CliSteam (login T C X random msg (fst sf))))
        (\<lambda>_ sf. Some (Inr (), sf)))" if "live (fst sf)" for sf :: "'t client \<times> file_system" and random msg
      using login_returns [OF that, of C X random msg] by (auto elim!: returnsE)
    then show "returns (\<lambda>sf. live (fst sf)) (then_do
       (case ao_username (op_auth opts) of
          Some username \<Rightarrow>
            then_do (obtain_token T C X P E username opts sf) (\<lambda>access_token sf.
            Some (Inr (logon_msg AT_Individual (le_enc_logon E ((logon_request opts)
              \<lparr>lo_access_token := Some access_token, lo_account_name := Some username,
               lo_should_remember_password := Some (ao_remember_password (op_auth opts))\<rparr>))), sf))
        | None \<Rightarrow>
            if ao_qr (op_auth opts) then
              then_do (beside (snd sf) (authenticate_qr T C X P E opts (fst sf))) (\<lambda>access_token sf.
              Some (Inr (logon_msg AT_Individual (le_enc_logon E ((logon_request opts)
                \<lparr>lo_access_token := Some access_token\<rparr>))), sf))
            else Some (Inr (logon_msg AT_AnonUser (build_logon_body E opts)), sf)) (\<lambda>msg sf.
       then_do (beside (snd sf) (with_err CliSteam (login T C X (le_random E Logon) msg (fst sf)))) (\<lambda>_ sf.
       Some (Inr (), sf))))"
      by (intro returns_then [OF msg [OF live]]) auto
  qed
qed

end

section \<open>Trying servers\<close>

text \<open>A run of attempts that fail without an authentication error, with their errors.\<close>

inductive failing ::
  "(nat \<Rightarrow> cm_server \<Rightarrow> file_system \<Rightarrow> (cli_error, 'c, file_system) run)
    \<Rightarrow> nat \<Rightarrow> cm_server list \<Rightarrow> file_system \<Rightarrow> cli_error list \<Rightarrow> file_system \<Rightarrow> bool" for attempt where
  none: "failing attempt i [] fs [] fs"
| one: "attempt i server fs = Some (Inl e, fs1) \<Longrightarrow> \<not> is_auth_error e \<Longrightarrow> failing attempt (i + 1) servers fs1 es fs2
    \<Longrightarrow> failing attempt i (server # servers) fs (e # es) fs2"

inductive_simps failing_simps [simp]:
  "failing attempt i [] fs es fs'" "failing attempt i (server # servers) fs es fs'"

lemma failing_length: "failing attempt i servers fs es fs' \<Longrightarrow> length es = length servers"
  by (induction rule: failing.induct) simp_all

text \<open>What deciding for a server means: the attempt succeeds or fails with an authentication error.\<close>

definition decisive :: "cli_error + 'c \<Rightarrow> bool" where
  "decisive r = (case r of Inl e \<Rightarrow> is_auth_error e | Inr _ \<Rightarrow> True)"

lemma try_servers_spec:
  "try_servers attempt i last_err servers fs = Some (r, fs') \<longleftrightarrow>
     (\<exists>k es fs1. failing attempt i (take k servers) fs es fs1 \<and> k \<le> length servers \<and>
       (if k < length servers then attempt (i + k) (servers ! k) fs1 = Some (r, fs') \<and> decisive r
        else r = Inl (last (unwrap_or last_err (CliOther ''No CM servers available'') # es)) \<and> fs' = fs1))"
  (is "?run i last_err servers fs \<longleftrightarrow> (\<exists>k es fs1. ?ok i last_err servers fs k es fs1)")
proof (induction servers arbitrary: i last_err fs)
  case Nil
  show ?case by auto
next
  case (Cons server servers)
  show ?case
  proof (cases "attempt i server fs")
    case None
    have "\<not> ?ok i last_err (server # servers) fs k es fs1" for k es fs1
      using None by (cases k) auto
    with None show ?thesis by simp
  next
    case (Some p)
    obtain q fs0 where p: "attempt i server fs = Some (q, fs0)" using Some by (cases p) auto
    show ?thesis
    proof (cases "decisive q")
      case True
      have "?ok i last_err (server # servers) fs k es fs1 \<longleftrightarrow> k = 0 \<and> es = [] \<and> fs1 = fs \<and> r = q \<and> fs' = fs0" for k es fs1
        using p True by (cases k; cases q) (auto simp: decisive_def)
      with p True show ?thesis by (cases q) (auto simp: decisive_def)
    next
      case False
      then obtain e where e: "q = Inl e" "\<not> is_auth_error e" by (cases q) (auto simp: decisive_def)
      have "?ok i last_err (server # servers) fs k es fs1 \<longleftrightarrow>
          (\<exists>k' es'. k = Suc k' \<and> es = e # es' \<and> ?ok (i + 1) (Some e) servers fs0 k' es' fs1)" for k es fs1
      proof (cases k)
        case 0
        with p e show ?thesis by (auto simp: decisive_def)
      next
        case (Suc k')
        with p e show ?thesis by (cases es) (simp_all add: unwrap_or_def, blast?)
      qed
      then have "(\<exists>k es fs1. ?ok i last_err (server # servers) fs k es fs1)
          \<longleftrightarrow> (\<exists>k es fs1. ?ok (i + 1) (Some e) servers fs0 k es fs1)"
        by blast
      moreover have "?run i last_err (server # servers) fs \<longleftrightarrow> ?run (i + 1) (Some e) servers fs0"
        using p e by simp
      ultimately show ?thesis using Cons.IH [of "i + 1" "Some e" fs0] by simp
    qed
  qed
qed

text \<open>A run that returns, and whose value has the property given.\<close>

definition hands_out :: "('a \<Rightarrow> bool) \<Rightarrow> ('e, 'a, 's) run \<Rightarrow> bool" where
  "hands_out Q m \<longleftrightarrow> (case m of None \<Rightarrow> False | Some (Inl _, _) \<Rightarrow> True | Some (Inr x, _) \<Rightarrow> Q x)"

lemma hands_out_simps [simp]:
  "\<not> hands_out Q None" "hands_out Q (Some (Inl e, s))" "hands_out Q (Some (Inr x, s)) \<longleftrightarrow> Q x"
  by (simp_all add: hands_out_def)

lemma hands_outE:
  assumes "hands_out Q m"
  obtains (err) e s where "m = Some (Inl e, s)" | (ok) x s where "m = Some (Inr x, s)" "Q x"
  using assms by (auto simp: hands_out_def split: option.splits sum.splits)

lemma try_servers_hands_out:
  assumes "\<And>i server fs. hands_out Q (attempt i server fs)"
  shows "hands_out Q (try_servers attempt i last_err servers fs)"
proof (induction servers arbitrary: i last_err fs)
  case (Cons server servers)
  from assms [of i server fs] Cons show ?case by (cases rule: hands_outE) simp_all
qed simp

text \<open>A login returns, and a client that it hands out can be used.\<close>

lemma connect_and_login_live:
  assumes "intervals_ok P"
  shows "hands_out live (connect_and_login N parse_json addr_debug base64 to_json C X P E opts fs)"
proof -
  have "hands_out live (try_connect_login N addr_debug base64 to_json C X P E' server opts fs)" for E' server fs
  proof (cases "open_transport N addr_debug server opts")
    case (Inr t)
    have "no_jobs (connect t)" by (simp add: no_jobs_def connect_def)
    from dyn.do_login_returns [OF assms this, of base64 C X E' opts fs] Inr show ?thesis
      by (auto simp: try_connect_login_def live_def no_jobs_def elim!: returnsE)
  qed (simp add: try_connect_login_def)
  then have "hands_out live (try_servers (\<lambda>i server. try_connect_login N addr_debug base64 to_json C X P (E i) server opts) 0 None
      (discover_servers N parse_json (CellId (unwrap_or (op_cell_id opts) 0))) fs)"
    by (rule try_servers_hands_out)
  then show ?thesis unfolding connect_and_login_def Let_def by simp
qed

section \<open>Passwords\<close>

text \<open>The attempts behind the first \<open>a\<close> that are answered with a wrong password.\<close>

fun rejected :: "(nat \<Rightarrow> 's \<Rightarrow> ('e, 'a steam_result, 's) run) \<Rightarrow> nat \<Rightarrow> nat \<Rightarrow> 's \<Rightarrow> 's \<Rightarrow> bool" where
  "rejected attempt a 0 s s' \<longleftrightarrow> s' = s"
| "rejected attempt a (Suc n) s s' \<longleftrightarrow>
     (\<exists>s1. attempt (a + 1) s = Some (Inr (Inl invalid_password), s1) \<and> rejected attempt (a + 1) n s1 s')"

text \<open>The outcome of the last attempt and what the caller gets; \<open>final\<close> when no attempt is left.\<close>

definition concludes :: "bool \<Rightarrow> cli_error + auth_session steam_result \<Rightarrow> cli_error + auth_session \<Rightarrow> bool" where
  "concludes final q r =
     (case q of
        Inl e \<Rightarrow> r = Inl e
      | Inr (Inr session) \<Rightarrow> r = Inr session
      | Inr (Inl e) \<Rightarrow> r = Inl (CliSteam e) \<and> (e = invalid_password \<longrightarrow> final))"

lemma begin_session_spec:
  assumes "a < 3"
  shows "begin_session T C X P E opts username a s = Some (r, s') \<longleftrightarrow>
    (\<exists>n s1 q. a + n < 3 \<and> rejected (password_attempt T C X P E opts username) a n s s1
      \<and> password_attempt T C X P E opts username (a + n + 1) s1 = Some (q, s') \<and> concludes (a + n = 2) q r)"
  (is "?run a s \<longleftrightarrow> (\<exists>n s1 q. ?ok a s n s1 q)")
  using assms
proof (induction "3 - a" arbitrary: a s rule: less_induct)
  case less
  let ?A = "password_attempt T C X P E opts username"
  have run: "?run a s \<longleftrightarrow> (case ?A (a + 1) s of None \<Rightarrow> False
      | Some (q, s1) \<Rightarrow> if q = Inr (Inl invalid_password) \<and> a + 1 < 3 then ?run (a + 1) s1
          else s1 = s' \<and> concludes True q r)"
    by (subst begin_session.simps) (auto simp: concludes_def MAX_PASSWORD_ATTEMPTS_def split: option.splits sum.splits)
  show ?case
  proof (cases "?A (a + 1) s")
    case None
    have "\<not> ?ok a s n s1 q" for n s1 q
      using None by (cases n) auto
    with run None show ?thesis by simp
  next
    case (Some p)
    obtain q0 s0 where p: "?A (a + 1) s = Some (q0, s0)" using Some by (cases p) auto
    show ?thesis
    proof (cases "q0 = Inr (Inl invalid_password) \<and> a + 1 < 3")
      case True
      have "?ok a s n s1 q \<longleftrightarrow> (\<exists>m. n = Suc m \<and> ?ok (a + 1) s0 m s1 q)" for n s1 q
        using p True by (cases n) (auto simp: concludes_def)
      then have "(\<exists>n s1 q. ?ok a s n s1 q) \<longleftrightarrow> (\<exists>n s1 q. ?ok (a + 1) s0 n s1 q)" by blast
      moreover from True have "3 - (a + 1) < 3 - a" "a + 1 < 3" by arith+
      ultimately show ?thesis using run p True less.hyps [of "a + 1" s0] by simp
    next
      case False
      have "?ok a s n s1 q \<longleftrightarrow> n = 0 \<and> s1 = s \<and> q = q0 \<and> s' = s0 \<and> concludes True q0 r" for n s1 q
        using p False less.prems by (cases n) (auto simp: concludes_def split: sum.splits)
      with run p False show ?thesis by auto
    qed
  qed
qed

section \<open>Properties\<close>

text \<open>
  C21: the servers are tried in the order of the list, each with a fresh connection; the first
  one that logs in, or that answers with an authentication error, decides, and no server
  behind it is contacted. When all of them fail otherwise, the error is that of the last one:
  there is always a server to try, so the error for an empty list never occurs.
\<close>

theorem connect_and_login_order:
  "connect_and_login N parse_json addr_debug base64 to_json C X P E opts fs = Some (r, fs') \<longleftrightarrow>
     (let servers = discover_servers N parse_json (CellId (unwrap_or (op_cell_id opts) 0));
          attempt = (\<lambda>i server. try_connect_login N addr_debug base64 to_json C X P (E i) server opts)
      in \<exists>k es fs1. failing attempt 0 (take k servers) fs es fs1 \<and>
           (if k < length servers then attempt k (servers ! k) fs1 = Some (r, fs') \<and> decisive r
            else k = length servers \<and> es \<noteq> [] \<and> r = Inl (last es) \<and> fs' = fs1))"
proof -
  let ?servers = "discover_servers N parse_json (CellId (unwrap_or (op_cell_id opts) 0))"
  let ?attempt = "\<lambda>i server. try_connect_login N addr_debug base64 to_json C X P (E i) server opts"
  have ne: "?servers \<noteq> []" by (rule discover_servers_nonempty)
  then have run: "connect_and_login N parse_json addr_debug base64 to_json C X P E opts fs = try_servers ?attempt 0 None ?servers fs"
    by (simp add: connect_and_login_def)
  show ?thesis
    unfolding run try_servers_spec Let_def
  proof (intro ex_cong1)
    fix k es fs1
    show "(failing ?attempt 0 (take k ?servers) fs es fs1 \<and> k \<le> length ?servers \<and>
         (if k < length ?servers then ?attempt (0 + k) (?servers ! k) fs1 = Some (r, fs') \<and> decisive r
          else r = Inl (last (unwrap_or None (CliOther ''No CM servers available'') # es)) \<and> fs' = fs1)) =
       (failing ?attempt 0 (take k ?servers) fs es fs1 \<and>
         (if k < length ?servers then ?attempt k (?servers ! k) fs1 = Some (r, fs') \<and> decisive r
          else k = length ?servers \<and> es \<noteq> [] \<and> r = Inl (last es) \<and> fs' = fs1))"
      using failing_length [of ?attempt 0 "take k ?servers" fs es fs1] ne by auto
  qed
qed

text \<open>
  A login comes to an end, whatever the servers send before they close their
  connections, when they only name polling intervals that can be slept: on every connection it
  succeeds or fails after finitely many packets, however often it polls and waits.
\<close>

theorem connect_and_login_returns:
  assumes "intervals_ok P"
  shows "connect_and_login N parse_json addr_debug base64 to_json C X P E opts fs \<noteq> None"
  using connect_and_login_live [OF assms, of N parse_json addr_debug base64 to_json C X E opts fs] by (metis hands_out_simps(1))

text \<open>
  C22: at most three passwords are tried: a login session begins with the outcome of the first
  attempt that is not answered with a wrong password, and a wrong password is the result only
  of the third one.
\<close>

theorem begin_session_attempts:
  "begin_session T C X P E opts username 0 s = Some (r, s') \<longleftrightarrow>
     (\<exists>n s1 q. n < 3 \<and> rejected (password_attempt T C X P E opts username) 0 n s s1
       \<and> password_attempt T C X P E opts username (n + 1) s1 = Some (q, s') \<and> concludes (n = 2) q r)"
  using begin_session_spec [of 0 T C X P E opts username s r s'] by simp

text \<open>
  C23: a token obtained with the option to remember it is used by the next login of the same
  user: no password is asked for and nothing is sent to get it, whatever the connection.
\<close>

theorem obtain_token_remembered:
  assumes "obtain_token T C X P E username opts (s, fs) = Some (Inr token, s', fs')"
    and "ao_remember_password (op_auth opts)"
    and "le_tokens_to_str E (token_set username token (token_store_load (le_tokens_from_str E) fs (token_default_path (le_env E))))
           = Some json"
    and "le_tokens_from_str E json
           = Some (token_set username token (token_store_load (le_tokens_from_str E) fs (token_default_path (le_env E))))"
    and "valid_str json"
    and "le_env E' = le_env E" "le_tokens_from_str E' = le_tokens_from_str E"
  shows "obtain_token T' C' X' P' E' username opts' (s2, fs') = Some (Inr token, s2, fs')"
proof -
  let ?path = "token_default_path (le_env E)"
  let ?store = "token_store_load (le_tokens_from_str E) fs ?path"
  have "token_get (token_store_load (le_tokens_from_str E) fs' ?path) username = Some token"
  proof (cases "token_get ?store username")
    case None
    with assms(1,2) have "fs' = snd (save_json (le_tokens_to_str E) (token_set username token ?store) ?path fs)"
      by (auto simp: obtain_token_def Let_def run_ok token_store_save_def)
    with load_save_json [where to_string_pretty = "le_tokens_to_str E" and from_str = "le_tokens_from_str E",
        OF assms(3,4,5), of token_store_default ?path fs]
    have "token_store_load (le_tokens_from_str E) fs' ?path = token_set username token ?store"
      by (simp add: token_store_load_def)
    then show ?thesis by (simp add: token_map.lookup_update)
  next
    case (Some stored)
    with assms(1) show ?thesis by (auto simp: obtain_token_def Let_def)
  qed
  with assms(6,7) show ?thesis by (simp add: obtain_token_def Let_def)
qed

text \<open>A terminal, a key and servers for concrete runs.\<close>

definition sample_login_env :: "(nat, unit) login_env" where
  "sample_login_env =
     \<lparr>le_random = (\<lambda>_. [1, 2, 3]), le_env = (\<lambda>_. None), le_password = (\<lambda>_. Inr ''secret''), le_guard_code = Inr ''12345'',
      le_from_be_hex = (\<lambda>s _. Some (length s)), le_rsa_key = (\<lambda>_ _. Inr ()), le_rsa_encrypt = (\<lambda>_ _ p. Inr p),
      le_base64 = (\<lambda>_. ''x''), le_qr_code = (\<lambda>_. Inr ()), le_enc_credentials = (\<lambda>_. [7]), le_enc_qr = (\<lambda>_ _. [8]),
      le_enc_logon = (\<lambda>_. [9]), le_tokens_from_str = (\<lambda>json. Some (token_set ''u'' json token_store_default)),
      le_tokens_to_str = (\<lambda>store. token_get store ''u'')\<rparr>"

definition login_codec :: service_codec where
  "login_codec = sample_service_codec
     \<lparr>p_dec_rsa_key := (\<lambda>_. Some \<lparr>rk_mod = Some ''C1'', rk_exp = Some ''03'', rk_timestamp = Some 5\<rparr>),
      p_dec_begin_credentials := (\<lambda>_. Some (Some 1, Some [2], None, [Some 3, Some 2], Some 9)),
      p_dec_begin_qr := (\<lambda>_. Some (Some 1, Some [2], Some ''https://s.team/q/1'', Some 0x40000000, []))\<rparr>"

definition sample_options :: options where
  "sample_options =
     \<lparr>op_auth = \<lparr>ao_username = Some ''u'', ao_password = None, ao_qr = False, ao_remember_password = True, ao_device_name = ''d''\<rparr>,
      op_action = ActInfo \<lparr>ia_app = 1, ia_format = Table\<rparr>, op_debug = False, op_cell_id = None, op_max_downloads = 8,
      op_capture = None, op_raw_bytes = False, op_raw_errors = False\<rparr>"

text \<open>Answers to the jobs 1, 2, and so on.\<close>

definition sample_answer :: "u8 \<Rightarrow> bytes \<Rightarrow> bytes" where
  "sample_answer job body =
     frame_bytes (session_encrypt plain_crypto (session_cipher_new (replicate 32 0)) [1, 2, 3]
       (client_msg_write (\<lambda>_. [job])
          \<lparr>cm_emsg = EMSG_SERVICE_METHOD_RESPONSE, cm_header = default_header, cm_body = body\<rparr>))"

lemmas [code] = recv_loop.simps response_loop.simps poll_loop.simps

lemma sample_authentication:
  "map_option fst (authenticate_credentials tcp_ops plain_crypto sample_client_codec login_codec sample_login_env ''u''
      sample_options (sample_client (concat (map (\<lambda>(j, b). sample_answer j b) [(1, []), (2, []), (3, []), (4, []), (5, [1])]))))
    = Some (Inr ''r'')"
  by code_simp

definition sample_files :: file_system where
  "sample_files = \<lparr>fs_files = (\<lambda>_. None), fs_executable = {}\<rparr>"

lemma sample_token_path: "token_default_path (le_env sample_login_env) = ''.depotdownloader/tokens.json''"
  by code_simp

text \<open>The keys, a session, a guard code and two polls, then the login of the next run.\<close>

theorem obtain_token_remembered_witness:
  "obtain_token replay_ops plain_crypto sample_client_codec login_codec sample_login_env ''u'' sample_options
      (connect \<lparr>rp_packets = [], rp_cursor = 0\<rparr>, write_file ''.depotdownloader/tokens.json'' (as_bytes ''r'') sample_files)
    = Some (Inr ''r'', connect \<lparr>rp_packets = [], rp_cursor = 0\<rparr>,
        write_file ''.depotdownloader/tokens.json'' (as_bytes ''r'') sample_files)"
proof -
  let ?s = "sample_client (concat (map (\<lambda>(j, b). sample_answer j b) [(1, []), (2, []), (3, []), (4, []), (5, [1])]))"
  let ?E = sample_login_env
  have load: "token_store_load (le_tokens_from_str ?E) sample_files ''.depotdownloader/tokens.json'' = token_store_default"
    by (simp add: token_store_load_def load_json_def read_to_string_def sample_files_def)
  have json: "le_tokens_to_str ?E (token_set ''u'' ''r'' token_store_default) = Some ''r''"
    "le_tokens_from_str ?E ''r'' = Some (token_set ''u'' ''r'' token_store_default)" "valid_str ''r''"
    by (simp_all add: sample_login_env_def token_get_def token_set_def) code_simp
  from sample_authentication obtain s' where auth:
    "authenticate_credentials tcp_ops plain_crypto sample_client_codec login_codec ?E ''u'' sample_options ?s = Some (Inr ''r'', s')"
    by auto
  have remember: "ao_remember_password (op_auth sample_options)" by (simp add: sample_options_def)
  have "obtain_token tcp_ops plain_crypto sample_client_codec login_codec ?E ''u'' sample_options (?s, sample_files)
      = Some (Inr ''r'', s', write_file ''.depotdownloader/tokens.json'' (as_bytes ''r'') sample_files)"
    unfolding obtain_token_def Let_def prod.case sample_token_path load token_map.lookup_empty auth
    using remember json(1) by (simp add: token_store_save_def save_json_def)
  from obtain_token_remembered [OF this remember, unfolded sample_token_path load, OF json refl refl]
  show ?thesis .
qed

text \<open>A network on which every server sends the same bytes.\<close>

definition sample_network :: "bytes \<Rightarrow> network" where
  "sample_network b =
     \<lparr>net_lookup = (\<lambda>_. Inr [\<lparr>sa_ip = V4 10 0 0 1, sa_port = 27017\<rparr>]),
      net_connect = (\<lambda>_. Inr \<lparr>tcp_incoming = b, tcp_outgoing = []\<rparr>), net_get = (\<lambda>_ _. Inl (Http (Some 500)))\<rparr>"

theorem connect_and_login_returns_witness:
  "connect_and_login (sample_network (sample_answer 1 [])) (\<lambda>_. Inl (Http None)) (\<lambda>_. ''server'') (\<lambda>_. '''') (\<lambda>_. None)
     plain_crypto sample_client_codec login_codec (\<lambda>_. sample_login_env) sample_options sample_files \<noteq> None"
proof -
  have "intervals_ok login_codec"
    by (auto simp: intervals_ok_def login_codec_def interval_ok_def poll_interval_def)
  then show ?thesis by (rule connect_and_login_returns)
qed

end
