(* ===== verification/Download_Spec.thy ===== *)
theory Download_Spec
  imports Download
begin

text \<open>
  What the downloader promises and where it breaks: a file reported as downloaded is
  complete and verified (given that the chunks it reuses from an old version are intact), a
  failed download leaves the installed file alone, nothing else on disk is touched, and a
  chunk is tried as often as configured.
\<close>

section \<open>Retry\<close>

lemma retry_loop_spec:
  "a \<le> max_attempts cfg \<Longrightarrow> fst (retry_loop cfg fetch a) =
     (case find (\<lambda>i. is_ok (fetch i)) [a..<max_attempts cfg] of
        Some i \<Rightarrow> map_ok Some (fetch i)
      | None \<Rightarrow> if a = max_attempts cfg then Inr None else map_ok Some (fetch (max_attempts cfg - 1)))"
proof (induction cfg fetch a rule: retry_loop.induct)
  case (1 cfg fetch a)
  show ?case
  proof (cases "a < max_attempts cfg")
    case False
    with "1.prems" have "a = max_attempts cfg" by simp
    then show ?thesis by (simp add: retry_loop.simps [of cfg fetch "max_attempts cfg"])
  next
    case True
    then have up: "[a..<max_attempts cfg] = a # [a + 1..<max_attempts cfg]" by (simp add: upt_rec)
    show ?thesis
    proof (cases "fetch a")
      case (Inr d)
      with True show ?thesis by (simp add: retry_loop.simps [of cfg fetch a] up)
    next
      case (Inl e)
      show ?thesis
      proof (cases "a + 1 < max_attempts cfg")
        case True
        with "1.IH" [OF \<open>a < max_attempts cfg\<close> Inl True] Inl show ?thesis
          by (cases "retry_loop cfg fetch (a + 1)")
             (simp add: retry_loop.simps [of cfg fetch a] up split: option.splits)
      next
        case False
        with True have "max_attempts cfg = Suc a" by simp
        with Inl show ?thesis by (simp add: retry_loop.simps [of cfg fetch a])
      qed
    qed
  qed
qed

lemma retry_loop_delays:
  "a < max_attempts cfg \<Longrightarrow> snd (retry_loop cfg fetch a) =
     map (\<lambda>k. initial_delay cfg * 2 ^ k)
       [a..<(case find (\<lambda>i. is_ok (fetch i)) [a..<max_attempts cfg] of Some i \<Rightarrow> i | None \<Rightarrow> max_attempts cfg - 1)]"
proof (induction cfg fetch a rule: retry_loop.induct)
  case (1 cfg fetch a)
  have up: "[a..<max_attempts cfg] = a # [a + 1..<max_attempts cfg]" using "1.prems" by (simp add: upt_rec)
  show ?case
  proof (cases "a + 1 < max_attempts cfg \<and> \<not> is_ok (fetch a)")
    case False
    then show ?thesis
      using "1.prems" up by (cases "fetch a") (auto simp: retry_loop.simps [of cfg fetch a])
  next
    case True
    then obtain e where e: "fetch a = Inl e" by (cases "fetch a") auto
    let ?last = "case find (\<lambda>i. is_ok (fetch i)) [a + 1..<max_attempts cfg] of Some i \<Rightarrow> i | None \<Rightarrow> max_attempts cfg - 1"
    have "a < ?last" using True by (auto simp: find_Some_iff split: option.split)
    then have "[a..<?last] = a # [a + 1..<?last]" by (simp add: upt_rec)
    with True e up "1.prems" "1.IH" [of e] show ?thesis
      by (simp add: retry_loop.simps [of cfg fetch a] split_beta)
  qed
qed

section \<open>Files made of chunks\<close>

text \<open>Chunks that tile part of a file: complete entries, distinct ids, disjoint ranges.\<close>

definition chunk_complete :: "nat \<Rightarrow> manifest_chunk \<Rightarrow> bool" where
  "chunk_complete n c \<longleftrightarrow>
     (case (mc_id c, mc_offset c, mc_uncompressed_size c, mc_checksum c) of
        (Some _, Some off, Some sz, Some _) \<Rightarrow> unat off + unat sz \<le> n
      | _ \<Rightarrow> False)"

definition chunks_disjoint :: "manifest_chunk \<Rightarrow> manifest_chunk \<Rightarrow> bool" where
  "chunks_disjoint c d \<longleftrightarrow>
     unat (the (mc_offset c)) + unat (the (mc_uncompressed_size c)) \<le> unat (the (mc_offset d))
     \<or> unat (the (mc_offset d)) + unat (the (mc_uncompressed_size d)) \<le> unat (the (mc_offset c))"

definition chunks_wf :: "nat \<Rightarrow> manifest_chunk list \<Rightarrow> bool" where
  "chunks_wf n cs \<longleftrightarrow>
     list_all (chunk_complete n) cs \<and> distinct (map mc_id cs) \<and> sorted_wrt chunks_disjoint cs"

text \<open>The data a chunk stands for.\<close>

definition chunk_data_ok :: "manifest_chunk \<Rightarrow> bytes \<Rightarrow> bool" where
  "chunk_data_ok c d \<longleftrightarrow>
     length d = unat (the (mc_uncompressed_size c))
     \<and> steam_adler32_compute d = SteamAdler32 (the (mc_checksum c))"

definition good_chunks :: "manifest_chunk list \<Rightarrow> bytes \<Rightarrow> manifest_chunk set" where
  "good_chunks cs content = {c \<in> set cs. chunk_good content c}"

text \<open>Filling a file: its length stays, a good chunk stays good.\<close>

definition fills :: "nat \<Rightarrow> manifest_chunk list \<Rightarrow> manifest_chunk set \<Rightarrow> bytes \<Rightarrow> bytes \<Rightarrow> bool" where
  "fills n cs S content content' \<longleftrightarrow>
     (length content = n \<longrightarrow> length content' = n \<and> good_chunks cs content \<union> S \<subseteq> good_chunks cs content')"

lemma fills_refl [simp]: "fills n cs {} content content"
  by (simp add: fills_def)

lemma fills_trans: "fills n cs S a b \<Longrightarrow> fills n cs T b c \<Longrightarrow> fills n cs (S \<union> T) a c"
  by (auto simp: fills_def)

lemma chunk_completeD:
  assumes "chunk_complete n c"
  obtains i off sz k where "mc_id c = Some i" "mc_offset c = Some off" "mc_uncompressed_size c = Some sz"
    "mc_checksum c = Some k" "unat off + unat sz \<le> n"
  using assms by (auto simp: chunk_complete_def split: option.splits)

lemma chunks_wf_other:
  assumes "chunks_wf n cs" "c \<in> set cs" "d \<in> set cs" "c \<noteq> d"
  shows "chunks_disjoint c d"
proof -
  have "chunks_disjoint x y \<Longrightarrow> chunks_disjoint y x" for x y by (auto simp: chunks_disjoint_def)
  with assms show ?thesis
    unfolding chunks_wf_def by (induction cs) auto
qed

lemma chunks_wf_id:
  "chunks_wf n cs \<Longrightarrow> c \<in> set cs \<Longrightarrow> d \<in> set cs \<Longrightarrow> mc_id c = mc_id d \<Longrightarrow> c = d"
  unfolding chunks_wf_def by (auto simp: distinct_map inj_on_def)

lemma write_chunk_fills:
  assumes wf: "chunks_wf n cs" and c: "c \<in> set cs" and d: "chunk_data_ok c d"
  shows "fills n cs {c} content (write_chunk c d content)"
proof -
  from wf c have "chunk_complete n c" by (simp add: chunks_wf_def list_all_iff)
  then obtain i off sz k where off: "mc_offset c = Some off" and sz: "mc_uncompressed_size c = Some sz"
    and k: "mc_checksum c = Some k" and le: "unat off + unat sz \<le> n"
    by (rule chunk_completeD)
  from d sz k have len: "length d = unat sz" and sum: "steam_adler32_compute d = SteamAdler32 k"
    by (simp_all add: chunk_data_ok_def)
  have "length (write_chunk c d content) = n \<and> chunk_good (write_chunk c d content) c"
    if "length content = n"
    using that le len sum off sz k read_at_write_at_same [of "unat off" d content]
    by (simp add: write_chunk_def length_write_at chunk_good_def)
  moreover have "chunk_good (write_chunk c d content) x"
    if n: "length content = n" and x: "x \<in> set cs" "x \<noteq> c" "chunk_good content x" for x
  proof -
    from wf x(1) have "chunk_complete n x" by (simp add: chunks_wf_def list_all_iff)
    then obtain off' sz' where x': "mc_offset x = Some off'" "mc_uncompressed_size x = Some sz'"
      by (rule chunk_completeD)
    from chunks_wf_other [OF wf c x(1)] x(2) x' off sz
    have "unat off' + unat sz' \<le> unat off \<or> unat off + length d \<le> unat off'"
      by (auto simp: chunks_disjoint_def len)
    with n le len x' off have
      "read_at (unat off') (unat sz') (write_chunk c d content) = read_at (unat off') (unat sz') content"
      by (simp add: write_chunk_def read_at_write_at_other)
    with x(3) x' show ?thesis by (simp add: chunk_good_def split: option.splits)
  qed
  ultimately show ?thesis
    using c by (auto simp: fills_def good_chunks_def)
qed

section \<open>Delta reuse\<close>

text \<open>
  What the code relies on and does not check: a chunk that the old manifest lists is, in the
  old file, at the place the old manifest says, the data the new manifest wants.
\<close>

definition delta_ok :: "file_system \<Rightarrow> file_task \<Rightarrow> bool" where
  "delta_ok fs task \<longleftrightarrow>
     (case (ft_old_chunks task, fs_files fs (ft_path task)) of
        (Some old_chunks, Some old_content) \<Rightarrow>
          list_all (\<lambda>c. case mc_id c of None \<Rightarrow> True
            | Some i \<Rightarrow> (case old_match old_chunks i of None \<Rightarrow> True
              | Some oc \<Rightarrow> (case mc_offset oc of None \<Rightarrow> False
                | Some off \<Rightarrow> (case read_at (unat off) (unat (the (mc_uncompressed_size c))) old_content of
                    None \<Rightarrow> False | Some buf \<Rightarrow> chunk_data_ok c buf)))) (ft_chunks task)
      | _ \<Rightarrow> True)"

lemma copy_chunk_fills:
  assumes wf: "chunks_wf n cs" and c: "c \<in> set cs"
    and ok: "case mc_id c of None \<Rightarrow> True
            | Some i \<Rightarrow> (case old_match ocs i of None \<Rightarrow> True
              | Some oc \<Rightarrow> (case mc_offset oc of None \<Rightarrow> False
                | Some off \<Rightarrow> (case read_at (unat off) (unat (the (mc_uncompressed_size c))) old of
                    None \<Rightarrow> False | Some buf \<Rightarrow> chunk_data_ok c buf)))"
  shows "fills n cs (if \<exists>i. mc_id c = Some i \<and> old_match ocs i \<noteq> None then {c} else {}) content
    (copy_chunk ocs old c content)"
proof -
  from wf c have "chunk_complete n c" by (simp add: chunks_wf_def list_all_iff)
  then obtain i off sz k where *: "mc_id c = Some i" "mc_offset c = Some off" "mc_uncompressed_size c = Some sz"
    by (rule chunk_completeD)
  show ?thesis
  proof (cases "old_match ocs i")
    case None
    with * show ?thesis by (simp add: copy_chunk_def)
  next
    case (Some oc)
    with ok * obtain o' buf where "mc_offset oc = Some o'" "read_at (unat o') (unat sz) old = Some buf"
      "chunk_data_ok c buf"
      by (auto split: option.splits)
    with Some * write_chunk_fills [OF wf c, of buf content] show ?thesis
      by (simp add: copy_chunk_def write_chunk_def)
  qed
qed

lemma copy_all_fills:
  assumes "chunks_wf n cs"
    and "\<And>c. c \<in> set xs \<Longrightarrow> c \<in> set cs"
    and "\<And>c. c \<in> set xs \<Longrightarrow> (case mc_id c of None \<Rightarrow> True
            | Some i \<Rightarrow> (case old_match ocs i of None \<Rightarrow> True
              | Some oc \<Rightarrow> (case mc_offset oc of None \<Rightarrow> False
                | Some off \<Rightarrow> (case read_at (unat off) (unat (the (mc_uncompressed_size c))) old of
                    None \<Rightarrow> False | Some buf \<Rightarrow> chunk_data_ok c buf))))"
  shows "fills n cs {c \<in> set xs. \<exists>i. mc_id c = Some i \<and> old_match ocs i \<noteq> None} content
    (fold (copy_chunk ocs old) xs content)"
  using assms(2,3)
proof (induction xs arbitrary: content)
  case Nil
  then show ?case by simp
next
  case (Cons c xs)
  have "fills n cs (if \<exists>i. mc_id c = Some i \<and> old_match ocs i \<noteq> None then {c} else {}) content
      (copy_chunk ocs old c content)"
    using Cons.prems by (intro copy_chunk_fills [OF assms(1)]) simp_all
  moreover have "fills n cs {c \<in> set xs. \<exists>i. mc_id c = Some i \<and> old_match ocs i \<noteq> None}
      (copy_chunk ocs old c content) (fold (copy_chunk ocs old) xs (copy_chunk ocs old c content))"
    using Cons.prems by (intro Cons.IH) simp_all
  ultimately have "fills n cs ((if \<exists>i. mc_id c = Some i \<and> old_match ocs i \<noteq> None then {c} else {})
      \<union> {c \<in> set xs. \<exists>i. mc_id c = Some i \<and> old_match ocs i \<noteq> None}) content
      (fold (copy_chunk ocs old) (c # xs) content)"
    by (simp add: fills_trans)
  moreover have "(if \<exists>i. mc_id c = Some i \<and> old_match ocs i \<noteq> None then {c} else {})
      \<union> {c \<in> set xs. \<exists>i. mc_id c = Some i \<and> old_match ocs i \<noteq> None}
      = {x \<in> set (c # xs). \<exists>i. mc_id x = Some i \<and> old_match ocs i \<noteq> None}"
    by auto
  ultimately show ?case by simp
qed

section \<open>Fetched chunks\<close>

lemma chunk_task_data:
  assumes "chunk_task C Z job i c cid = Inr d" "chunk_complete n c"
  shows "chunk_data_ok c d"
  using assms by (auto simp: chunk_task_def chunk_data_ok_def process_chunk_Inr elim!: and_thenE)

lemma finish_all_fills:
  assumes "chunks_wf n cs"
    and "\<And>c cid r. (c, cid, r) \<in> set ts \<Longrightarrow> c \<in> set cs \<and> (\<exists>d. r = Inr d \<and> chunk_data_ok c d)"
  shows "fills n cs (fst ` set ts) content (fst (fold (finish_chunk dep) ts (content, evs)))"
  using assms(2)
proof (induction ts arbitrary: content evs)
  case Nil
  then show ?case by simp
next
  case (Cons t ts)
  obtain c cid r where t: "t = (c, cid, r)" by (cases t)
  from Cons.prems [of c cid r] t obtain d where d: "r = Inr d" "chunk_data_ok c d" "c \<in> set cs" by auto
  have "fills n cs {c} content (write_chunk c d content)"
    by (rule write_chunk_fills [OF assms(1) d(3,2)])
  moreover have "fills n cs (fst ` set ts) (write_chunk c d content)
      (fst (fold (finish_chunk dep) ts (write_chunk c d content, evs @ [ChunkCompleted dep cid (length d)])))"
    using Cons.prems by (intro Cons.IH) auto
  ultimately have "fills n cs ({c} \<union> fst ` set ts) content
      (fst (fold (finish_chunk dep) ts (write_chunk c d content, evs @ [ChunkCompleted dep cid (length d)])))"
    by (rule fills_trans)
  moreover have "finish_chunk dep (c, cid, Inr d) (content, evs)
      = (write_chunk c d content, evs @ [ChunkCompleted dep cid (length d)])"
    by (simp add: finish_chunk_def)
  ultimately show ?case by (simp add: t d(1))
qed

lemma first_error_ok: "first_error rs = Inr u \<longleftrightarrow> list_all is_ok rs"
  by (induction rs) (auto simp: first_error_def split: sum.splits if_splits option.splits)

section \<open>Verified files\<close>

lemma verify_chunks_Inr:
  "verify_chunks fs path cs = Inr bad \<longleftrightarrow>
     (\<exists>b. fs_files fs path = Some b \<and> bad = map fst (filter (\<lambda>(i, c). \<not> chunk_good b c) (enumerate 0 cs)))"
  by (auto simp: verify_chunks_def split: option.splits)

lemma file_has_valid_chunks_iff:
  "file_has_valid_chunks fs path expected cs = Inr True \<longleftrightarrow>
     (\<exists>b n. fs_files fs path = Some b \<and> expected = Some n \<and> length b = unat n \<and> list_all (chunk_good b) cs)"
proof -
  have "map fst (filter (\<lambda>(i, c). \<not> chunk_good b c) (enumerate k cs)) = [] \<longleftrightarrow> list_all (chunk_good b) cs" for b k
    by (induction cs arbitrary: k) auto
  then show ?thesis
    by (auto simp: file_has_valid_chunks_def file_has_correct_size_def verify_chunks_def split: option.splits)
qed

lemma file_has_valid_chunks_ok: "\<exists>v. file_has_valid_chunks fs path expected cs = Inr v"
  by (auto simp: file_has_valid_chunks_def file_has_correct_size_def verify_chunks_def split: option.splits)

lemma bad_index:
  "k < length cs \<Longrightarrow> k \<in> set (map fst (filter (\<lambda>(k, c). \<not> P c) (enumerate 0 cs))) \<longleftrightarrow> \<not> P (cs ! k)"
  by (force simp: in_set_enumerate_eq)

lemma in_valid_ids:
  "i \<in> valid_ids (map fst (filter (\<lambda>(k, c). \<not> chunk_good b c) (enumerate 0 cs))) cs \<longleftrightarrow>
     (\<exists>c \<in> set cs. mc_id c = Some i \<and> chunk_good b c)" (is "?L \<longleftrightarrow> ?R")
proof -
  have "?L \<longleftrightarrow> (\<exists>k < length cs. (if \<not> chunk_good b (cs ! k) then None else mc_id (cs ! k)) = Some i)"
    unfolding valid_ids_def set_map_filter_iff
    by (simp add: Bex_def in_set_enumerate_eq split_paired_Ex bad_index del: set_map set_filter cong: conj_cong)
  also have "\<dots> \<longleftrightarrow> ?R" by (auto simp: in_set_conv_nth Bex_def split: if_splits)
  finally show ?thesis .
qed

text \<open>With distinct ids, as many valid ids as chunks means that every chunk is valid.\<close>

lemma all_valid:
  assumes wf: "chunks_wf n cs"
    and card: "card {i. \<exists>c \<in> set cs. mc_id c = Some i \<and> chunk_good b c} = length cs"
      (is "card ?V = _")
  shows "list_all (chunk_good b) cs"
proof -
  have dist: "distinct cs" using wf by (auto simp: chunks_wf_def distinct_map)
  have fin: "finite {c \<in> set cs. chunk_good b c}" by simp
  have "?V \<subseteq> (\<lambda>c. the (mc_id c)) ` {c \<in> set cs. chunk_good b c}" by force
  from surj_card_le [OF fin this] have "card ?V \<le> card {c \<in> set cs. chunk_good b c}" .
  with card dist have "card (set cs) \<le> card {c \<in> set cs. chunk_good b c}" by (simp add: distinct_card)
  then have "{c \<in> set cs. chunk_good b c} = set cs" by (intro card_seteq) auto
  then show ?thesis by (auto simp: list_all_iff)
qed

section \<open>Filling the staging file\<close>

lemma to_fetch_mem:
  "(c, i) \<in> set (to_fetch valid old ex cs) \<longleftrightarrow>
     c \<in> set cs \<and> mc_id c = Some i \<and> i \<notin> valid
     \<and> \<not> (\<exists>ocs. old = Some ocs \<and> ex \<and> old_match ocs i \<noteq> None)"
proof -
  have old: "(case old of None \<Rightarrow> False | Some ocs \<Rightarrow> ex \<and> list_ex (\<lambda>oc. mc_id oc = Some i) ocs)
      \<longleftrightarrow> (\<exists>ocs. old = Some ocs \<and> ex \<and> old_match ocs i \<noteq> None)" for i
    by (auto simp: old_match_def find_None_iff list_ex_iff split: option.splits)
  show ?thesis
    unfolding to_fetch_def set_map_filter_iff old by (auto split: option.splits if_splits)
qed

definition chunk_results ::
  "crypto \<Rightarrow> ('a, 'e) codecs \<Rightarrow> 'r depot_job \<Rightarrow> (manifest_chunk \<times> chunk_id) list
    \<Rightarrow> (manifest_chunk \<times> chunk_id \<times> (box_error + bytes)) list" where
  "chunk_results C Z job fetches =
     map (\<lambda>(i, chunk, chunk_id). (chunk, chunk_id, chunk_task C Z job i chunk chunk_id)) (enumerate 0 fetches)"

lemma length_chunk_results [simp]: "length (chunk_results C Z job fetches) = length fetches"
  by (simp add: chunk_results_def)

lemma chunk_results_mem:
  "(c, cid, r) \<in> set (chunk_results C Z job fetches) \<Longrightarrow>
     (c, cid) \<in> set fetches \<and> (\<exists>i. r = chunk_task C Z job i c cid)"
  unfolding chunk_results_def set_map by (clarsimp simp: in_set_enumerate_eq) (metis nth_mem)

lemma chunk_results_fst: "fst ` set (chunk_results C Z job fetches) = fst ` set fetches"
proof -
  have "map fst (chunk_results C Z job fetches) = map fst (map snd (enumerate 0 fetches))"
    by (simp add: chunk_results_def split_beta o_def del: map_snd_enumerate)
  then have "map fst (chunk_results C Z job fetches) = map fst fetches" by simp
  then show ?thesis by (metis list.set_map)
qed

lemma set_map_order:
  assumes "set order = {..<length xs}"
  shows "set (map ((!) xs) order) = set xs"
proof -
  have "set (map ((!) xs) order) = (!) xs ` {..<length xs}" by (simp only: set_map assms)
  also have "\<dots> = set xs" by (auto simp: set_conv_nth)
  finally show ?thesis .
qed

text \<open>The content of the staging file when all chunk tasks have ended.\<close>

definition staged ::
  "crypto \<Rightarrow> ('a, 'e) codecs \<Rightarrow> 'r depot_job \<Rightarrow> nat list \<Rightarrow> file_task \<Rightarrow> chunk_id set \<Rightarrow> bytes \<Rightarrow> file_system
    \<Rightarrow> bytes \<times> download_event list" where
  "staged C Z job order task valid content fs =
     fold (finish_chunk (dj_depot_id job))
       (map ((!) (chunk_results C Z job (fetches_of job task valid fs))) order)
       (case (ft_old_chunks task, fs_files fs (ft_path task)) of
          (Some old_chunks, Some old_content) \<Rightarrow> fold (copy_chunk old_chunks old_content) (ft_chunks task) content
        | _ \<Rightarrow> content, [])"

lemma fill_staging_alt:
  "fill_staging C Z job order task valid content fs =
     (let fs' = write_file (staging_path job task) (fst (staged C Z job order task valid content fs)) fs;
          evs = snd (staged C Z job order task valid content fs)
      in case first_error (map (\<lambda>(_, _, res). res) (chunk_results C Z job (fetches_of job task valid fs))) of
           Inl e \<Rightarrow> (Inl e, evs, fs')
         | Inr _ \<Rightarrow>
             (case rename_file (staging_path job task) (ft_path task) fs' of
                Inl e \<Rightarrow> (Inl (IoError e), evs, fs')
              | Inr fs'' \<Rightarrow> (Inr (), evs, fs'')))"
  by (simp add: fill_staging_def staged_def chunk_results_def fetches_of_def Let_def split_beta)

text \<open>When no chunk task fails, the staging file becomes completely valid.\<close>

lemma staged_valid:
  assumes wf: "chunks_wf n (ft_chunks task)" and len: "length content = n"
    and valid: "\<And>c i. c \<in> set (ft_chunks task) \<Longrightarrow> mc_id c = Some i \<Longrightarrow> i \<in> valid \<Longrightarrow> chunk_good content c"
    and delta: "delta_ok fs task"
    and order: "set order = {..<length (fetches_of job task valid fs)}"
    and ok: "first_error (map (\<lambda>(_, _, res). res) (chunk_results C Z job (fetches_of job task valid fs))) = Inr ()"
  shows "length (fst (staged C Z job order task valid content fs)) = n
    \<and> list_all (chunk_good (fst (staged C Z job order task valid content fs))) (ft_chunks task)"
proof -
  let ?cs = "ft_chunks task" and ?F = "fetches_of job task valid fs"
  let ?old = "{c \<in> set ?cs. \<exists>ocs i. ft_old_chunks task = Some ocs \<and> file_exists fs (ft_path task)
                \<and> mc_id c = Some i \<and> old_match ocs i \<noteq> None}"
  let ?content = "case (ft_old_chunks task, fs_files fs (ft_path task)) of
          (Some old_chunks, Some old_content) \<Rightarrow> fold (copy_chunk old_chunks old_content) ?cs content
        | _ \<Rightarrow> content"
  have copied: "fills n ?cs ?old content ?content"
  proof (cases "ft_old_chunks task")
    case (Some ocs)
    show ?thesis
    proof (cases "fs_files fs (ft_path task)")
      case (Some old)
      with \<open>ft_old_chunks task = Some ocs\<close> delta copy_all_fills [OF wf, of ?cs _ _ content] show ?thesis
        by (simp add: delta_ok_def list_all_iff file_exists_def)
    qed (simp add: file_exists_def split: option.split)
  qed simp
  have fetched: "fills n ?cs (fst ` set (map ((!) (chunk_results C Z job ?F)) order)) ?content
      (fst (staged C Z job order task valid content fs))"
    unfolding staged_def
  proof (rule finish_all_fills [OF wf])
    fix c cid r
    assume "(c, cid, r) \<in> set (map ((!) (chunk_results C Z job ?F)) order)"
    then have mem: "(c, cid, r) \<in> set (chunk_results C Z job ?F)"
      using set_map_order [of order "chunk_results C Z job ?F"] order by simp
    then obtain i where i: "r = chunk_task C Z job i c cid" and "(c, cid) \<in> set ?F"
      using chunk_results_mem by blast
    then have c: "c \<in> set ?cs" by (simp add: fetches_of_def to_fetch_mem)
    with wf have "chunk_complete n c" by (simp add: chunks_wf_def list_all_iff)
    from ok mem have "is_ok r" by (auto simp: first_error_ok list_all_iff)
    then obtain d where "r = Inr d" by (cases r) simp_all
    with i \<open>chunk_complete n c\<close> c chunk_task_data show "c \<in> set ?cs \<and> (\<exists>d. r = Inr d \<and> chunk_data_ok c d)"
      by fastforce
  qed
  have "c \<in> good_chunks ?cs (fst (staged C Z job order task valid content fs))"
    if c: "c \<in> set ?cs" for c
  proof -
    from wf c have "chunk_complete n c" by (simp add: chunks_wf_def list_all_iff)
    then obtain i where i: "mc_id c = Some i" by (rule chunk_completeD)
    have "fst ` set (map ((!) (chunk_results C Z job ?F)) order) = fst ` set ?F"
      using set_map_order [of order "chunk_results C Z job ?F"] order by (simp only: length_chunk_results chunk_results_fst)
    with fills_trans [OF copied fetched] len
    have all: "good_chunks ?cs content \<union> (?old \<union> fst ` set ?F)
        \<subseteq> good_chunks ?cs (fst (staged C Z job order task valid content fs))"
      by (simp add: fills_def)
    have "c \<in> good_chunks ?cs content \<union> (?old \<union> fst ` set ?F)"
    proof (cases "(c, i) \<in> set ?F")
      case True
      then show ?thesis by force
    next
      case False
      with c i valid show ?thesis by (auto simp: fetches_of_def to_fetch_mem good_chunks_def)
    qed
    with all show ?thesis by blast
  qed
  moreover from fills_trans [OF copied fetched] len
  have "length (fst (staged C Z job order task valid content fs)) = n" by (simp add: fills_def)
  ultimately show ?thesis by (auto simp: good_chunks_def list_all_iff)
qed

section \<open>One file\<close>

text \<open>The chunk ids found good in the staging file, when it has the right size.\<close>

definition staged_ids :: "'r depot_job \<Rightarrow> file_task \<Rightarrow> file_system \<Rightarrow> chunk_id set" where
  "staged_ids job task fs =
     (case fs_files fs (staging_path job task) of
        None \<Rightarrow> {}
      | Some b \<Rightarrow> {i. \<exists>c \<in> set (ft_chunks task). mc_id c = Some i \<and> chunk_good b c})"

lemma download_file_cases:
  fixes task :: file_task
  defines "p \<equiv> ft_path task"
  obtains
    (valid) "file_has_valid_chunks fs p (ft_size task) (ft_chunks task) = Inr True"
      "download_file C Z job order task fs = (Inr (), [], fs)"
  | (finish) s b n where "s = staging_path job task" "fs_files fs s = Some b" "ft_size task = Some n"
      "length b = unat n"
      "card (staged_ids job task fs) = length (ft_chunks task)"
      "download_file C Z job order task fs =
         (Inr (), [], \<lparr>fs_files = (fs_files fs)(s := None, p \<mapsto> b),
           fs_executable = fs_executable fs - {s, p} \<union> (if s \<in> fs_executable fs then {p} else {})\<rparr>)"
  | (resume) s b n where "s = staging_path job task" "fs_files fs s = Some b" "ft_size task = Some n"
      "length b = unat n"
      "download_file C Z job order task fs =
         fill_staging C Z job (order (length (fetches_of job task (staged_ids job task fs) fs))) task
           (staged_ids job task fs) b fs"
  | (fresh) content fs' where
      "content = (case ft_size task of None \<Rightarrow> [] | Some sz \<Rightarrow> replicate (unat sz) 0)"
      "fs' = write_file (staging_path job task) content fs"
      "download_file C Z job order task fs =
         fill_staging C Z job (order (length (fetches_of job task {} fs'))) task {} content fs'"
proof (cases "file_has_valid_chunks fs p (ft_size task) (ft_chunks task)")
  case (Inl e)
  then show ?thesis using file_has_valid_chunks_ok [of fs p "ft_size task" "ft_chunks task"] by simp
next
  case (Inr v)
  show ?thesis
  proof (cases v)
    case True
    with Inr valid show ?thesis by (simp add: download_file_def p_def)
  next
    case False
    show ?thesis
    proof (cases "file_has_correct_size fs (staging_path job task) (ft_size task)")
      case wrong: False
      with Inr False fresh show ?thesis by (simp add: download_file_def p_def Let_def)
    next
      case right: True
      then obtain b n where b: "fs_files fs (staging_path job task) = Some b" "ft_size task = Some n" "length b = unat n"
        by (auto simp: file_has_correct_size_def split: option.splits)
      define bad where "bad = map fst (filter (\<lambda>(i, c). \<not> chunk_good b c) (enumerate 0 (ft_chunks task)))"
      have bad: "verify_chunks fs (staging_path job task) (ft_chunks task) = Inr bad"
        by (auto simp: verify_chunks_Inr b bad_def)
      have ids: "valid_ids bad (ft_chunks task) = staged_ids job task fs"
        by (auto simp: bad_def in_valid_ids staged_ids_def b)
      from Inr False right b bad have eq: "download_file C Z job order task fs =
          (if card (staged_ids job task fs) = length (ft_chunks task) then
             (Inr (), [], \<lparr>fs_files = (fs_files fs)(staging_path job task := None, p \<mapsto> b),
               fs_executable = fs_executable fs - {staging_path job task, p}
                 \<union> (if staging_path job task \<in> fs_executable fs then {p} else {})\<rparr>)
           else fill_staging C Z job (order (length (fetches_of job task (staged_ids job task fs) fs))) task
             (staged_ids job task fs) b fs)"
        unfolding ids [symmetric] by (simp add: download_file_def p_def rename_file_def Let_def)
      show ?thesis
      proof (cases "card (staged_ids job task fs) = length (ft_chunks task)")
        case True
        with eq show ?thesis by (intro finish [OF refl b True]) simp
      next
        case False
        with eq show ?thesis by (intro resume [OF refl b]) simp
      qed
    qed
  qed
qed

lemma fill_staging_cases:
  obtains
    (failed) e b where "fill_staging C Z job order task valid content fs =
      (Inl e, snd (staged C Z job order task valid content fs), write_file (staging_path job task) b fs)"
      "\<exists>r \<in> set (chunk_results C Z job (fetches_of job task valid fs)). \<not> is_ok (snd (snd r))"
  | (installed) b x where "fill_staging C Z job order task valid content fs =
      (Inr (), snd (staged C Z job order task valid content fs),
       \<lparr>fs_files = (fs_files fs)(staging_path job task := None, ft_path task \<mapsto> b), fs_executable = x\<rparr>)"
      "b = fst (staged C Z job order task valid content fs)"
      "first_error (map (\<lambda>(_, _, res). res) (chunk_results C Z job (fetches_of job task valid fs))) = Inr ()"
proof (cases "first_error (map (\<lambda>(_, _, res). res) (chunk_results C Z job (fetches_of job task valid fs)))")
  case (Inl e)
  then have "\<not> list_all is_ok (map (\<lambda>(_, _, res). res) (chunk_results C Z job (fetches_of job task valid fs)))"
    using first_error_ok by (metis Inl_Inr_False)
  then have "\<exists>r \<in> set (chunk_results C Z job (fetches_of job task valid fs)). \<not> is_ok (snd (snd r))"
    by (force simp: list_all_iff)
  with Inl failed show ?thesis by (simp add: fill_staging_alt Let_def)
next
  case (Inr u)
  then show ?thesis
    using installed by (simp add: fill_staging_alt Let_def rename_file_def write_file_def)
qed

text \<open>A file task with the assumptions of its correctness.\<close>

definition task_wf :: "'r depot_job \<Rightarrow> file_system \<Rightarrow> file_task \<Rightarrow> bool" where
  "task_wf job fs task \<longleftrightarrow>
     (\<exists>sz. ft_size task = Some sz \<and> chunks_wf (unat sz) (ft_chunks task))
     \<and> delta_ok fs task \<and> staging_path job task \<noteq> ft_path task"

definition file_valid :: "file_system \<Rightarrow> file_task \<Rightarrow> bool" where
  "file_valid fs task \<longleftrightarrow> file_has_valid_chunks fs (ft_path task) (ft_size task) (ft_chunks task) = Inr True"

lemma file_validI:
  "fs_files fs (ft_path task) = Some b \<Longrightarrow> ft_size task = Some n \<Longrightarrow> length b = unat n
    \<Longrightarrow> list_all (chunk_good b) (ft_chunks task) \<Longrightarrow> file_valid fs task"
  by (auto simp: file_valid_def file_has_valid_chunks_iff)

lemma fill_staging_valid:
  assumes wf: "chunks_wf (unat n) (ft_chunks task)" "ft_size task = Some n" "length content = unat n"
    and valid: "\<And>c i. c \<in> set (ft_chunks task) \<Longrightarrow> mc_id c = Some i \<Longrightarrow> i \<in> valid \<Longrightarrow> chunk_good content c"
    and delta: "delta_ok fs task"
    and order: "set order = {..<length (fetches_of job task valid fs)}"
    and run: "fill_staging C Z job order task valid content fs = (Inr (), ev, fs')"
  shows "file_valid fs' task"
proof (cases rule: fill_staging_cases [of C Z job order task valid content fs])
  case (failed e b)
  with run show ?thesis by simp
next
  case (installed b x)
  from staged_valid [OF wf(1,3) valid delta order installed(3)] installed(2)
  have "length b = unat n \<and> list_all (chunk_good b) (ft_chunks task)" by simp
  with installed(1) run wf(2) show ?thesis by (auto intro!: file_validI)
qed

lemma download_file_complete:
  assumes task: "task_wf job fs task" and order: "\<And>n. set (order n) = {..<n}"
    and run: "download_file C Z job order task fs = (Inr (), ev, fs')"
  shows "file_valid fs' task"
proof -
  from task obtain sz where sz: "ft_size task = Some sz" and wf: "chunks_wf (unat sz) (ft_chunks task)"
    and delta: "delta_ok fs task" and ne: "staging_path job task \<noteq> ft_path task"
    unfolding task_wf_def by blast
  show ?thesis
  proof (cases rule: download_file_cases [of fs task C Z job order])
    case valid
    with run show ?thesis by (simp add: file_valid_def)
  next
    case (finish s b n)
    with all_valid [OF wf, of b] have "list_all (chunk_good b) (ft_chunks task)" by (simp add: staged_ids_def)
    with finish run show ?thesis by (auto intro!: file_validI)
  next
    case (resume s b n)
    have good: "chunk_good b c" if "c \<in> set (ft_chunks task)" "mc_id c = Some i" "i \<in> staged_ids job task fs" for c i
    proof -
      from that(3) resume(1,2) obtain x where "x \<in> set (ft_chunks task)" "mc_id x = Some i" "chunk_good b x"
        by (auto simp: staged_ids_def)
      with chunks_wf_id [OF wf that(1), of x] that(2) show ?thesis by simp
    qed
    from resume sz have "length b = unat sz" by simp
    moreover have "fill_staging C Z job (order (length (fetches_of job task (staged_ids job task fs) fs))) task
        (staged_ids job task fs) b fs = (Inr (), ev, fs')"
      using run resume(5) by simp
    ultimately show ?thesis using good by (intro fill_staging_valid [OF wf sz _ _ delta order])
  next
    case (fresh content fs'')
    from fresh(2) ne delta have delta': "delta_ok fs'' task" by (simp add: delta_ok_def write_file_def)
    from fresh(1) sz have "length content = unat sz" by simp
    moreover have "fill_staging C Z job (order (length (fetches_of job task {} fs''))) task {} content fs''
        = (Inr (), ev, fs')"
      using run fresh(3) by simp
    ultimately show ?thesis by (intro fill_staging_valid [OF wf sz _ _ delta' order]) simp_all
  qed
qed

text \<open>Nothing but the two paths of a file is touched, and the installed one only on success.\<close>

lemma download_file_frame:
  assumes ne: "staging_path job task \<noteq> ft_path task"
    and run: "download_file C Z job order task fs = (r, ev, fs')"
  shows "q \<noteq> staging_path job task \<Longrightarrow> (q = ft_path task \<Longrightarrow> r \<noteq> Inr ()) \<Longrightarrow> fs_files fs' q = fs_files fs q"
proof (cases rule: download_file_cases [of fs task C Z job order])
  case valid
  with run show ?thesis by simp
next
  case (finish s b n)
  assume "q \<noteq> staging_path job task" "q = ft_path task \<Longrightarrow> r \<noteq> Inr ()"
  with finish run show ?thesis by auto
next
  case (resume s b n)
  assume "q \<noteq> staging_path job task" "q = ft_path task \<Longrightarrow> r \<noteq> Inr ()"
  with resume run show ?thesis
    by (cases rule: fill_staging_cases [of C Z job "order (length (fetches_of job task (staged_ids job task fs) fs))"
          task "staged_ids job task fs" b fs])
       (auto simp: write_file_def)
next
  case (fresh content fs'')
  assume "q \<noteq> staging_path job task" "q = ft_path task \<Longrightarrow> r \<noteq> Inr ()"
  with fresh run show ?thesis
    by (cases rule: fill_staging_cases [of C Z job "order (length (fetches_of job task {} fs''))" task "{}" content fs''])
       (auto simp: write_file_def)
qed

text \<open>When every chunk can be fetched and is the right one, the download succeeds.\<close>

lemma download_file_succeeds:
  assumes "\<And>i c cid. c \<in> set (ft_chunks task) \<Longrightarrow> mc_id c = Some cid \<Longrightarrow> is_ok (chunk_task C Z job i c cid)"
  shows "fst (download_file C Z job order task fs) = Inr ()"
proof -
  have ok: "is_ok (snd (snd r))" if "r \<in> set (chunk_results C Z job (fetches_of job task valid fs'))" for r valid fs'
  proof -
    obtain c cid x where r: "r = (c, cid, x)" by (cases r)
    with that chunk_results_mem obtain i where "(c, cid) \<in> set (fetches_of job task valid fs')"
      and x: "x = chunk_task C Z job i c cid"
      by blast
    then have "c \<in> set (ft_chunks task) \<and> mc_id c = Some cid" by (simp add: fetches_of_def to_fetch_mem)
    with assms r x show ?thesis by simp
  qed
  show ?thesis
  proof (cases rule: download_file_cases [of fs task C Z job order])
    case (resume s b n)
    with ok show ?thesis
      by (cases rule: fill_staging_cases [of C Z job "order (length (fetches_of job task (staged_ids job task fs) fs))"
            task "staged_ids job task fs" b fs]) auto
  next
    case (fresh content fs'')
    with ok show ?thesis
      by (cases rule: fill_staging_cases [of C Z job "order (length (fetches_of job task {} fs''))" task "{}" content fs''])
         auto
  qed simp_all
qed

section \<open>The files of a job\<close>

lemma file_valid_cong:
  "fs_files fs (ft_path task) = fs_files fs' (ft_path task) \<Longrightarrow> file_valid fs task = file_valid fs' task"
  by (simp add: file_valid_def file_has_valid_chunks_iff)

lemma task_wf_cong:
  "fs_files fs (ft_path task) = fs_files fs' (ft_path task) \<Longrightarrow> task_wf job fs task = task_wf job fs' task"
  by (simp add: task_wf_def delta_ok_def)

lemma file_valid_executable [simp]: "file_valid (set_executable_if_needed t fs) task = file_valid fs task"
  by (rule file_valid_cong) (simp add: set_executable_if_needed_def)

lemma fs_files_executable [simp]: "fs_files (set_executable_if_needed t fs) = fs_files fs"
  by (simp add: set_executable_if_needed_def)

text \<open>A task on the shared part of the job is the task on the job.\<close>

lemma shared_chunk_task: "chunk_task C Z (clone_shared job) = chunk_task C Z job"
  by (simp add: fun_eq_iff chunk_task_def clone_shared_def)

lemma shared_file_task: "run_file_task C Z (clone_shared job) = run_file_task C Z job"
proof -
  have path: "staging_path (clone_shared job) = staging_path job"
    by (simp add: fun_eq_iff staging_path_def clone_shared_def)
  have fetches: "fetches_of (clone_shared job) = fetches_of job"
    by (simp add: fun_eq_iff fetches_of_def)
  have depot: "dj_depot_id (clone_shared job) = dj_depot_id job" by (simp add: clone_shared_def)
  show ?thesis
    unfolding fun_eq_iff run_file_task_def download_file_def fill_staging_def shared_chunk_task path fetches depot
    by simp
qed

lemma run_file_task_spec:
  assumes "task_wf job fs task" "\<And>n. set (order n) = {..<n}"
    and "run_file_task C Z job order task fs = (r, ev, fs')"
  shows "r = Inr () \<Longrightarrow> file_valid fs' task"
    and "q \<noteq> staging_path job task \<Longrightarrow> (q = ft_path task \<Longrightarrow> r \<noteq> Inr ()) \<Longrightarrow> fs_files fs' q = fs_files fs q"
proof -
  obtain r1 ev1 fs1 where run: "download_file C Z job order task fs = (r1, ev1, fs1)"
    by (cases "download_file C Z job order task fs")
  have ne: "staging_path job task \<noteq> ft_path task" using assms(1) by (simp add: task_wf_def)
  have r: "r1 = r" "fs_files fs' = fs_files fs1" using assms(3) run by (auto simp: run_file_task_def split: sum.splits)
  show "r = Inr () \<Longrightarrow> file_valid fs' task"
    using download_file_complete [OF assms(1,2)] run r file_valid_cong [of fs1 task fs'] by fastforce
  show "q \<noteq> staging_path job task \<Longrightarrow> (q = ft_path task \<Longrightarrow> r \<noteq> Inr ()) \<Longrightarrow> fs_files fs' q = fs_files fs q"
    using download_file_frame [OF ne run] r by simp
qed

text \<open>Tasks whose files do not get into each other's way.\<close>

definition tasks_apart :: "'r depot_job \<Rightarrow> file_task list \<Rightarrow> bool" where
  "tasks_apart job tasks \<longleftrightarrow>
     distinct (map ft_path tasks)
     \<and> (\<forall>t \<in> set tasks. \<forall>u \<in> set tasks. staging_path job t \<noteq> ft_path u)"

lemma run_tasks:
  assumes apart: "tasks_apart job tasks" and corder: "\<And>i n. set (chunk_order i n) = {..<n}"
  shows "distinct xs \<Longrightarrow> set xs \<subseteq> {..<length tasks} \<Longrightarrow> (\<And>i. i \<in> set xs \<Longrightarrow> task_wf job fs (tasks ! i)) \<Longrightarrow>
    fold (run_task C Z job chunk_order tasks) xs (results, ev, fs) = (results', ev', fs') \<Longrightarrow>
      (\<forall>i \<in> set xs. (results' i = Inr () \<longrightarrow> file_valid fs' (tasks ! i))
        \<and> (results' i \<noteq> Inr () \<longrightarrow> fs_files fs' (ft_path (tasks ! i)) = fs_files fs (ft_path (tasks ! i))))
      \<and> (\<forall>i. i \<notin> set xs \<longrightarrow> results' i = results i)
      \<and> (\<forall>q. (\<forall>i \<in> set xs. q \<noteq> ft_path (tasks ! i) \<and> q \<noteq> staging_path job (tasks ! i))
            \<longrightarrow> fs_files fs' q = fs_files fs q)"
proof (induction xs arbitrary: results ev fs)
  case Nil
  then show ?case by simp
next
  case (Cons x xs)
  let ?t = "tasks ! x"
  obtain r ev1 fs1 where run: "run_file_task C Z job (chunk_order x) ?t fs = (r, ev1, fs1)"
    by (cases "run_file_task C Z job (chunk_order x) ?t fs")
  have step: "run_task C Z job chunk_order tasks x (results, ev, fs) = (results(x := r), ev @ ev1, fs1)"
    by (simp add: run_task_def run)
  have wf: "task_wf job fs ?t" using Cons.prems(3) by simp
  note one = run_file_task_spec [OF wf corder run]
  have sep: "ft_path (tasks ! i) \<noteq> ft_path ?t" "staging_path job ?t \<noteq> ft_path (tasks ! i)"
    "staging_path job (tasks ! i) \<noteq> ft_path ?t" if "i \<in> set xs" for i
  proof -
    from that Cons.prems(1,2) have i: "i < length tasks" "x < length tasks" "i \<noteq> x" by auto
    with apart have "map ft_path tasks ! i \<noteq> map ft_path tasks ! x"
      unfolding tasks_apart_def by (metis length_map nth_eq_iff_index_eq)
    with i apart show "ft_path (tasks ! i) \<noteq> ft_path ?t" "staging_path job ?t \<noteq> ft_path (tasks ! i)"
        "staging_path job (tasks ! i) \<noteq> ft_path ?t"
      by (auto simp: tasks_apart_def)
  qed
  have same: "fs_files fs1 (ft_path (tasks ! i)) = fs_files fs (ft_path (tasks ! i))" if "i \<in> set xs" for i
    using sep [OF that] by (intro one(2)) auto
  have wf1: "task_wf job fs1 (tasks ! i)" if "i \<in> set xs" for i
    using that Cons.prems(3) [of i] task_wf_cong [OF same [OF that], of job] by simp
  have rest: "fold (run_task C Z job chunk_order tasks) xs (results(x := r), ev @ ev1, fs1) = (results', ev', fs')"
    using Cons.prems(4) by (simp only: fold_Cons o_apply step)
  have "distinct xs" "set xs \<subseteq> {..<length tasks}" "x \<notin> set xs" using Cons.prems(1,2) by auto
  note IH = Cons.IH [OF this(1,2) wf1 rest]
  have rx: "results' x = r" using IH \<open>x \<notin> set xs\<close> by simp
  have px: "fs_files fs' (ft_path ?t) = fs_files fs1 (ft_path ?t)"
    using IH sep by metis
  have "results' x = Inr () \<Longrightarrow> file_valid fs' ?t"
    using one(1) rx file_valid_cong [OF px] by simp
  moreover have "results' x \<noteq> Inr () \<Longrightarrow> fs_files fs' (ft_path ?t) = fs_files fs (ft_path ?t)"
    using one(2) [of "ft_path ?t"] rx px wf by (auto simp: task_wf_def)
  moreover have "fs_files fs' q = fs_files fs q"
    if "\<forall>i \<in> set (x # xs). q \<noteq> ft_path (tasks ! i) \<and> q \<noteq> staging_path job (tasks ! i)" for q
    using that IH one(2) [of q] by auto
  moreover have "results' i = results i" if "i \<notin> set (x # xs)" for i using that IH by simp
  ultimately show ?case using IH same by auto
qed

text \<open>The files a job downloads, independent of events and counters.\<close>

definition wanted ::
  "('r \<Rightarrow> string \<Rightarrow> bool) \<Rightarrow> 'r depot_job \<Rightarrow> file_system \<Rightarrow> manifest_file \<Rightarrow> string \<Rightarrow> bool" where
  "wanted is_match job fs file filename \<longleftrightarrow>
     mf_filename file = Some filename
     \<and> (case dj_file_filter job of None \<Rightarrow> True | Some flt \<Rightarrow> filter_matches is_match flt filename)
     \<and> \<not> entry_is_directory file \<and> \<not> file_unchanged job fs file filename"

definition planned_task ::
  "('r \<Rightarrow> string \<Rightarrow> bool) \<Rightarrow> 'r depot_job \<Rightarrow> file_system \<Rightarrow> manifest_file \<Rightarrow> file_task option" where
  "planned_task is_match job fs file =
     (case mf_filename file of
        None \<Rightarrow> None
      | Some filename \<Rightarrow> if wanted is_match job fs file filename then Some (make_task job file filename) else None)"

lemma plan_file_spec:
  "pl_tasks (plan_file is_match job fs n_total file pl) =
     pl_tasks pl @ (case planned_task is_match job fs file of None \<Rightarrow> [] | Some t \<Rightarrow> [t])"
  "pl_completed (plan_file is_match job fs n_total file pl) =
     pl_completed pl + (if mf_filename file \<noteq> None \<and> planned_task is_match job fs file = None then 1 else 0)"
  by (auto simp: plan_file_def planned_task_def wanted_def Let_def split: option.split)

lemma plan_fold_spec:
  "pl_tasks (fold (plan_file is_match job fs n_total) files pl) =
     pl_tasks pl @ List.map_filter (planned_task is_match job fs) files
   \<and> pl_completed (fold (plan_file is_match job fs n_total) files pl) =
     pl_completed pl + length (filter (\<lambda>f. mf_filename f \<noteq> None \<and> planned_task is_match job fs f = None) files)"
  by (induction files arbitrary: pl) (auto simp: plan_file_spec map_filter_simps split: option.split)

lemma plan_tasks:
  "pl_tasks (plan_files is_match job fs manifest) = List.map_filter (planned_task is_match job fs) (dm_files manifest)"
  by (simp add: plan_files_def plan_fold_spec)

lemma plan_task_mem:
  "t \<in> set (pl_tasks (plan_files is_match job fs manifest)) \<longleftrightarrow>
     (\<exists>f \<in> set (dm_files manifest). \<exists>name. wanted is_match job fs f name \<and> t = make_task job f name)"
proof -
  have "planned_task is_match job fs f = Some t \<longleftrightarrow> (\<exists>name. wanted is_match job fs f name \<and> t = make_task job f name)" for f
    by (auto simp: planned_task_def wanted_def split: option.split)
  then show ?thesis by (auto simp: plan_tasks set_map_filter_iff)
qed

text \<open>
  File names as depots have them: relative, not in the staging directory, each named once.
\<close>

definition plain_name :: "string \<Rightarrow> bool" where
  "plain_name name \<longleftrightarrow> \<not> prefix ''/'' name \<and> \<not> prefix ''.staging/'' name"

definition names_of :: "depot_manifest \<Rightarrow> string list" where
  "names_of m = List.map_filter mf_filename (dm_files m)"

lemma path_join_inj: "plain_name a \<Longrightarrow> plain_name b \<Longrightarrow> path_join d a = path_join d b \<longleftrightarrow> a = b"
  by (simp add: path_join_relative plain_name_def)

lemma staging_apart:
  assumes "plain_name a" "plain_name b"
  shows "path_join (path_join d ''.staging'') a \<noteq> path_join d b"
proof -
  have "path_join (path_join d ''.staging'') a = path_join d (''.staging/'' @ a)"
    using assms(1) by (auto simp: path_join_def plain_name_def suffix_def)
  then show ?thesis
    using assms(2) by (auto simp: path_join_def plain_name_def)
qed

lemma planned_tasks_apart:
  assumes "list_all plain_name (names_of manifest)" "distinct (names_of manifest)"
  shows "tasks_apart job (pl_tasks (plan_files is_match job fs manifest))"
proof -
  have plain: "plain_name name" if "f \<in> set (dm_files manifest)" "mf_filename f = Some name" for f name
    using assms(1) that by (auto simp: names_of_def list_all_iff set_map_filter_iff)
  have "distinct (map ft_path (List.map_filter (planned_task is_match job fs) files))"
    if "set files \<subseteq> set (dm_files manifest)" "distinct (List.map_filter mf_filename files)" for files
    using that
  proof (induction files)
    case Nil
    then show ?case by (simp add: map_filter_simps)
  next
    case (Cons f files)
    from Cons.prems have IH: "distinct (map ft_path (List.map_filter (planned_task is_match job fs) files))"
      by (intro Cons.IH) (auto simp: map_filter_simps split: option.splits)
    show ?case
    proof (cases "planned_task is_match job fs f")
      case None
      with IH show ?thesis by (simp add: map_filter_simps)
    next
      case (Some t)
      then obtain name where name: "mf_filename f = Some name" and t: "ft_path t = path_join (dj_install_dir job) name"
        by (auto simp: planned_task_def make_task_def split: option.splits if_splits)
      have "ft_path u \<noteq> ft_path t" if "u \<in> set (List.map_filter (planned_task is_match job fs) files)" for u
      proof -
        from that obtain g where g: "g \<in> set files" "planned_task is_match job fs g = Some u"
          by (auto simp: set_map_filter_iff)
        then obtain name' where name': "mf_filename g = Some name'" "ft_path u = path_join (dj_install_dir job) name'"
          by (auto simp: planned_task_def make_task_def split: option.splits if_splits)
        from Cons.prems(2) name have "name \<notin> set (List.map_filter mf_filename files)" by (simp add: map_filter_simps)
        with g name' have "name' \<noteq> name" by (auto simp: set_map_filter_iff)
        moreover from g name name' Cons.prems(1) have "plain_name name" "plain_name name'" using plain by auto
        ultimately show ?thesis using t name' by (simp add: path_join_inj)
      qed
      then have "ft_path t \<notin> set (map ft_path (List.map_filter (planned_task is_match job fs) files))"
        by (metis (no_types, lifting) imageE list.set_map)
      with IH Some show ?thesis by (simp add: map_filter_simps)
    qed
  qed
  from this [of "dm_files manifest"] assms(2)
  have "distinct (map ft_path (pl_tasks (plan_files is_match job fs manifest)))"
    by (simp add: plan_tasks names_of_def)
  moreover have "staging_path job t \<noteq> ft_path u"
    if "t \<in> set (pl_tasks (plan_files is_match job fs manifest))" "u \<in> set (pl_tasks (plan_files is_match job fs manifest))"
    for t u
    using that plain by (auto simp: plan_task_mem wanted_def make_task_def staging_path_def staging_apart)
  ultimately show ?thesis by (simp add: tasks_apart_def)
qed

lemma await_tasks_ok: "await_tasks dep k n_total rs = (Inr (), progress) \<Longrightarrow> r \<in> set rs \<Longrightarrow> r = Inr ()"
  by (induction rs arbitrary: k progress) (auto split: sum.splits prod.splits)

lemma await_tasks_error: "await_tasks dep k n_total rs = (Inl e, progress) \<Longrightarrow> Inl e \<in> set rs"
  by (induction rs arbitrary: k progress) (auto split: sum.splits prod.splits)

text \<open>What the clean-up deletes.\<close>

definition removed_paths :: "string \<Rightarrow> depot_manifest \<Rightarrow> manifest_file list \<Rightarrow> string set" where
  "removed_paths dir manifest old_files =
     {path_join dir name | name. \<exists>f \<in> set old_files. mf_filename f = Some name \<and> \<not> entry_is_directory f
        \<and> name \<notin> set (names_of manifest)}"

lemma delete_removed_all:
  "fs_files (fold (delete_removed dir manifest) olds fs) q =
     (if q \<in> removed_paths dir manifest olds then None else fs_files fs q)"
proof (induction olds arbitrary: fs)
  case Nil
  then show ?case by (simp add: removed_paths_def)
next
  case (Cons f olds)
  have "list_ex (\<lambda>g. mf_filename g = Some name) (dm_files manifest) \<longleftrightarrow> name \<in> set (names_of manifest)" for name
    by (auto simp: names_of_def set_map_filter_iff list_ex_iff)
  then have one: "fs_files (delete_removed dir manifest f fs) q =
      (if q \<in> removed_paths dir manifest [f] then None else fs_files fs q)"
    by (auto simp: delete_removed_def removed_paths_def remove_file_def file_exists_def split: option.split)
  have "q \<in> removed_paths dir manifest (f # olds) \<longleftrightarrow>
      q \<in> removed_paths dir manifest [f] \<or> q \<in> removed_paths dir manifest olds"
    by (auto simp: removed_paths_def)
  with one Cons.IH show ?case by auto
qed

end
