(* ===== verification/Download_Props.thy ===== *)
theory Download_Props
  imports Download_Spec
begin

text \<open>
  The properties of the downloader, with concrete instances: one file, the job, retries, file
  lists, and the two ways in which a file that is not complete is reported as downloaded.
\<close>

section \<open>Whole jobs\<close>

text \<open>An order of \<open>n\<close> tasks runs each of them once.\<close>

definition complete_order :: "(nat \<Rightarrow> nat list) \<Rightarrow> bool" where
  "complete_order order \<longleftrightarrow> (\<forall>n. distinct (order n) \<and> set (order n) = {..<n})"

definition manifest_wf :: "depot_manifest \<Rightarrow> bool" where
  "manifest_wf m \<longleftrightarrow>
     list_all plain_name (names_of m) \<and> distinct (names_of m)
     \<and> list_all (\<lambda>f. entry_is_directory f
         \<or> (case mf_size f of None \<Rightarrow> False | Some sz \<Rightarrow> chunks_wf (unat sz) (mf_chunks f))) (dm_files m)"

definition delta_intact :: "'r depot_job \<Rightarrow> file_system \<Rightarrow> depot_manifest \<Rightarrow> bool" where
  "delta_intact job fs m \<longleftrightarrow>
     list_all (\<lambda>f. case mf_filename f of None \<Rightarrow> True | Some name \<Rightarrow> delta_ok fs (make_task job f name)) (dm_files m)"

text \<open>The task of a named file, whether it is to be downloaded or not.\<close>

lemma named_wf:
  assumes "manifest_wf manifest" "delta_intact job fs manifest"
    and f: "f \<in> set (dm_files manifest)" "mf_filename f = Some name" "\<not> entry_is_directory f"
  shows "task_wf job fs (make_task job f name)"
proof -
  have "plain_name name"
    using f assms(1) by (auto simp: manifest_wf_def names_of_def list_all_iff set_map_filter_iff)
  moreover have "\<exists>sz. mf_size f = Some sz \<and> chunks_wf (unat sz) (mf_chunks f)"
    using f assms(1) by (auto simp: manifest_wf_def list_all_iff split: option.splits)
  moreover have "delta_ok fs (make_task job f name)"
    using f assms(2) by (auto simp: delta_intact_def list_all_iff split: option.splits)
  ultimately show ?thesis
    by (auto simp: task_wf_def staging_path_def make_task_def staging_apart)
qed

lemma planned_wf:
  assumes "manifest_wf manifest" "delta_intact job fs manifest"
    and "t \<in> set (pl_tasks (plan_files is_match job fs manifest))"
  shows "task_wf job fs t"
  using assms(3) named_wf [OF assms(1,2)] by (auto simp: plan_task_mem wanted_def)

text \<open>The state behind the file tasks, before the clean-up.\<close>

lemma download_tasks:
  assumes wf: "manifest_wf manifest" "delta_intact job fs manifest"
    and orders: "complete_order task_order" "\<And>i. complete_order (chunk_order i)"
    and run: "download C Z is_match job task_order chunk_order manifest fs = (r, ev, fs')"
  defines "tasks \<equiv> pl_tasks (plan_files is_match job fs manifest)"
  obtains fs1 where
    "\<And>t. t \<in> set tasks \<Longrightarrow> file_valid fs1 t \<or> fs_files fs1 (ft_path t) = fs_files fs (ft_path t)"
    "\<And>t. r = Inr () \<Longrightarrow> t \<in> set tasks \<Longrightarrow> file_valid fs1 t"
    "\<And>q. (\<And>t. t \<in> set tasks \<Longrightarrow> q \<noteq> ft_path t \<and> q \<noteq> staging_path job t) \<Longrightarrow> fs_files fs1 q = fs_files fs q"
    "fs_files fs' = (case (r, dj_previous_manifest job) of
       (Inr _, Some old) \<Rightarrow> (\<lambda>q. if q \<in> removed_paths (dj_install_dir job) manifest (dm_files old) then None
                              else fs_files fs1 q)
     | _ \<Rightarrow> fs_files fs1)"
proof -
  let ?ord = "task_order (length tasks)"
  obtain results ev1 fs1 where tasks_run:
    "fold (run_task C Z job chunk_order tasks) ?ord (\<lambda>_. Inr (), [], fs) = (results, ev1, fs1)"
    by (cases "fold (run_task C Z job chunk_order tasks) ?ord (\<lambda>_. Inr (), [], fs)")
  obtain r2 progress where aw: "await_tasks (dj_depot_id job) (pl_completed (plan_files is_match job fs manifest))
      (length (dm_files manifest)) (map results [0..<length tasks]) = (r2, progress)"
    by (cases "await_tasks (dj_depot_id job) (pl_completed (plan_files is_match job fs manifest))
      (length (dm_files manifest)) (map results [0..<length tasks])")
  from run tasks_run aw have r2: "r = r2"
    and fs': "fs' = (case (r2, dj_previous_manifest job) of
       (Inr _, Some old) \<Rightarrow> fold (delete_removed (dj_install_dir job) manifest) (dm_files old) fs1 | _ \<Rightarrow> fs1)"
    by (auto simp: download_def Let_def tasks_def split: sum.splits option.splits)
  have apart: "tasks_apart job tasks"
    using wf(1) planned_tasks_apart unfolding tasks_def manifest_wf_def by blast
  have ord: "distinct ?ord" "set ?ord = {..<length tasks}" using orders(1) by (simp_all add: complete_order_def)
  have ch: "\<And>i n. set (chunk_order i n) = {..<n}" using orders(2) by (simp add: complete_order_def)
  have "task_wf job fs (tasks ! i)" if "i \<in> set ?ord" for i
    using that ord planned_wf [OF wf] nth_mem unfolding tasks_def by blast
  from run_tasks [OF apart ch ord(1) _ this tasks_run] ord(2)
  have all: "\<And>i. i < length tasks \<Longrightarrow> (results i = Inr () \<longrightarrow> file_valid fs1 (tasks ! i))
        \<and> (results i \<noteq> Inr () \<longrightarrow> fs_files fs1 (ft_path (tasks ! i)) = fs_files fs (ft_path (tasks ! i)))"
    and frame: "\<And>q. (\<And>i. i < length tasks \<Longrightarrow> q \<noteq> ft_path (tasks ! i) \<and> q \<noteq> staging_path job (tasks ! i))
            \<Longrightarrow> fs_files fs1 q = fs_files fs q"
    by auto
  show ?thesis
  proof (rule that)
    show "file_valid fs1 t \<or> fs_files fs1 (ft_path t) = fs_files fs (ft_path t)" if "t \<in> set tasks" for t
      using that all by (metis in_set_conv_nth)
    show "file_valid fs1 t" if "r = Inr ()" "t \<in> set tasks" for t
    proof -
      from that(2) obtain i where i: "i < length tasks" "t = tasks ! i" by (auto simp: in_set_conv_nth)
      with that(1) r2 aw await_tasks_ok [of _ _ _ _ progress "results i"] have "results i = Inr ()" by force
      with all i show ?thesis by simp
    qed
    show "fs_files fs1 q = fs_files fs q" if "\<And>t. t \<in> set tasks \<Longrightarrow> q \<noteq> ft_path t \<and> q \<noteq> staging_path job t" for q
      using that by (intro frame) simp
    show "fs_files fs' = (case (r, dj_previous_manifest job) of
       (Inr _, Some old) \<Rightarrow> (\<lambda>q. if q \<in> removed_paths (dj_install_dir job) manifest (dm_files old) then None
                              else fs_files fs1 q)
     | _ \<Rightarrow> fs_files fs1)"
      unfolding fs' r2 by (auto simp: delete_removed_all split: sum.split option.split)
  qed
qed

lemma named_not_removed:
  assumes "list_all plain_name (names_of manifest)" "list_all plain_name (names_of old)"
    and "f \<in> set (dm_files manifest)" "mf_filename f = Some name"
  shows "path_join dir name \<notin> removed_paths dir manifest (dm_files old)"
proof
  assume "path_join dir name \<in> removed_paths dir manifest (dm_files old)"
  then obtain name' g where path: "path_join dir name = path_join dir name'"
    and g: "g \<in> set (dm_files old)" "mf_filename g = Some name'" and name': "name' \<notin> set (names_of manifest)"
    by (auto simp: removed_paths_def)
  have mem: "name' \<in> set (names_of old)" "name \<in> set (names_of manifest)"
    using g assms(3,4) by (auto simp: names_of_def set_map_filter_iff)
  with assms(1,2) have "plain_name name'" "plain_name name" by (auto simp: list_all_iff)
  with path mem name' show False by (simp add: path_join_inj)
qed

lemma removed_apart:
  assumes "list_all plain_name (names_of old)" "t \<in> set (pl_tasks (plan_files is_match job fs manifest))"
    and "list_all plain_name (names_of manifest)"
  shows "ft_path t \<notin> removed_paths (dj_install_dir job) manifest (dm_files old)"
  using assms(2) named_not_removed [OF assms(3,1)] by (auto simp: plan_task_mem wanted_def make_task_def)

text \<open>A job whose chunks can all be fetched succeeds.\<close>

lemma run_tasks_succeed:
  assumes "\<And>i fs. i < length tasks \<Longrightarrow> fst (run_file_task C Z job (chunk_order i) (tasks ! i) fs) = Inr ()"
  shows "set xs \<subseteq> {..<length tasks} \<Longrightarrow> (\<And>i. results i = Inr ()) \<Longrightarrow>
    fst (fold (run_task C Z job chunk_order tasks) xs (results, ev, fs)) i = Inr ()"
proof (induction xs arbitrary: results ev fs)
  case Nil
  then show ?case by simp
next
  case (Cons x xs)
  obtain r ev1 fs1 where run: "run_file_task C Z job (chunk_order x) (tasks ! x) fs = (r, ev1, fs1)"
    by (cases "run_file_task C Z job (chunk_order x) (tasks ! x) fs")
  from Cons.prems(1) run assms [of x fs] have "r = Inr ()" by simp
  with run have step: "run_task C Z job chunk_order tasks x (results, ev, fs) = (results(x := Inr ()), ev @ ev1, fs1)"
    by (simp add: run_task_def)
  have "fst (fold (run_task C Z job chunk_order tasks) xs (results(x := Inr ()), ev @ ev1, fs1)) i = Inr ()"
    using Cons.prems by (intro Cons.IH) auto
  then show ?case by (simp only: fold_Cons o_apply step)
qed

lemma await_tasks_all: "(\<And>r. r \<in> set rs \<Longrightarrow> r = Inr ()) \<Longrightarrow> fst (await_tasks dep k n_total rs) = Inr ()"
  by (induction rs arbitrary: k) (auto simp: split_beta split: sum.splits)

lemma download_succeeds:
  assumes "complete_order task_order"
    and "\<And>f name c cid i. f \<in> set (dm_files manifest) \<Longrightarrow> wanted is_match job fs f name \<Longrightarrow> c \<in> set (mf_chunks f)
      \<Longrightarrow> mc_id c = Some cid \<Longrightarrow> is_ok (chunk_task C Z job i c cid)"
  shows "fst (download C Z is_match job task_order chunk_order manifest fs) = Inr ()"
proof -
  let ?tasks = "pl_tasks (plan_files is_match job fs manifest)"
  obtain results ev1 fs1 where run:
    "fold (run_task C Z job chunk_order ?tasks) (task_order (length ?tasks)) (\<lambda>_. Inr (), [], fs) = (results, ev1, fs1)"
    by (cases "fold (run_task C Z job chunk_order ?tasks) (task_order (length ?tasks)) (\<lambda>_. Inr (), [], fs)")
  have one: "fst (run_file_task C Z job (chunk_order i) (?tasks ! i) fs') = Inr ()" if "i < length ?tasks" for i fs'
  proof -
    from that have "?tasks ! i \<in> set ?tasks" by simp
    then obtain f name where f: "f \<in> set (dm_files manifest)" "wanted is_match job fs f name"
      and t: "?tasks ! i = make_task job f name"
      by (auto simp: plan_task_mem)
    have "fst (download_file C Z job (chunk_order i) (?tasks ! i) fs') = Inr ()"
      by (rule download_file_succeeds) (use f t assms(2) in \<open>auto simp: make_task_def\<close>)
    then show ?thesis
      by (cases "download_file C Z job (chunk_order i) (?tasks ! i) fs'") (simp add: run_file_task_def)
  qed
  have "set (task_order (length ?tasks)) \<subseteq> {..<length ?tasks}" using assms(1) by (simp add: complete_order_def)
  from run_tasks_succeed [OF one this, of "\<lambda>_. Inr ()" "[]" fs] run have "\<And>i. results i = Inr ()" by simp
  then have "fst (await_tasks (dj_depot_id job) (pl_completed (plan_files is_match job fs manifest))
      (length (dm_files manifest)) (map results [0..<length ?tasks])) = Inr ()"
    by (intro await_tasks_all) auto
  then show ?thesis
    using run by (auto simp: download_def Let_def split: prod.splits sum.splits)
qed

section \<open>A sample\<close>

definition sample_chunk :: manifest_chunk where
  "sample_chunk =
     \<lparr>mc_id = Some (ChunkId [1]), mc_checksum = Some (steam_adler32_0 (steam_adler32_compute [1, 2, 3])),
      mc_offset = Some 0, mc_compressed_size = None, mc_uncompressed_size = Some 3\<rparr>"

definition sample_file :: manifest_file where
  "sample_file =
     \<lparr>mf_filename = Some ''a'', mf_size = Some 3, mf_flags = None, mf_sha_content = None,
      mf_chunks = [sample_chunk], mf_link_target = None\<rparr>"

definition sample_manifest :: depot_manifest where
  "sample_manifest =
     \<lparr>dm_depot_id = None, dm_manifest_id = None, dm_creation_time = None, dm_filenames_encrypted = False,
      dm_total_uncompressed_size = None, dm_total_compressed_size = None, dm_files = [sample_file]\<rparr>"

definition old_manifest :: depot_manifest where
  "old_manifest = sample_manifest\<lparr>dm_files := [sample_file\<lparr>mf_filename := Some ''b''\<rparr>]\<rparr>"

definition no_files :: file_system where
  "no_files = \<lparr>fs_files = (\<lambda>_. None), fs_executable = {}\<rparr>"

text \<open>The first attempt fails, the second answers.\<close>

definition sample_job :: "unit depot_job" where
  "sample_job =
     \<lparr>dj_fetcher = (\<lambda>i attempt depot chunk. if attempt = 0 then Inl (FetchError ''503'')
                     else Inr (replicate 16 0 @ pkcs7_pad [1, 2, 3])),
      dj_depot_id = DepotId 1, dj_depot_key = DepotKey (replicate 32 0), dj_install_dir = ''d'',
      dj_max_downloads = 8, dj_verify = False, dj_file_filter = None,
      dj_previous_manifest = Some old_manifest, dj_retry = default_retry\<rparr>"

definition sample_task :: file_task where
  "sample_task = make_task sample_job sample_file ''a''"

lemma sample_chunks_wf: "chunks_wf 3 [sample_chunk]"
  by (simp add: chunks_wf_def chunk_complete_def sample_chunk_def)

lemma sample_process_chunk:
  "process_chunk plain_crypto stored_codecs (replicate 16 0 @ pkcs7_pad [1, 2, 3]) (DepotKey (replicate 32 0)) 3
     (steam_adler32_0 (steam_adler32_compute [1, 2, 3])) = Inr [1, 2, 3]"
proof -
  have "symmetric_decrypt_ecb plain_crypto (replicate 32 0) (replicate 16 0 @ pkcs7_pad [1, 2, 3]) = Inr [1, 2, 3]"
    using pkcs7_pad_length [of "[1, 2, 3]"] pkcs7_unpad_iff [of "pkcs7_pad [1, 2, 3]" "[1, 2, 3]"]
    by (simp add: symmetric_decrypt_ecb_def plain_crypto_def)
  moreover have "decompress stored_codecs [1, 2, 3] = Inr [1, 2, 3]"
    by (simp add: decompress_def detect_def magic_bytes)
  ultimately show ?thesis by (simp add: process_chunk_Inr)
qed

lemma sample_task_wf: "task_wf sample_job no_files sample_task"
proof -
  have "delta_ok no_files sample_task"
    by (simp add: delta_ok_def no_files_def sample_task_def make_task_def split: option.split)
  moreover have "staging_path sample_job sample_task \<noteq> ft_path sample_task"
    unfolding sample_task_def staging_path_def make_task_def
    by (simp add: staging_apart plain_name_def)
  ultimately show ?thesis
    using sample_chunks_wf by (simp add: task_wf_def sample_task_def make_task_def sample_file_def)
qed

lemma sample_manifest_wf: "manifest_wf sample_manifest"
  using sample_chunks_wf
  by (simp add: manifest_wf_def sample_manifest_def names_of_def map_filter_simps sample_file_def plain_name_def)

lemma complete_upt: "complete_order (\<lambda>n. [0..<n])"
  by (simp add: complete_order_def atLeast0LessThan)

lemma sample_chunk_value: "chunk_task plain_crypto stored_codecs sample_job i sample_chunk cid = Inr [1, 2, 3]"
proof -
  have "fst (retry_loop default_retry (\<lambda>attempt. dj_fetcher sample_job i attempt d cid) 0)
      = Inr (Some (replicate 16 0 @ pkcs7_pad [1, 2, 3]))" for d
    by (simp add: retry_loop_spec default_retry_def upt_rec sample_job_def)
  then show ?thesis
    using sample_process_chunk by (simp add: chunk_task_def sample_job_def sample_chunk_def)
qed

lemma sample_chunk_task: "is_ok (chunk_task plain_crypto stored_codecs sample_job i sample_chunk cid)"
  by (simp add: sample_chunk_value)

lemma sample_wanted: "wanted is_match sample_job fs f name \<Longrightarrow> f \<in> set (dm_files sample_manifest) \<Longrightarrow> f = sample_file \<and> name = ''a''"
  by (simp add: wanted_def sample_manifest_def sample_file_def)

lemma sample_wanted_a: "wanted is_match sample_job fs sample_file ''a''"
  by (simp add: wanted_def sample_file_def sample_job_def entry_is_directory_def file_unchanged_def find_old_def
      old_manifest_def sample_manifest_def)

lemma sample_intact: "delta_intact sample_job fs sample_manifest"
  by (simp add: delta_intact_def sample_manifest_def delta_ok_def make_task_def find_old_def sample_job_def
      old_manifest_def sample_file_def)

lemma sample_old_names:
  "case dj_previous_manifest sample_job of None \<Rightarrow> True | Some old \<Rightarrow> list_all plain_name (names_of old)"
  by (simp add: sample_job_def old_manifest_def names_of_def map_filter_simps plain_name_def)

lemma sample_removed: "removed_paths ''d'' sample_manifest (dm_files old_manifest) = {''d/b''}"
  by (auto simp: removed_paths_def old_manifest_def sample_manifest_def names_of_def map_filter_simps sample_file_def
      entry_is_directory_def path_join_def suffix_Cons)

section \<open>Properties\<close>

text \<open>
  Downloading one file is all or nothing: success leaves a complete file at its installed
  path, every chunk with the checksum of the manifest; after an error the installed file is
  what it was; no other path than the staging file is touched.
\<close>

theorem download_file_atomic:
  assumes "task_wf job fs task" "complete_order order"
    and "download_file C Z job order task fs = (r, ev, fs')"
  shows "(if r = Inr () then file_valid fs' task else fs_files fs' (ft_path task) = fs_files fs (ft_path task))
    \<and> (\<forall>q. q \<noteq> ft_path task \<and> q \<noteq> staging_path job task \<longrightarrow> fs_files fs' q = fs_files fs q)"
proof -
  have "\<And>n. set (order n) = {..<n}" using assms(2) by (simp add: complete_order_def)
  note complete = download_file_complete [OF assms(1) this]
  have ne: "staging_path job task \<noteq> ft_path task" using assms(1) by (simp add: task_wf_def)
  from complete assms(3) download_file_frame [OF ne assms(3)] ne show ?thesis by auto
qed

theorem download_file_atomic_witness:
  "file_valid (snd (snd (download_file plain_crypto stored_codecs sample_job (\<lambda>n. [0..<n]) sample_task no_files)))
     sample_task"
proof -
  have "fst (download_file plain_crypto stored_codecs sample_job (\<lambda>n. [0..<n]) sample_task no_files) = Inr ()"
    by (rule download_file_succeeds)
       (use sample_chunk_task in \<open>simp add: sample_task_def make_task_def sample_file_def\<close>)
  then show ?thesis using download_file_atomic [OF sample_task_wf complete_upt] by (metis prod.collapse)
qed





text \<open>
  Whether a job succeeds or fails, the installed path of every file that it downloads
  holds either the complete new contents or what it held before: never a part of a download.
\<close>

theorem download_no_partial_file:
  assumes "manifest_wf manifest" "delta_intact job fs manifest"
    and "case dj_previous_manifest job of None \<Rightarrow> True | Some old \<Rightarrow> list_all plain_name (names_of old)"
    and "complete_order task_order" "\<And>i. complete_order (chunk_order i)"
    and "download C Z is_match job task_order chunk_order manifest fs = (r, ev, fs')"
    and "f \<in> set (dm_files manifest)" "wanted is_match job fs f name"
  shows "file_valid fs' (make_task job f name)
    \<or> fs_files fs' (path_join (dj_install_dir job) name) = fs_files fs (path_join (dj_install_dir job) name)"
proof -
  let ?t = "make_task job f name" and ?tasks = "pl_tasks (plan_files is_match job fs manifest)"
  have t: "?t \<in> set ?tasks" using assms(7,8) by (auto simp: plan_task_mem)
  obtain fs1 where one: "\<And>t. t \<in> set ?tasks \<Longrightarrow> file_valid fs1 t \<or> fs_files fs1 (ft_path t) = fs_files fs (ft_path t)"
    and fs': "fs_files fs' = (case (r, dj_previous_manifest job) of
       (Inr _, Some old) \<Rightarrow> (\<lambda>q. if q \<in> removed_paths (dj_install_dir job) manifest (dm_files old) then None
                              else fs_files fs1 q)
     | _ \<Rightarrow> fs_files fs1)"
    by (rule download_tasks [OF assms(1,2,4-6)]) blast
  have "fs_files fs' (ft_path ?t) = fs_files fs1 (ft_path ?t)"
    using assms(1,3) t removed_apart [OF _ t]
    by (auto simp: fs' manifest_wf_def split: option.splits sum.splits)
  with one [OF t] file_valid_cong [of fs1 ?t fs'] show ?thesis by (auto simp: make_task_def)
qed

text \<open>The empty answer of the fetcher is not a chunk: the job fails and the file stays.\<close>

theorem download_no_partial_file_witness:
  "let fs = write_file ''d/a'' [7] no_files;
       job = sample_job\<lparr>dj_fetcher := \<lambda>_ _ _ _. Inl (FetchError ''500'')\<rparr>;
       fs' = snd (snd (download plain_crypto stored_codecs (\<lambda>_ _. True) job (\<lambda>n. [0..<n]) (\<lambda>i n. [0..<n])
                         sample_manifest fs))
   in file_valid fs' (make_task job sample_file ''a'') \<or> fs_files fs' ''d/a'' = Some [7]"
proof -
  let ?job = "sample_job\<lparr>dj_fetcher := \<lambda>_ _ _ _. Inl (FetchError ''500'')\<rparr>"
  let ?fs = "write_file ''d/a'' [7] no_files"
  let ?run = "download plain_crypto stored_codecs (\<lambda>_ _. True) ?job (\<lambda>n. [0..<n]) (\<lambda>i n. [0..<n]) sample_manifest ?fs"
  have run: "?run = (fst ?run, fst (snd ?run), snd (snd ?run))" by simp
  have "delta_intact ?job ?fs sample_manifest"
    by (simp add: delta_intact_def sample_manifest_def delta_ok_def make_task_def find_old_def sample_job_def
        old_manifest_def sample_file_def)
  moreover have "case dj_previous_manifest ?job of None \<Rightarrow> True | Some old \<Rightarrow> list_all plain_name (names_of old)"
    using sample_old_names by simp
  moreover have "sample_file \<in> set (dm_files sample_manifest)" by (simp add: sample_manifest_def)
  moreover have "wanted (\<lambda>_ _. True) ?job ?fs sample_file ''a''"
    by (simp add: wanted_def sample_file_def sample_job_def entry_is_directory_def file_unchanged_def find_old_def
        old_manifest_def sample_manifest_def)
  moreover have "path_join (dj_install_dir ?job) ''a'' = ''d/a''"
    by (simp add: path_join_def sample_job_def suffix_Cons)
  ultimately show ?thesis
    using download_no_partial_file [OF sample_manifest_wf _ _ complete_upt complete_upt run, of sample_file "''a''"]
    by (simp add: Let_def write_file_def)
qed

text \<open>
  A chunk is tried until the first answer and at most the configured number of times, the
  last error being the result; between attempts the delay doubles, starting at the configured
  one.
\<close>

theorem retry_loop_attempts:
  assumes "0 < max_attempts cfg"
  shows "retry_loop cfg fetch 0 =
    (case find (\<lambda>i. is_ok (fetch i)) [0..<max_attempts cfg] of
       Some i \<Rightarrow> (map_ok Some (fetch i), map (\<lambda>k. initial_delay cfg * 2 ^ k) [0..<i])
     | None \<Rightarrow> (map_ok Some (fetch (max_attempts cfg - 1)),
                map (\<lambda>k. initial_delay cfg * 2 ^ k) [0..<max_attempts cfg - 1]))"
  using retry_loop_spec [of 0 cfg fetch] retry_loop_delays [of 0 cfg fetch] assms
  by (intro prod_eqI) (simp_all split: option.splits)

theorem retry_loop_attempts_witness:
  "retry_loop \<lparr>max_attempts = 3, initial_delay = 5\<rparr> (\<lambda>_. Inl JoinError) 0 = (Inl JoinError, [5, 10])"
  using retry_loop_attempts [of "\<lparr>max_attempts = 3, initial_delay = 5\<rparr>" "\<lambda>_. Inl JoinError"]
  by (simp add: upt_rec)

lemma sample_adler:
  "steam_adler32_compute [1, 2, 3] = SteamAdler32 0xA0006"
  "steam_adler32_compute [1, 9, 3] \<noteq> SteamAdler32 0xA0006"
  "steam_adler32_compute [0, 0, 0] \<noteq> SteamAdler32 0xA0006"
  by code_simp+

lemma sample_staging: "ft_filename task = ''a'' \<Longrightarrow> staging_path sample_job task = ''d/.staging/a''"
  by (simp add: staging_path_def sample_job_def path_join_def suffix_Cons)

lemma sample_task_fields:
  "sample_task = \<lparr>ft_path = ''d/a'', ft_size = Some 3, ft_flags = None, ft_chunks = [sample_chunk],
     ft_old_chunks = None, ft_filename = ''a''\<rparr>"
  by (simp add: sample_task_def make_task_def sample_job_def path_join_def suffix_Cons sample_file_def find_old_def
      old_manifest_def sample_manifest_def)

lemmas sample_run = download_file_def fill_staging_def file_has_valid_chunks_def file_has_correct_size_def
  verify_chunks_def write_file_def rename_file_def chunk_good_def read_at_def write_at_def copy_chunk_def old_match_def
  to_fetch_def fetches_of_def map_filter_simps first_error_def valid_ids_def no_files_def file_exists_def sample_adler
  sample_chunk_def file_valid_def enumerate_simps


text \<open>
  The chunks found valid in a staging file are recorded by their ids: when a chunk occurs
  twice in a file and only one of the two places had been written, the other is skipped too,
  and the incomplete file is installed with success reported.
\<close>

theorem download_file_duplicate_ids:
  "let task = sample_task\<lparr>ft_size := Some 6, ft_chunks := [sample_chunk, sample_chunk\<lparr>mc_offset := Some 3\<rparr>]\<rparr>;
       run = download_file C Z sample_job (\<lambda>n. [0..<n]) task
               (write_file ''d/.staging/a'' [1, 2, 3, 0, 0, 0] no_files)
   in fst run = Inr () \<and> fst (snd run) = [] \<and> fs_files (snd (snd run)) ''d/a'' = Some [1, 2, 3, 0, 0, 0]
      \<and> \<not> file_valid (snd (snd run)) task"
  by (simp add: Let_def sample_task_fields sample_staging sample_run)

section \<open>File lists\<close>

lemma filter_scan_spec:
  "filter_scan build ls literals patterns = Inr (literals', patterns') \<Longrightarrow>
     (\<exists>res. literals' = literals @ map normalize_separators (filter (\<lambda>l. strip_regex l = None) ls)
       \<and> patterns' = patterns @ res
       \<and> map Some res = map build (List.map_filter strip_regex ls))"
proof (induction ls arbitrary: literals patterns)
  case Nil
  then show ?case by (simp add: map_filter_simps)
next
  case (Cons l ls)
  show ?case
  proof (cases "strip_regex l")
    case None
    with Cons.prems have "filter_scan build ls (literals @ [normalize_separators l]) patterns = Inr (literals', patterns')"
      by simp
    from Cons.IH [OF this] None show ?thesis by (auto simp: map_filter_simps)
  next
    case (Some p)
    with Cons.prems obtain re where re: "build p = Some re"
      "filter_scan build ls literals (patterns @ [re]) = Inr (literals', patterns')"
      by (auto elim!: and_thenE split: option.splits)
    from Cons.IH [OF re(2)] obtain res where
      "literals' = literals @ map normalize_separators (filter (\<lambda>l. strip_regex l = None) ls)"
      "patterns' = patterns @ [re] @ res" "map Some res = map build (List.map_filter strip_regex ls)"
      by auto
    with Some re(1) show ?thesis by (intro exI [of _ "re # res"]) (simp add: map_filter_simps)
  qed
qed

lemma filter_matches_lists:
  "filter_matches is_match
      (if patterns = [] then FileList literals
       else if literals = [] \<and> length patterns = 1 then Regex (hd patterns) else Mixed literals patterns) name
   \<longleftrightarrow> (\<exists>f \<in> set literals. eq_ignore_ascii_case f (normalize_separators name))
     \<or> (\<exists>re \<in> set patterns. is_match re (normalize_separators name))"
  by (cases patterns) (auto simp: filter_matches_def Let_def list_ex_iff)

text \<open>
  C32: a file list selects a file exactly when one of its lines, trimmed and not empty, is the
  name up to case and the kind of separator, or is a pattern that matches the name; the three
  forms a filter can take do not change this.
\<close>

theorem from_filelist_matches:
  assumes "from_filelist build fs path = Inr flt"
  shows "\<exists>content. Option.bind (fs_files fs path) from_utf8 = Some content
    \<and> (filter_matches is_match flt name \<longleftrightarrow>
         (\<exists>line \<in> set (filter_lines content).
            case strip_regex line of
              None \<Rightarrow> eq_ignore_ascii_case (normalize_separators line) (normalize_separators name)
            | Some pattern \<Rightarrow> (\<exists>re. build pattern = Some re \<and> is_match re (normalize_separators name))))"
proof -
  from assms obtain b content literals patterns where b: "fs_files fs path = Some b" "from_utf8 b = Some content"
    and scan: "filter_scan build (filter_lines content) [] [] = Inr (literals, patterns)"
    and flt: "flt = (if patterns = [] then FileList literals
       else if literals = [] \<and> length patterns = 1 then Regex (hd patterns) else Mixed literals patterns)"
    by (auto simp: from_filelist_def elim!: and_thenE split: option.splits)
  from filter_scan_spec [OF scan] have lits: "literals = map normalize_separators
      (filter (\<lambda>l. strip_regex l = None) (filter_lines content))"
    and pats: "map Some patterns = map build (List.map_filter strip_regex (filter_lines content))"
    by auto
  have "re \<in> set patterns \<longleftrightarrow> (\<exists>line \<in> set (filter_lines content). \<exists>p. strip_regex line = Some p \<and> build p = Some re)" for re
  proof -
    have "re \<in> set patterns \<longleftrightarrow> Some re \<in> set (map Some patterns)" by auto
    also have "\<dots> \<longleftrightarrow> (\<exists>p \<in> set (List.map_filter strip_regex (filter_lines content)). build p = Some re)"
      unfolding pats by (auto simp: image_iff eq_commute)
    finally show ?thesis unfolding set_map_filter_iff Bex_def by blast
  qed
  then have pat: "(\<exists>re \<in> set patterns. is_match re n) \<longleftrightarrow> (\<exists>line \<in> set (filter_lines content).
      case strip_regex line of None \<Rightarrow> False | Some p \<Rightarrow> (\<exists>re. build p = Some re \<and> is_match re n))" for n
    unfolding Bex_def by (auto split: option.splits) blast
  have lit: "(\<exists>f \<in> set literals. eq_ignore_ascii_case f n) \<longleftrightarrow> (\<exists>line \<in> set (filter_lines content).
      case strip_regex line of None \<Rightarrow> eq_ignore_ascii_case (normalize_separators line) n | Some p \<Rightarrow> False)" for n
    unfolding lits by (auto split: option.splits)
  have "((\<exists>x \<in> A. case f x of None \<Rightarrow> P x | Some p \<Rightarrow> False) \<or> (\<exists>x \<in> A. case f x of None \<Rightarrow> False | Some p \<Rightarrow> Q p))
      = (\<exists>x \<in> A. case f x of None \<Rightarrow> P x | Some p \<Rightarrow> Q p)" for A :: "string set" and f :: "string \<Rightarrow> string option" and P Q
    unfolding bex_disj_distrib [symmetric] by (intro bex_cong refl) (simp split: option.split)
  then show ?thesis
    using b unfolding flt filter_matches_lists pat lit by simp
qed

definition sample_list :: string where
  "sample_list = '' bin'' @ [CHR 0x5C] @ ''A.dll'' @ [CHR 0x0A, CHR 0x0A] @ ''regex:x''"

theorem from_filelist_matches_witness:
  "\<exists>flt. from_filelist Some (write_file ''l'' (as_bytes sample_list) no_files) ''l'' = Inr flt
     \<and> filter_matches (=) flt ''BIN/a.dll'' \<and> filter_matches (=) flt ''x'' \<and> \<not> filter_matches (=) flt ''bin''"
proof -
  let ?fs = "write_file ''l'' (as_bytes sample_list) no_files"
  have "valid_str sample_list"
    by (simp add: sample_list_def valid_str_def as_bytes_def byte_of_char_def utf8_valid_ascii_Cons)
  then have read: "fs_files ?fs ''l'' = Some (as_bytes sample_list)" "from_utf8 (as_bytes sample_list) = Some sample_list"
    by (simp_all add: write_file_def)
  have ls: "filter_lines sample_list = [''bin'' @ [CHR 0x5C] @ ''A.dll'', ''regex:x'']"
    by code_simp
  have "from_filelist Some ?fs ''l'' = Inr (Mixed [''bin/A.dll''] [''x''])"
    by (simp add: from_filelist_def read ls strip_regex_def normalize_separators_def)
  note run = this
  have "filter_matches (=) (Mixed [''bin/A.dll''] [''x'']) name \<longleftrightarrow>
      eq_ignore_ascii_case ''bin/A.dll'' (normalize_separators name) \<or> ''x'' = normalize_separators name" for name
    using from_filelist_matches [OF run, of "(=)" name]
    by (simp add: read ls strip_regex_def) (simp add: normalize_separators_def)
  moreover have "eq_ignore_ascii_case ''bin/A.dll'' (normalize_separators ''BIN/a.dll'')"
    "''x'' = normalize_separators ''x''" "\<not> eq_ignore_ascii_case ''bin/A.dll'' (normalize_separators ''bin'')"
    "''x'' \<noteq> normalize_separators ''bin''"
    by code_simp+
  ultimately show ?thesis using run by blast
qed

end
