(* ===== verification/Depot_Run_Spec.thy ===== *)
theory Depot_Run_Spec
  imports Commands Login_Spec Download_Props
begin

text \<open>
  What the download command promises about the files of a depot: which of them it touches,
  when it records a manifest as installed, and that installing again changes nothing.
\<close>

section \<open>Paths of the program's own files\<close>

text \<open>The directory as a prefix of the paths in it.\<close>

definition dir_prefix :: "string \<Rightarrow> string" where
  "dir_prefix dir = (if dir = [] \<or> suffix ''/'' dir then dir else dir @ ''/'')"

lemma path_join_prefix: "\<not> prefix ''/'' name \<Longrightarrow> path_join dir name = dir_prefix dir @ name"
  by (simp add: path_join_def dir_prefix_def)

lemma dir_prefix_append:
  "name \<noteq> [] \<Longrightarrow> last name \<noteq> CHR ''/'' \<Longrightarrow> dir_prefix (d @ name) = d @ name @ ''/''"
  by (auto simp: dir_prefix_def suffix_def) (metis last_appendR last_snoc)+

text \<open>
  Names of depot files that stay out of the staging directory and out of the directory in
  which the program keeps its records.
\<close>

definition safe_name :: "string \<Rightarrow> bool" where
  "safe_name name \<longleftrightarrow> plain_name name \<and> \<not> prefix ''.depotdownloader/'' name"

definition own_path :: "string \<Rightarrow> string \<Rightarrow> bool" where
  "own_path base_dir path \<longleftrightarrow> prefix (dir_prefix base_dir @ ''.depotdownloader/'') path"

lemma config_path_own: "own_path base_dir (config_path_for base_dir)"
  by (simp add: own_path_def config_path_for_def path_join_prefix dir_prefix_append)

lemma cache_path_own: "own_path base_dir (manifest_path (cache_default_for base_dir) d m)"
  "own_path base_dir (sha_path (cache_default_for base_dir) d m)"
  by (simp_all add: own_path_def manifest_path_def sha_path_def cache_default_for_def path_join_prefix
      dir_prefix_append cache_name_relative)

lemma cache_config_apart:
  "manifest_path (cache_default_for base_dir) d m \<noteq> config_path_for base_dir"
  "sha_path (cache_default_for base_dir) d m \<noteq> config_path_for base_dir"
  by (simp_all add: manifest_path_def sha_path_def cache_default_for_def config_path_for_def path_join_prefix
      dir_prefix_append cache_name_relative)

text \<open>The install directory is the base directory, or one below it that begins with a number.\<close>

lemma dec_string_first:
  obtains c cs where "dec_string n = c # cs" "c \<noteq> CHR ''.''" "c \<noteq> CHR ''/''"
proof -
  obtain c cs where "dec_string n = c # cs" using dec_string_not_Nil by (cases "dec_string n") auto
  moreover from this dec_string_no [of "CHR ''.''" n] dec_string_no [of "CHR ''/''" n] separators_no_digits
  have "c \<noteq> CHR ''.''" "c \<noteq> CHR ''/''" by (auto simp: to_digit_def)
  ultimately show thesis by (rule that)
qed

lemma dec_string_relative [simp]: "\<not> prefix ''/'' (dec_string n)" "\<not> prefix ''/'' (dec_string n @ x)"
  by (rule dec_string_first [of n], simp)+

lemma dec_string_last [simp]: "last (dec_string n) \<noteq> CHR ''/''"
  using dec_string_no [of "CHR ''/''" n] separators_no_digits last_in_set [OF dec_string_not_Nil] by metis

text \<open>The install directory is the base directory, or one below it whose name is a number.\<close>

lemma install_dir_prefix:
  obtains "dir_prefix (install_dir_of custom base_dir depot_id build_id) = dir_prefix base_dir"
  | n x where "dir_prefix (install_dir_of custom base_dir depot_id build_id) = dir_prefix base_dir @ dec_string n @ x"
  by (cases custom; cases build_id)
     (auto simp: install_dir_of_def Let_def path_join_prefix depot_id_display_def build_id_display_def dir_prefix_append)

lemma install_path_not_own:
  assumes "safe_name name"
  shows "\<not> own_path base_dir (path_join (install_dir_of custom base_dir depot_id build_id) name)"
    "\<not> own_path base_dir (path_join (path_join (install_dir_of custom base_dir depot_id build_id) ''.staging'') name)"
proof -
  let ?dir = "install_dir_of custom base_dir depot_id build_id"
  have rel: "\<not> prefix ''/'' name" "\<not> prefix ''.depotdownloader/'' name"
    using assms by (simp_all add: safe_name_def plain_name_def)
  have path: "path_join ?dir name = dir_prefix ?dir @ name"
    "path_join (path_join ?dir ''.staging'') name = dir_prefix ?dir @ ''.staging/'' @ name"
    using rel(1) by (simp_all add: path_join_prefix dir_prefix_append)
  have sub: "\<not> own_path base_dir (dir_prefix ?dir @ x)" if "\<not> prefix ''.depotdownloader/'' x" for x
  proof (rule install_dir_prefix [of custom base_dir depot_id build_id])
    assume "dir_prefix ?dir = dir_prefix base_dir"
    with that show ?thesis by (simp add: own_path_def)
  next
    fix n y
    assume y: "dir_prefix ?dir = dir_prefix base_dir @ dec_string n @ y"
    obtain c cs where "dec_string n = c # cs" "c \<noteq> CHR ''.''" by (rule dec_string_first)
    with y show ?thesis by (simp add: own_path_def)
  qed
  show "\<not> own_path base_dir (path_join ?dir name)" "\<not> own_path base_dir (path_join (path_join ?dir ''.staging'') name)"
    unfolding path using rel(2) by (simp_all add: sub)
qed

section \<open>Frames\<close>

text \<open>Whatever comes of it, a job touches only the paths of its files and those it deletes.\<close>

lemma run_tasks_frame:
  assumes "\<And>i. i \<in> set xs \<Longrightarrow> staging_path job (tasks ! i) \<noteq> ft_path (tasks ! i)"
    and "\<And>i. i \<in> set xs \<Longrightarrow> q \<noteq> ft_path (tasks ! i) \<and> q \<noteq> staging_path job (tasks ! i)"
    and "fold (run_task C Z job chunk_order tasks) xs (results, ev, fs) = (results', ev', fs')"
  shows "fs_files fs' q = fs_files fs q"
  using assms
proof (induction xs arbitrary: results ev fs)
  case (Cons x xs)
  obtain r ev1 fs1 where run: "run_file_task C Z job (chunk_order x) (tasks ! x) fs = (r, ev1, fs1)"
    by (cases "run_file_task C Z job (chunk_order x) (tasks ! x) fs")
  obtain r2 ev2 fs2 where single: "download_file C Z job (chunk_order x) (tasks ! x) fs = (r2, ev2, fs2)"
    by (cases "download_file C Z job (chunk_order x) (tasks ! x) fs")
  from run single have "fs_files fs1 = fs_files fs2" by (auto simp: run_file_task_def split: sum.splits)
  with download_file_frame [OF _ single, of q] Cons.prems(1,2) [of x] have "fs_files fs1 q = fs_files fs q" by simp
  moreover have step: "run_task C Z job chunk_order tasks x (results, ev, fs) = (results(x := r), ev @ ev1, fs1)"
    by (simp add: run_task_def run)
  have "fold (run_task C Z job chunk_order tasks) xs (results(x := r), ev @ ev1, fs1) = (results', ev', fs')"
    using Cons.prems(3) by (simp only: fold_Cons o_apply step)
  from Cons.IH [OF _ _ this] Cons.prems(1,2) have "fs_files fs' q = fs_files fs1 q" by simp
  ultimately show ?case by simp
qed simp

lemma download_frame:
  assumes "list_all plain_name (names_of manifest)" "complete_order task_order"
    and run: "download C Z is_match job task_order chunk_order manifest fs = (r, ev, fs')"
    and q: "\<And>name. name \<in> set (names_of manifest) \<Longrightarrow>
        q \<noteq> path_join (dj_install_dir job) name \<and> q \<noteq> path_join (path_join (dj_install_dir job) ''.staging'') name"
    and old: "\<And>old name. dj_previous_manifest job = Some old \<Longrightarrow> name \<in> set (names_of old) \<Longrightarrow> q \<noteq> path_join (dj_install_dir job) name"
  shows "fs_files fs' q = fs_files fs q"
proof -
  let ?tasks = "pl_tasks (plan_files is_match job fs manifest)"
  have task: "\<exists>name \<in> set (names_of manifest). ft_path t = path_join (dj_install_dir job) name
      \<and> staging_path job t = path_join (path_join (dj_install_dir job) ''.staging'') name" if "t \<in> set ?tasks" for t
  proof -
    from that obtain f name where f: "f \<in> set (dm_files manifest)" "mf_filename f = Some name" and t: "t = make_task job f name"
      by (auto simp: plan_task_mem wanted_def)
    show ?thesis
      by (rule bexI [of _ name]) (use f in \<open>auto simp: t make_task_def staging_path_def names_of_def set_map_filter_iff\<close>)
  qed
  obtain results ev1 fs1 where tasks_run:
    "fold (run_task C Z job chunk_order ?tasks) (task_order (length ?tasks)) (\<lambda>_. Inr (), [], fs) = (results, ev1, fs1)"
    by (cases "fold (run_task C Z job chunk_order ?tasks) (task_order (length ?tasks)) (\<lambda>_. Inr (), [], fs)")
  have mem: "?tasks ! i \<in> set ?tasks" if "i \<in> set (task_order (length ?tasks))" for i
    using that assms(2) by (simp add: complete_order_def)
  have "fs_files fs1 q = fs_files fs q"
  proof (rule run_tasks_frame [OF _ _ tasks_run])
    fix i assume "i \<in> set (task_order (length ?tasks))"
    from task [OF mem [OF this]] obtain name where name: "name \<in> set (names_of manifest)"
      "ft_path (?tasks ! i) = path_join (dj_install_dir job) name"
      "staging_path job (?tasks ! i) = path_join (path_join (dj_install_dir job) ''.staging'') name" by blast
    with assms(1) staging_apart show "staging_path job (?tasks ! i) \<noteq> ft_path (?tasks ! i)"
      by (auto simp: list_all_iff)
    show "q \<noteq> ft_path (?tasks ! i) \<and> q \<noteq> staging_path job (?tasks ! i)"
      using q [OF name(1)] name by simp
  qed
  moreover have "fs' = fs1 \<or> (\<exists>old. dj_previous_manifest job = Some old
      \<and> fs' = fold (delete_removed (dj_install_dir job) manifest) (dm_files old) fs1)"
    using run tasks_run by (auto simp: download_def Let_def split: prod.splits sum.splits option.splits)
  moreover have "q \<notin> removed_paths (dj_install_dir job) manifest (dm_files old)" if "dj_previous_manifest job = Some old" for old
    using old [OF that] by (auto simp: removed_paths_def names_of_def set_map_filter_iff)
  ultimately show ?thesis by (auto simp: delete_removed_all)
qed

section \<open>Installing\<close>

text \<open>The record of installed manifests on the disk.\<close>

definition recorded :: "('r, 'a, 'e) tools \<Rightarrow> string \<Rightarrow> file_system \<Rightarrow> depot_config" where
  "recorded L base_dir fs = depot_config_load (tl_config_from_str L) fs (config_path_for base_dir)"

definition up_to_date :: "('r, 'a, 'e) tools \<Rightarrow> string \<Rightarrow> download_args \<Rightarrow> depot_id \<Rightarrow> manifest_id \<Rightarrow> file_system \<Rightarrow> bool" where
  "up_to_date L base_dir args depot_id manifest_id fs \<longleftrightarrow>
     get_installed (recorded L base_dir fs) depot_id = Some manifest_id \<and> \<not> da_verify args"

lemma recorded_cong:
  "fs_files fs' (config_path_for base_dir) = fs_files fs (config_path_for base_dir) \<Longrightarrow> recorded L base_dir fs' = recorded L base_dir fs"
  by (simp add: recorded_def depot_config_load_def load_json_def read_to_string_def)

lemma cache_load_cong:
  "fs_files fs' (manifest_path c d m) = fs_files fs (manifest_path c d m) \<Longrightarrow> fs_files fs' (sha_path c d m) = fs_files fs (sha_path c d m)
    \<Longrightarrow> cache_load sha1 X fs' c d m = cache_load sha1 X fs c d m"
  by (simp add: cache_load_def read_to_string_def)

text \<open>Saving the record so that it can be read again.\<close>

definition record_saved :: "('r, 'a, 'e) tools \<Rightarrow> depot_config \<Rightarrow> bool" where
  "record_saved L config \<longleftrightarrow>
     (case tl_config_to_str L config of
        None \<Rightarrow> False | Some json \<Rightarrow> tl_config_from_str L json = Some config \<and> valid_str json)"

lemma recorded_save:
  assumes "record_saved L config"
  shows "recorded L base_dir (snd (depot_config_save (tl_config_to_str L) config (config_path_for base_dir) fs)) = config"
  using assms load_save_json [where to_string_pretty = "tl_config_to_str L" and from_str = "tl_config_from_str L" and x = config]
  by (auto simp: record_saved_def recorded_def depot_config_load_def depot_config_save_def split: option.splits)

text \<open>All parts of a job are set, so that the builder does not fail.\<close>

definition job_of where
  "job_of L E cdn server cdn_token max_downloads args depot_id depot_key install_dir file_filter previous_manifest =
     \<lparr>dj_fetcher = cdn_chunk_fetcher (tl_error_text L) (pe_chunk_http E) cdn server cdn_token,
      dj_depot_id = depot_id, dj_depot_key = depot_key, dj_install_dir = install_dir, dj_max_downloads = max_downloads,
      dj_verify = da_verify args, dj_file_filter = file_filter, dj_previous_manifest = previous_manifest,
      dj_retry = default_retry\<rparr>"

lemmas builder_defs = build_job_def default_builder_def builder_cdn_def builder_fetcher_def builder_depot_id_def
  builder_depot_key_def builder_install_dir_def builder_max_downloads_def builder_event_sender_def builder_verify_def
  builder_file_filter_def builder_previous_manifest_def

lemma depot_job_of_eq:
  "depot_job_of L E cdn server cdn_token max_downloads args depot_id depot_key install_dir file_filter previous_manifest =
     Inr (job_of L E cdn server cdn_token max_downloads args depot_id depot_key install_dir file_filter previous_manifest)"
  by (simp add: depot_job_of_def job_of_def builder_defs)

text \<open>The cases of installing a manifest: a bad filter, up to date, and a download.\<close>

lemma install_manifest_cases:
  assumes "install_manifest L E C cdn server cdn_token max_downloads args base_dir custom build_id depot_id depot_key
     manifest_id manifest fs = (r, fs')"
  obtains (filter_error) e where "file_filter_of L args fs = Inl e" "r = Inl e" "fs' = fs"
  | (skip) "up_to_date L base_dir args depot_id manifest_id fs" "r = Inr ()" "fs' = fs"
  | (run) flt job q ev fs1 where "file_filter_of L args fs = Inr flt"
      "\<not> up_to_date L base_dir args depot_id manifest_id fs"
      "job = job_of L E cdn server cdn_token max_downloads args depot_id depot_key (install_dir_of custom base_dir depot_id build_id)
         flt (previous_manifest_of L (cache_default_for base_dir) depot_id manifest_id
                (get_installed (recorded L base_dir fs) depot_id) fs)"
      "download C (tl_codecs L) (tl_is_match L) job (pe_task_order E) (pe_chunk_order E) manifest fs = (q, ev, fs1)"
      "r = map_err (\<lambda>e. CliOther (tl_box_text L e)) q"
      "fs' = (if q = Inr () then snd (depot_config_save (tl_config_to_str L)
         (set_installed depot_id manifest_id (recorded L base_dir fs1)) (config_path_for base_dir) fs1) else fs1)"
proof (cases "file_filter_of L args fs")
  case (Inl e)
  with assms have "r = Inl e" "fs' = fs" by (simp_all add: install_manifest_def)
  with Inl show ?thesis by (rule filter_error)
next
  case (Inr flt)
  let ?job = "job_of L E cdn server cdn_token max_downloads args depot_id depot_key (install_dir_of custom base_dir depot_id build_id)
         flt (previous_manifest_of L (cache_default_for base_dir) depot_id manifest_id
                (get_installed (recorded L base_dir fs) depot_id) fs)"
  show ?thesis
  proof (cases "up_to_date L base_dir args depot_id manifest_id fs")
    case True
    with assms Inr have "r = Inr ()" "fs' = fs" by (simp_all add: install_manifest_def up_to_date_def recorded_def)
    with True show ?thesis by (rule skip)
  next
    case False
    obtain q ev fs1 where d: "download C (tl_codecs L) (tl_is_match L) ?job (pe_task_order E) (pe_chunk_order E) manifest fs = (q, ev, fs1)"
      by (cases "download C (tl_codecs L) (tl_is_match L) ?job (pe_task_order E) (pe_chunk_order E) manifest fs")
    have idle: "\<not> (get_installed (depot_config_load (tl_config_from_str L) fs (config_path_for base_dir)) depot_id = Some manifest_id
        \<and> \<not> da_verify args)"
      using False by (simp add: up_to_date_def recorded_def)
    note d' = d [unfolded recorded_def]
    show ?thesis
    proof (cases q)
      case (Inl e)
      have "install_manifest L E C cdn server cdn_token max_downloads args base_dir custom build_id depot_id depot_key
          manifest_id manifest fs = (Inl (CliOther (tl_box_text L e)), fs1)"
        by (simp only: install_manifest_def Inr idle Let_def depot_job_of_eq d' Inl sum.case prod.case if_False)
      with assms show ?thesis by (intro run [OF Inr False refl d]) (simp_all add: Inl)
    next
      case Ok: (Inr u)
      have "install_manifest L E C cdn server cdn_token max_downloads args base_dir custom build_id depot_id depot_key
          manifest_id manifest fs = (Inr (), snd (depot_config_save (tl_config_to_str L)
             (set_installed depot_id manifest_id (recorded L base_dir fs1)) (config_path_for base_dir) fs1))"
        by (simp only: install_manifest_def Inr idle Let_def depot_job_of_eq d' Ok sum.case prod.case if_False recorded_def)
      with assms show ?thesis by (intro run [OF Inr False refl d]) (simp_all add: Ok)
    qed
  qed
qed

text \<open>
  The hypotheses of the following: the names in the manifest and in the previous one are safe,
  and every task is run.
\<close>

definition install_ok ::
  "('r, 'a, 'e) tools \<Rightarrow> depot_env \<Rightarrow> string \<Rightarrow> depot_id \<Rightarrow> manifest_id \<Rightarrow> depot_manifest \<Rightarrow> file_system \<Rightarrow> bool" where
  "install_ok L E base_dir depot_id manifest_id manifest fs \<longleftrightarrow>
     list_all safe_name (names_of manifest)
     \<and> (case previous_manifest_of L (cache_default_for base_dir) depot_id manifest_id
               (get_installed (recorded L base_dir fs) depot_id) fs of
          None \<Rightarrow> True | Some old \<Rightarrow> list_all safe_name (names_of old))
     \<and> complete_order (pe_task_order E) \<and> (\<forall>i. complete_order (pe_chunk_order E i))"

lemma install_download_own:
  assumes "install_ok L E base_dir depot_id manifest_id manifest fs" "own_path base_dir p"
    and "job = job_of L E cdn server cdn_token max_downloads args depot_id depot_key (install_dir_of custom base_dir depot_id build_id)
         flt (previous_manifest_of L (cache_default_for base_dir) depot_id manifest_id
                (get_installed (recorded L base_dir fs) depot_id) fs)"
    and "download C (tl_codecs L) (tl_is_match L) job (pe_task_order E) (pe_chunk_order E) manifest fs = (q, ev, fs1)"
  shows "fs_files fs1 p = fs_files fs p"
proof -
  have safe: "list_all safe_name (names_of manifest)" and order: "complete_order (pe_task_order E)"
    using assms(1) by (simp_all add: install_ok_def)
  have dir: "dj_install_dir job = install_dir_of custom base_dir depot_id build_id" by (simp add: assms(3) job_of_def)
  have off: "p \<noteq> path_join (dj_install_dir job) name" "p \<noteq> path_join (path_join (dj_install_dir job) ''.staging'') name"
    if "safe_name name" for name
    using install_path_not_own [OF that, of base_dir custom depot_id build_id] assms(2) dir by auto
  show ?thesis
  proof (rule download_frame [OF _ order assms(4)])
    show "list_all plain_name (names_of manifest)" using safe by (auto simp: list_all_iff safe_name_def)
    show "p \<noteq> path_join (dj_install_dir job) name \<and> p \<noteq> path_join (path_join (dj_install_dir job) ''.staging'') name"
      if "name \<in> set (names_of manifest)" for name
      using off that safe by (auto simp: list_all_iff)
    show "p \<noteq> path_join (dj_install_dir job) name"
      if "dj_previous_manifest job = Some old" "name \<in> set (names_of old)" for old name
      using off(1) that assms(1,3) by (auto simp: install_ok_def list_all_iff job_of_def)
  qed
qed

text \<open>The program's own files: only the record changes, and only by an install that succeeds.\<close>

lemma install_manifest_own:
  assumes run: "install_manifest L E C cdn server cdn_token max_downloads args base_dir custom build_id depot_id depot_key
     manifest_id manifest fs = (r, fs')"
    and ok: "install_ok L E base_dir depot_id manifest_id manifest fs"
    and json: "record_saved L (set_installed depot_id manifest_id (recorded L base_dir fs))"
  shows "recorded L base_dir fs' =
      (if r = Inr () then set_installed depot_id manifest_id (recorded L base_dir fs) else recorded L base_dir fs)"
    and "own_path base_dir p \<Longrightarrow> p \<noteq> config_path_for base_dir \<Longrightarrow> fs_files fs' p = fs_files fs p"
proof -
  have "recorded L base_dir fs' =
      (if r = Inr () then set_installed depot_id manifest_id (recorded L base_dir fs) else recorded L base_dir fs)
    \<and> (own_path base_dir p \<longrightarrow> p \<noteq> config_path_for base_dir \<longrightarrow> fs_files fs' p = fs_files fs p)"
    using run
  proof (cases rule: install_manifest_cases)
    case filter_error
    then show ?thesis by simp
  next
    case skip
    then have "set_installed depot_id manifest_id (recorded L base_dir fs) = recorded L base_dir fs"
      by (cases "recorded L base_dir fs")
         (auto simp: up_to_date_def get_installed_def set_installed_def fun_upd_idem_iff)
    with skip show ?thesis by simp
  next
    case (run flt job q ev fs1)
    note own = install_download_own [OF ok _ run(3,4)]
    have rec: "recorded L base_dir fs1 = recorded L base_dir fs"
      by (rule recorded_cong) (rule own, rule config_path_own)
    show ?thesis
    proof (cases "q = Inr ()")
      case True
      with run rec recorded_save [OF json, of base_dir fs1] own [of p] show ?thesis
        by (auto simp: depot_config_save_def save_json_def write_file_def split: option.split)
    next
      case False
      then obtain e where "q = Inl e" by (cases q) auto
      with run rec own [of p] show ?thesis by simp
    qed
  qed
  then show "recorded L base_dir fs' =
      (if r = Inr () then set_installed depot_id manifest_id (recorded L base_dir fs) else recorded L base_dir fs)"
    "own_path base_dir p \<Longrightarrow> p \<noteq> config_path_for base_dir \<Longrightarrow> fs_files fs' p = fs_files fs p"
    by blast+
qed

text \<open>A manifest that was obtained is in the cache, and the record is as before.\<close>

lemma obtain_manifest_cached:
  assumes run: "obtain_manifest L cdn server (cache_default_for base_dir) d m code token fs = (Inr manifest, fs')"
  shows "cache_load (tl_sha1 L) (tl_manifest_codec L) fs' (cache_default_for base_dir) d m = Some manifest"
    and "recorded L base_dir fs' = recorded L base_dir fs"
proof -
  have "cache_load (tl_sha1 L) (tl_manifest_codec L) fs' (cache_default_for base_dir) d m = Some manifest
      \<and> recorded L base_dir fs' = recorded L base_dir fs"
  proof (cases "cache_load (tl_sha1 L) (tl_manifest_codec L) fs (cache_default_for base_dir) d m")
    case (Some cached)
    with run show ?thesis by (simp add: obtain_manifest_def)
  next
    case None
    with run obtain raw where raw: "download_manifest cdn server d m code token = Inr raw"
      by (auto simp: obtain_manifest_def split: sum.splits)
    with run None have parsed: "extract_and_parse (tl_codecs L) (tl_manifest_codec L) raw = Inr manifest"
      and fs': "fs' = snd (cache_save (tl_sha1 L) (tl_codecs L) (cache_default_for base_dir) d m raw fs)"
      by (cases "extract_and_parse (tl_codecs L) (tl_manifest_codec L) raw"; simp add: obtain_manifest_def)+
    from parsed obtain b where b: "extract_zip (tl_codecs L) raw = Inr b" "parse_manifest (tl_manifest_codec L) b = Inr manifest"
      by (cases "extract_zip (tl_codecs L) raw") (auto simp: extract_and_parse_def)
    have "fs_files fs' (manifest_path (cache_default_for base_dir) d m) = Some b"
      "fs_files fs' (sha_path (cache_default_for base_dir) d m) = Some (as_bytes (sha1_display (tl_sha1 L b)))"
      "fs_files fs' (config_path_for base_dir) = fs_files fs (config_path_for base_dir)"
      using cache_paths(3) [of "cache_default_for base_dir" d m d m] cache_config_apart [of base_dir d m]
      by (simp_all add: fs' cache_save_def b write_file_def not_sym)
    then show ?thesis
      using recorded_cong [of fs' base_dir fs L]
      by (simp add: cache_load_def read_to_string_def b sha1_display_def)
  qed
  then show "cache_load (tl_sha1 L) (tl_manifest_codec L) fs' (cache_default_for base_dir) d m = Some manifest"
    "recorded L base_dir fs' = recorded L base_dir fs"
    by simp_all
qed

lemma obtain_manifest_again:
  assumes "cache_load (tl_sha1 L) (tl_manifest_codec L) fs cache d m = Some manifest"
  shows "obtain_manifest L cdn server cache d m code token fs = (Inr manifest, fs)"
  using assms by (simp add: obtain_manifest_def)

lemma obtain_manifest_error:
  assumes "obtain_manifest L cdn server (cache_default_for base_dir) d m code token fs = (Inl e, fs')"
  shows "recorded L base_dir fs' = recorded L base_dir fs"
proof (rule recorded_cong)
  have saved: "fs_files (snd (cache_save (tl_sha1 L) (tl_codecs L) (cache_default_for base_dir) d m raw fs)) (config_path_for base_dir)
      = fs_files fs (config_path_for base_dir)" for raw
    using cache_config_apart [of base_dir d m, THEN not_sym] by (simp add: cache_save_def write_file_def split: sum.split)
  show "fs_files fs' (config_path_for base_dir) = fs_files fs (config_path_for base_dir)"
  proof (cases "cache_load (tl_sha1 L) (tl_manifest_codec L) fs (cache_default_for base_dir) d m")
    case None
    with assms saved show ?thesis
      by (cases "download_manifest cdn server d m code token") (auto simp: obtain_manifest_def)
  next
    case (Some cached)
    with assms show ?thesis by (simp add: obtain_manifest_def)
  qed
qed

text \<open>
  What a depot needs to be installed: the manifest that is obtained and decrypted for it is safe,
  and the record of it can be read back.
\<close>

definition install_ready ::
  "('r, 'a, 'e) tools \<Rightarrow> depot_env \<Rightarrow> crypto \<Rightarrow> cdn_client \<Rightarrow> cdn_server \<Rightarrow> u64 \<Rightarrow> string option \<Rightarrow> string \<Rightarrow> depot_id
     \<Rightarrow> depot_key \<Rightarrow> manifest_id \<Rightarrow> file_system \<Rightarrow> bool" where
  "install_ready L E C cdn server code token base_dir d key m fs \<longleftrightarrow>
     (case obtain_manifest L (cdn\<lparr>cdn_http := pe_http E\<rparr>) server (cache_default_for base_dir) d m code token fs of
        (Inl _, _) \<Rightarrow> True
      | (Inr raw, fs0) \<Rightarrow>
          (case decrypt_manifest L C key raw of
             Inl _ \<Rightarrow> True
           | Inr manifest \<Rightarrow>
               install_ok L E base_dir d m manifest fs0
               \<and> record_saved L (set_installed d m (recorded L base_dir fs0))))"

text \<open>A depot that was installed: its manifest was obtained, decrypted and installed.\<close>

lemma install_depot_cases:
  assumes "install_depot L E C cdn server code token max_downloads args base_dir custom build_id d key m fs = (r, fs')"
  obtains (no_manifest) e where "r = Inl e"
      "obtain_manifest L (cdn\<lparr>cdn_http := pe_http E\<rparr>) server (cache_default_for base_dir) d m code token fs = (Inl e, fs')"
  | (no_names) e raw where "r = Inl e" "decrypt_manifest L C key raw = Inl e"
      "obtain_manifest L (cdn\<lparr>cdn_http := pe_http E\<rparr>) server (cache_default_for base_dir) d m code token fs = (Inr raw, fs')"
  | (install) raw manifest fs0 where
      "obtain_manifest L (cdn\<lparr>cdn_http := pe_http E\<rparr>) server (cache_default_for base_dir) d m code token fs = (Inr raw, fs0)"
      "decrypt_manifest L C key raw = Inr manifest"
      "install_manifest L E C cdn server token max_downloads args base_dir custom build_id d key m manifest fs0 = (r, fs')"
proof -
  let ?run = "obtain_manifest L (cdn\<lparr>cdn_http := pe_http E\<rparr>) server (cache_default_for base_dir) d m code token fs"
  obtain q fs0 where run: "?run = (q, fs0)" by (cases ?run)
  show thesis
  proof (cases q)
    case (Inl e)
    with assms run have "r = Inl e" "?run = (Inl e, fs')" by (simp_all add: install_depot_def)
    then show thesis by (rule no_manifest)
  next
    case (Inr raw)
    show thesis
    proof (cases "decrypt_manifest L C key raw")
      case (Inl e)
      with assms run Inr have "r = Inl e" "?run = (Inr raw, fs')" by (simp_all add: install_depot_def)
      with Inl show thesis by (intro no_names)
    next
      case Plain: (Inr manifest)
      with assms run Inr have "?run = (Inr raw, fs0)"
        "install_manifest L E C cdn server token max_downloads args base_dir custom build_id d key m manifest fs0 = (r, fs')"
        by (simp_all add: install_depot_def)
      with Plain show thesis by (intro install)
    qed
  qed
qed

lemma install_manifest_cache:
  assumes "install_manifest L E C cdn server token max_downloads args base_dir custom build_id d key m manifest fs = (r, fs')"
    and "install_ok L E base_dir d m manifest fs" "record_saved L (set_installed d m (recorded L base_dir fs))"
  shows "cache_load sha1 X fs' (cache_default_for base_dir) d' m' = cache_load sha1 X fs (cache_default_for base_dir) d' m'"
  by (rule cache_load_cong; rule install_manifest_own(2) [OF assms]) (rule cache_path_own cache_config_apart)+

lemma get_set_installed: "get_installed (set_installed d m config) d' = (if d' = d then Some m else get_installed config d')"
  by (auto simp: get_installed_def set_installed_def depot_id.expand)

section \<open>A depot to install\<close>

text \<open>A tool box whose record of installed manifests is one manifest of depot 481.\<close>

definition sample_tools :: "(unit, bytes, bytes) tools" where
  "sample_tools =
     \<lparr>tl_sha1 = (\<lambda>b. Sha1Hash (take 20 b)), tl_manifest_codec = sample_codec, tl_codecs = stored_codecs,
      tl_base64_decode = Some \<circ> as_bytes, tl_build_regex = (\<lambda>_. None), tl_regex_error = (\<lambda>s. s),
      tl_is_match = (\<lambda>_ _. True), tl_error_text = (\<lambda>_. []), tl_box_text = (\<lambda>_. []),
      tl_config_from_str = (\<lambda>_. Some (set_installed (DepotId 481) (ManifestId 3) depot_config_default)),
      tl_config_to_str = (\<lambda>_. Some ''{}'')\<rparr>"

text \<open>The network answers with an archive of the manifest and with one chunk.\<close>

definition sample_depot_env :: depot_env where
  "sample_depot_env =
     \<lparr>pe_random = (\<lambda>_. []), pe_http = (\<lambda>_ _. Inr empty_manifest_zip),
      pe_chunk_http = (\<lambda>_ _ _ _. Inr (replicate 16 0 @ pkcs7_pad [1, 2, 3])),
      pe_task_order = (\<lambda>n. [0..<n]), pe_chunk_order = (\<lambda>_ n. [0..<n])\<rparr>"

definition sample_cdn :: cdn_client where
  "sample_cdn = \<lparr>cdn_http = (\<lambda>_ _. Inr []), cdn_use_lancache = False\<rparr>"

definition sample_cdn_server :: cdn_server where
  "sample_cdn_server = \<lparr>cs_host = ''cdn'', cs_port = 443, cs_https = True, cs_vhost = ''cdn''\<rparr>"

definition sample_args :: download_args where
  "sample_args =
     \<lparr>da_app = 480, da_depot = [481], da_manifest = [3], da_branch = ''public'', da_beta_password = None,
      da_output = None, da_os = None, da_arch = None, da_language = None, da_all_platforms = False,
      da_all_archs = False, da_all_languages = False, da_filelist = None, da_file_regex = None, da_verify = False,
      da_lancache = False, da_login_id = None\<rparr>"

definition sample_key :: depot_key where
  "sample_key = DepotKey (replicate 32 0)"

abbreviation (input) sample_install ::
  "depot_env \<Rightarrow> depot_manifest \<Rightarrow> file_system \<Rightarrow> (cli_error + unit) \<times> file_system" where
  "sample_install E manifest fs \<equiv>
     install_manifest sample_tools E plain_crypto sample_cdn sample_cdn_server None 8 sample_args ''d'' False None
       (DepotId 481) sample_key (ManifestId 3) manifest fs"

lemma sample_recorded: "recorded sample_tools ''d'' no_files = depot_config_default"
  by (simp add: recorded_def depot_config_load_def load_json_def read_to_string_def no_files_def)

lemma sample_filter: "file_filter_of L sample_args fs = Inr None"
  by (simp add: file_filter_of_def sample_args_def)

lemma sample_record: "record_saved sample_tools (set_installed (DepotId 481) (ManifestId 3) depot_config_default)"
  by (simp add: record_saved_def sample_tools_def valid_str_def as_bytes_def byte_of_char_def utf8_valid_ascii_Cons)

lemma default_not_installed: "get_installed depot_config_default d = None"
  by (simp add: get_installed_def depot_config_default_def)

lemma install_manifest_succeeds:
  assumes "file_filter_of L args fs = Inr flt" "\<not> up_to_date L base_dir args d m fs"
    and "fst (download C (tl_codecs L) (tl_is_match L)
      (job_of L E cdn server token max_downloads args d key (install_dir_of custom base_dir d build_id) flt
         (previous_manifest_of L (cache_default_for base_dir) d m (get_installed (recorded L base_dir fs) d) fs))
      (pe_task_order E) (pe_chunk_order E) manifest fs) = Inr ()"
  shows "fst (install_manifest L E C cdn server token max_downloads args base_dir custom build_id d key m manifest fs) = Inr ()"
proof -
  let ?run = "install_manifest L E C cdn server token max_downloads args base_dir custom build_id d key m manifest fs"
  have "?run = (fst ?run, snd ?run)" by simp
  then show ?thesis
  proof (cases rule: install_manifest_cases)
    case (run flt' job q ev fs1)
    with assms(1,3) have "q = Inr ()" by simp
    with run show ?thesis by simp
  qed (use assms(1) in simp_all)
qed

abbreviation (input) sample_depot_run :: "depot_env \<Rightarrow> download_args \<Rightarrow> file_system \<Rightarrow> (cli_error + unit) \<times> file_system" where
  "sample_depot_run E args fs \<equiv>
     install_depot sample_tools E plain_crypto sample_cdn sample_cdn_server 0 None 8 args ''d'' False None
       (DepotId 481) sample_key (ManifestId 3) fs"

lemma sample_obtain:
  "fst (obtain_manifest sample_tools (sample_cdn\<lparr>cdn_http := pe_http sample_depot_env\<rparr>) sample_cdn_server
     (cache_default_for ''d'') (DepotId 481) (ManifestId 3) 0 None no_files) = Inr empty_manifest"
  by (simp add: obtain_manifest_def cache_load_def no_files_def sample_cdn_def sample_depot_env_def sample_tools_def
      download_manifest_def cdn_get_def extract_empty_manifest)

lemma sample_ok:
  assumes "recorded sample_tools ''d'' fs = depot_config_default" "list_all safe_name (names_of manifest)"
  shows "install_ok sample_tools sample_depot_env ''d'' (DepotId 481) (ManifestId 3) manifest fs"
  using assms by (simp add: install_ok_def default_not_installed previous_manifest_of_def sample_depot_env_def complete_upt)

text \<open>Obtained for the first time, the manifest without files is ready and is installed.\<close>

lemma sample_ready:
  "install_ready sample_tools sample_depot_env plain_crypto sample_cdn sample_cdn_server 0 None ''d'' (DepotId 481)
     sample_key (ManifestId 3) no_files"
  "fst (sample_depot_run sample_depot_env sample_args no_files) = Inr ()"
proof -
  obtain fs0 where obtained:
    "obtain_manifest sample_tools (sample_cdn\<lparr>cdn_http := pe_http sample_depot_env\<rparr>) sample_cdn_server
       (cache_default_for ''d'') (DepotId 481) (ManifestId 3) 0 None no_files = (Inr empty_manifest, fs0)"
    using sample_obtain by (metis prod.collapse)
  have rec: "recorded sample_tools ''d'' fs0 = depot_config_default"
    using obtain_manifest_cached(2) [OF obtained] by (simp add: sample_recorded)
  have plain: "decrypt_manifest sample_tools plain_crypto sample_key empty_manifest = Inr empty_manifest"
    by (simp add: decrypt_manifest_def empty_manifest_def)
  have "install_ok sample_tools sample_depot_env ''d'' (DepotId 481) (ManifestId 3) empty_manifest fs0"
    by (rule sample_ok [OF rec]) (simp add: names_of_def empty_manifest_def map_filter_simps)
  then show "install_ready sample_tools sample_depot_env plain_crypto sample_cdn sample_cdn_server 0 None ''d''
      (DepotId 481) sample_key (ManifestId 3) no_files"
    by (simp add: install_ready_def obtained plain rec sample_record)
  have "fst (sample_install sample_depot_env empty_manifest fs0) = Inr ()"
    by (rule install_manifest_succeeds [OF sample_filter _ download_succeeds])
      (simp_all add: up_to_date_def rec default_not_installed sample_depot_env_def complete_upt empty_manifest_def)
  then show "fst (sample_depot_run sample_depot_env sample_args no_files) = Inr ()"
    by (simp add: install_depot_def obtained plain)
qed

section \<open>Properties\<close>



text \<open>
  A manifest is recorded as installed exactly when its install succeeds: the record on the
  disk then names it for this depot, and it is otherwise the record as it was.
\<close>

theorem install_depot_records:
  assumes "install_depot L E C cdn server code token max_downloads args base_dir custom build_id d key m fs = (r, fs')"
    and "install_ready L E C cdn server code token base_dir d key m fs"
  shows "get_installed (recorded L base_dir fs') d' =
    (if r = Inr () \<and> d' = d then Some m else get_installed (recorded L base_dir fs) d')"
  using assms(1)
proof (cases rule: install_depot_cases)
  case (no_manifest e)
  with obtain_manifest_error [OF no_manifest(2)] show ?thesis by simp
next
  case (no_names e raw)
  with obtain_manifest_cached(2) [OF no_names(3)] show ?thesis by simp
next
  case (install raw manifest fs0)
  with assms(2) have ok: "install_ok L E base_dir d m manifest fs0" "record_saved L (set_installed d m (recorded L base_dir fs0))"
    by (simp_all add: install_ready_def)
  from install_manifest_own(1) [OF install(3) ok] obtain_manifest_cached(2) [OF install(1)]
  show ?thesis by (simp add: get_set_installed)
qed

theorem install_depot_records_witness:
  "get_installed (recorded sample_tools ''d'' (snd (sample_depot_run sample_depot_env sample_args no_files))) (DepotId 481)
     = Some (ManifestId 3)"
proof -
  let ?run = "sample_depot_run sample_depot_env sample_args no_files"
  have "?run = (Inr (), snd ?run)" using sample_ready(2) by (metis prod.collapse)
  from install_depot_records [OF this sample_ready(1), of "DepotId 481"] show ?thesis by simp
qed



text \<open>
  C15: The manifest that a later install of the depot takes as the previous one is the manifest as
  it was obtained, before its file names were decrypted: where the names are encrypted, the
  later install compares plain names with encrypted ones.
\<close>

theorem previous_manifest_as_obtained:
  assumes "install_depot L E C cdn server code token max_downloads args base_dir custom build_id d key m fs = (Inr (), fs')"
    and "install_ready L E C cdn server code token base_dir d key m fs"
    and "obtain_manifest L (cdn\<lparr>cdn_http := pe_http E\<rparr>) server (cache_default_for base_dir) d m code token fs = (Inr raw, fs0)"
    and "m' \<noteq> m"
  shows "previous_manifest_of L (cache_default_for base_dir) d m' (get_installed (recorded L base_dir fs') d) fs' = Some raw"
  using assms(1)
proof (cases rule: install_depot_cases)
  case (install raw' manifest fs1)
  with assms(3) have eq: "raw' = raw" "fs1 = fs0" by simp_all
  with install assms(2,3) have ok: "install_ok L E base_dir d m manifest fs0"
      "record_saved L (set_installed d m (recorded L base_dir fs0))"
    by (simp_all add: install_ready_def)
  note run = install(3) [unfolded eq]
  have "cache_load (tl_sha1 L) (tl_manifest_codec L) fs' (cache_default_for base_dir) d m = Some raw"
    using install_manifest_cache [OF run ok] obtain_manifest_cached(1) [OF assms(3)] by simp
  moreover have "get_installed (recorded L base_dir fs') d = Some m"
    using install_manifest_own(1) [OF run ok] by (simp add: get_set_installed)
  ultimately show ?thesis using assms(4) by (simp add: previous_manifest_of_def)
qed simp_all

theorem previous_manifest_as_obtained_witness:
  "let fs = snd (sample_depot_run sample_depot_env sample_args no_files)
   in previous_manifest_of sample_tools (cache_default_for ''d'') (DepotId 481) (ManifestId 4)
          (get_installed (recorded sample_tools ''d'' fs) (DepotId 481)) fs = Some empty_manifest"
proof -
  let ?run = "sample_depot_run sample_depot_env sample_args no_files"
  have run: "?run = (Inr (), snd ?run)" using sample_ready(2) by (metis prod.collapse)
  obtain fs0 where obtained:
    "obtain_manifest sample_tools (sample_cdn\<lparr>cdn_http := pe_http sample_depot_env\<rparr>) sample_cdn_server
       (cache_default_for ''d'') (DepotId 481) (ManifestId 3) 0 None no_files = (Inr empty_manifest, fs0)"
    using sample_obtain by (metis prod.collapse)
  from previous_manifest_as_obtained [OF run sample_ready(1) obtained, of "ManifestId 4"]
  show ?thesis by (simp add: Let_def)
qed

end
