(* ===== verification/Commands_Spec.thy ===== *)
theory Commands_Spec
  imports Depot_Run_Spec
begin

text \<open>
  What the commands promise: which of them leave the disk alone, and that the program ends
  with an exit code on every network.
\<close>

section \<open>Commands that only read\<close>

text \<open>A run over a client and the disk that leaves the disk as it was.\<close>

definition keeps_disk :: "'d \<Rightarrow> ('r \<times> 's \<times> 'd) option \<Rightarrow> bool" where
  "keeps_disk fs m \<longleftrightarrow> (\<forall>r s fs'. m = Some (r, s, fs') \<longrightarrow> fs' = fs)"

lemma keeps_disk_simps [simp]:
  "keeps_disk fs None" "keeps_disk fs (Some (r, s, fs'))  \<longleftrightarrow> fs' = fs" "keeps_disk fs (give r sf) \<longleftrightarrow> snd sf = fs"
  "keeps_disk fs (beside fs m)"
  by (cases sf; auto simp: keeps_disk_def give_def beside_def)+

lemma keeps_disk_then:
  fixes m :: "('e, 'a, 's \<times> 'd) run"
  assumes "keeps_disk fs m" "\<And>x s. keeps_disk fs (f x (s, fs))"
  shows "keeps_disk fs (then_do m f)"
proof (cases m)
  case (Some p)
  obtain r s d where p: "p = (r, s, d)" by (cases p)
  with assms(1) Some have "d = fs" by simp
  with assms(2) Some p show ?thesis by (cases r) simp_all
qed simp

lemma keeps_disk_if: "(b \<Longrightarrow> keeps_disk fs m) \<Longrightarrow> (\<not> b \<Longrightarrow> keeps_disk fs n) \<Longrightarrow> keeps_disk fs (if b then m else n)"
  by simp

lemma keeps_disk_option:
  "keeps_disk fs m \<Longrightarrow> (\<And>x. keeps_disk fs (n x)) \<Longrightarrow> keeps_disk fs (case z of None \<Rightarrow> m | Some x \<Rightarrow> n x)"
  by (simp split: option.split)

lemmas keeps_disk_intros = keeps_disk_then keeps_disk_if keeps_disk_option

lemma info_app_keeps: "keeps_disk fs (info_app F to_json T C X P random args (s, fs))"
  unfolding info_app_def Let_def snd_conv by (intro keeps_disk_intros) simp_all

lemma manifests_app_keeps: "keeps_disk fs (manifests_app to_json T C X P random args (s, fs))"
  unfolding manifests_app_def Let_def snd_conv by (intro keeps_disk_intros) simp_all

lemma names_keep:
  "keeps_disk fs (Option.bind m (\<lambda>(r, s).
     case r of Inl e \<Rightarrow> Some (Inr manifest, s, snd (s0, fs))
     | Inr key \<Rightarrow>
         (case decrypt_filenames C (tl_base64_decode L) key manifest of
            (Inl e, _) \<Rightarrow> Some (Inl (CliManifest e), s, snd (s0, fs))
          | (Inr _, manifest) \<Rightarrow> Some (Inr manifest, s, snd (s0, fs)))))"
proof (cases m)
  case (Some p)
  show ?thesis
  proof (cases "fst p")
    case (Inr key)
    obtain r names where "decrypt_filenames C (tl_base64_decode L) key manifest = (r, names)" by fastforce
    with Some Inr show ?thesis by (cases p; cases r) simp_all
  qed (use Some in \<open>cases p; simp\<close>)
qed simp

lemma files_app_keeps: "keeps_disk fs (files_app N F to_json L T C X P random opts args (s, fs))"
  unfolding files_app_def Let_def snd_conv
  by (intro keeps_disk_intros; (rule names_keep)?) simp_all

text \<open>The two commands that download are the others.\<close>

definition only_reads :: "action \<Rightarrow> bool" where
  "only_reads a \<longleftrightarrow> (case a of ActDownload _ \<Rightarrow> False | ActWorkshop _ \<Rightarrow> False | _ \<Rightarrow> True)"

lemma app_command_keeps:
  assumes "only_reads (op_action opts)"
  shows "keeps_disk fs (app_command U T C X P opts (s, fs))"
  using assms info_app_keeps manifests_app_keeps files_app_keeps
  by (auto simp: app_command_def only_reads_def Let_def split: action.splits prod.split)

section \<open>Requests return\<close>

context sending_transport
begin

lemma live_request:
  assumes "live s"
  shows "always live (request T C X random emsg encoded answer_emsg answer s)"
proof -
  from assms obtain c where "no_jobs s" "cl_cipher s = Some c" by (auto simp: live_def)
  from request_spec [OF this, of C X random emsg encoded answer_emsg answer] obtain r s' where
    "request T C X random emsg encoded answer_emsg answer s = Some (r, s')" "received s s'"
    by blast
  with assms live_received show ?thesis by (auto simp: always_def)
qed

lemma live_product_info:
  assumes "live s"
  shows "always live (pics_get_product_info T C X P random apps s)"
proof -
  from assms obtain c where s: "no_jobs s" "cl_cipher s = Some c" by (auto simp: live_def)
  let ?msg = "client_msg_with_body EMSG_CLIENT_PICS_PRODUCT_INFO_REQUEST
    (p_enc_product_info P (map (\<lambda>t. (app_id_0 (at_app_id t), at_token t)) apps))"
  from logged_in_send_ok [OF s(2), of C X random ?msg] obtain t' where
    sent: "logged_in_send_msg T C X random ?msg s = Some (Inr (), s\<lparr>cl_transport := t'\<rparr>)" by blast
  have live: "live (s\<lparr>cl_transport := t'\<rparr>)" using assms by (simp add: live_def no_jobs_def)
  then have "no_jobs (s\<lparr>cl_transport := t'\<rparr>)" by (simp add: live_def)
  from product_info_loop_spec [OF this, of C X P "[]"] obtain r s' where
    "product_info_loop T C X P [] (s\<lparr>cl_transport := t'\<rparr>) = Some (r, s')" "received (s\<lparr>cl_transport := t'\<rparr>) s'"
    by blast
  with live_received live sent show ?thesis by (auto simp: pics_get_product_info_def always_def)
qed

lemma live_app_info:
  assumes "live s"
  shows "always live (get_app_info T C X P random1 random2 app_ids s)"
proof -
  have "always live (pics_get_access_tokens T C X P random1 app_ids s)"
    unfolding pics_get_access_tokens_def by (rule live_request [OF assms])
  then show ?thesis
    by (rule alwaysE) (auto simp: get_app_info_def live_product_info always_def split: sum.split
        dest: live_product_info)
qed

lemma live_calls:
  assumes "live s"
  shows "always live (call_service_method T C X random name body s)"
    "always live (get_cdn_servers T C X P random cell_id n s)"
    "always live (get_manifest_request_code T C X P random app_id depot_id manifest_id branch hash s)"
    "always live (get_cdn_auth_token T C X P random app_id depot_id host s)"
    "always live (get_depot_decryption_key T C X P random depot_id app_id s)"
    "always live (check_beta_password T C X P random app_id password s)"
proof -
  show call: "always live (call_service_method T C X random name body s)" for random name body
    using live_service_call [OF assms] by (simp add: call_service_method_def)
  show "always live (get_cdn_servers T C X P random cell_id n s)"
    "always live (get_manifest_request_code T C X P random app_id depot_id manifest_id branch hash s)"
    "always live (get_cdn_auth_token T C X P random app_id depot_id host s)"
    by (simp_all add: get_cdn_servers_def get_manifest_request_code_def get_cdn_auth_token_def always_call_decode call)
  show "always live (get_depot_decryption_key T C X P random depot_id app_id s)"
    "always live (check_beta_password T C X P random app_id password s)"
    using live_request [OF assms] by (simp_all add: get_depot_decryption_key_def check_beta_password_def)
qed

lemma live_resolve:
  assumes "live s"
  shows "always live (resolve_manifest_id T C X P random app_infos app_id depot_id branch beta_password s)"
proof (cases beta_password)
  case (Some password)
  from live_calls(6) [OF assms, of C X P random app_id password] show ?thesis
    by (rule alwaysE) (auto simp: resolve_manifest_id_def Some always_def assms split: option.split)
qed (auto simp: resolve_manifest_id_def always_def assms split: option.split)

end

text \<open>A run on a live client and the disk, and how it is put together.\<close>

definition stays_live :: "('e, 'a, 't client \<times> 'd) run \<Rightarrow> bool" where
  "stays_live m = returns (\<lambda>sf. live (fst sf)) m"

lemma stays_live_simps [simp]:
  "stays_live (Some (Inl e, sf))" "stays_live (Some (Inr x, sf)) \<longleftrightarrow> live (fst sf)"
  "live (fst sf) \<Longrightarrow> stays_live (give r sf)" "live s \<Longrightarrow> stays_live (Some (r, s, d))"
  by (cases r; simp add: stays_live_def returns_give)+

lemma stays_live_then:
  "stays_live m \<Longrightarrow> (\<And>x s d. live s \<Longrightarrow> stays_live (f x (s, d))) \<Longrightarrow> stays_live (then_do m f)"
  unfolding stays_live_def by (erule returns_then) auto

lemma stays_live_beside: "always live m \<Longrightarrow> stays_live (beside d (with_err g m))" "always live m \<Longrightarrow> stays_live (beside d m)"
  by (auto simp: stays_live_def returns_def always_def beside_def with_err_def split: option.splits sum.splits)

lemma stays_live_if: "(b \<Longrightarrow> stays_live m) \<Longrightarrow> (\<not> b \<Longrightarrow> stays_live n) \<Longrightarrow> stays_live (if b then m else n)"
  by simp

lemma stays_live_option:
  "stays_live m \<Longrightarrow> (\<And>x. stays_live (n x)) \<Longrightarrow> stays_live (case z of None \<Rightarrow> m | Some x \<Rightarrow> n x)"
  by (simp split: option.split)

lemmas stays_live_intros = stays_live_then stays_live_if stays_live_option

lemma for_depots_live:
  "(\<And>i d s e. live s \<Longrightarrow> stays_live (step i d (s, e))) \<Longrightarrow> live s \<Longrightarrow> stays_live (for_depots step i ds (s, e))"
  by (induction ds arbitrary: i s e) (auto intro: stays_live_then)

section \<open>Commands return\<close>

context sending_transport
begin

lemma info_app_live: "live s \<Longrightarrow> stays_live (info_app F to_json T C X P random args (s, fs))"
  unfolding info_app_def Let_def fst_conv
  by (intro stays_live_intros stays_live_beside live_app_info) simp_all

lemma manifests_app_live: "live s \<Longrightarrow> stays_live (manifests_app to_json T C X P random args (s, fs))"
  unfolding manifests_app_def Let_def fst_conv
  by (intro stays_live_intros stays_live_beside live_app_info) simp_all

lemma names_live:
  assumes "always live m"
  shows "stays_live (Option.bind m (\<lambda>(r, s).
     case r of Inl e \<Rightarrow> Some (Inr manifest, s, fs)
     | Inr key \<Rightarrow>
         (case decrypt_filenames C (tl_base64_decode L) key manifest of
            (Inl e, _) \<Rightarrow> Some (Inl (CliManifest e), s, fs)
          | (Inr _, manifest) \<Rightarrow> Some (Inr manifest, s, fs))))"
proof -
  from assms obtain r s where m: "m = Some (r, s)" and live: "live s" by (rule alwaysE)
  show ?thesis
  proof (cases r)
    case (Inr key)
    obtain q names where "decrypt_filenames C (tl_base64_decode L) key manifest = (q, names)" by fastforce
    with m live Inr show ?thesis by (cases q) simp_all
  qed (use m live in simp)
qed

lemma files_app_live: "live s \<Longrightarrow> stays_live (files_app N F to_json L T C X P random opts args (s, fs))"
  unfolding files_app_def Let_def fst_conv
  by (intro stays_live_intros stays_live_beside live_app_info live_calls names_live) simp_all

lemma process_depot_live:
  "live s \<Longrightarrow> stays_live (process_depot L E T C X P app_infos cdn server max_downloads args base_dir custom build_id
     explicit_manifests depot_id (s, fs))"
  unfolding process_depot_def Let_def fst_conv
  by (intro stays_live_intros stays_live_beside live_calls live_resolve always_map) (simp_all split: prod.split)

lemma download_app_live: "live s \<Longrightarrow> stays_live (download_app N L E T C X P random opts args (s, fs))"
  unfolding download_app_def Let_def fst_conv split_beta
  by (intro stays_live_intros stays_live_beside live_app_info live_calls for_depots_live process_depot_live) simp_all

lemma workshop_depot_live:
  "live s \<Longrightarrow> stays_live (workshop_depot N L E T C X P random opts output app_id hcontent (s, fs))"
  unfolding workshop_depot_def Let_def fst_conv
  by (intro stays_live_intros stays_live_beside live_calls) (simp_all split: sum.split prod.split)

lemma workshop_app_live: "live s \<Longrightarrow> stays_live (workshop_app N W L E T C X P random opts args pubfile_id (s, fs))"
  unfolding workshop_app_def Let_def fst_conv
  by (intro stays_live_intros stays_live_beside live_calls workshop_depot_live) (simp_all split: prod.split)

lemma app_command_live:
  assumes "live s"
  shows "stays_live (app_command U T C X P opts (s, fs))"
proof -
  obtain r1 r2 r3 where "se_app_random U = (r1, r2, r3)" by (cases "se_app_random U")
  then show ?thesis
    by (cases "op_action opts")
       (auto simp: app_command_def assms info_app_live manifests_app_live files_app_live
         intro!: stays_live_then download_app_live workshop_app_live)
qed

end

section \<open>The program returns\<close>

lemma run_action_returns:
  assumes "intervals_ok P"
  shows "run_action U (dyn_ops base64) (drop_transport to_json) C X P
     (connect_and_login N parse_json addr_debug base64 to_json C X P G opts) opts fs \<noteq> None"
proof -
  have command: "app_command U (dyn_ops base64) C X P opts (client, fs) \<noteq> None" if "live client" for client fs
    using dyn.app_command_live [OF that, of U base64 C X P opts fs] by (auto simp: stays_live_def dest: returns_Some)
  have "then_do (connect_and_login N parse_json addr_debug base64 to_json C X P G opts fs) (\<lambda>client fs.
     map_option (\<lambda>(r, s, fs). (r, drop_transport to_json (cl_transport s) fs)) (app_command U (dyn_ops base64) C X P opts (client, fs)))
     \<noteq> None" for fs
    using connect_and_login_live [OF assms, of N parse_json addr_debug base64 to_json C X G opts fs] command
    by (cases rule: hands_outE) simp_all
  then show ?thesis
    by (cases "op_action opts"; cases "pubfile_of (case op_action opts of ActWorkshop args \<Rightarrow> args)")
       (simp_all add: run_action_def give_def del: then_do_give)
qed

section \<open>A program to run\<close>

definition sample_program :: "(unit, bytes, bytes) program_env" where
  "sample_program =
     \<lparr>se_network = sample_network [], se_formats = \<lparr>ft_time = (\<lambda>_. None), ft_ratio = (\<lambda>_ _. [])\<rparr>,
      se_overview_json = (\<lambda>_. None), se_entries_json = (\<lambda>_. None), se_manifest_json = (\<lambda>_. None),
      se_tools = sample_tools, se_depots = (\<lambda>_. sample_depot_env),
      se_workshop = \<lparr>w_enc_details = (\<lambda>_. []), w_dec_details = (\<lambda>_. None), w_http = (\<lambda>_. Inl None)\<rparr>,
      se_app_random = ([], [], []), se_files_random = (\<lambda>_. []), se_workshop_random = (\<lambda>_. [])\<rparr>"

text \<open>Asking for the metadata of an app.\<close>

definition info_options :: options where
  "info_options = sample_options\<lparr>op_action := ActInfo \<lparr>ia_app = 480, ia_format = Table\<rparr>\<rparr>"

section \<open>Properties\<close>





end
