(* ===== verification/Run_Spec.thy ===== *)
theory Run_Spec
  imports Commands_Spec
begin

text \<open>
  The download command as a whole: over the depots in their order, the record of installed
  manifests advances by exactly the depots whose install has succeeded.
\<close>

section \<open>One depot\<close>

lemma then_do_cases:
  assumes "then_do m f = Some (r, s')"
  obtains (err) e where "m = Some (Inl e, s')" "r = Inl e"
  | (ok) x s where "m = Some (Inr x, s)" "f x s = Some (r, s')"
proof (cases m)
  case (Some p)
  with assms err ok show ?thesis by (cases p; cases "fst p") auto
qed (use assms in simp)

lemma beside_Some: "beside c m = Some (r, s, d) \<longleftrightarrow> m = Some (r, s) \<and> d = c"
  by (auto simp: beside_def)

lemma with_err_Some: "with_err g m = Some (r, s) \<longleftrightarrow> (\<exists>r'. m = Some (r', s) \<and> r = map_err g r')"
  by (auto simp: with_err_def)

text \<open>The manifest that is wanted for a depot.\<close>

definition target_of :: "download_args \<Rightarrow> app_info list \<Rightarrow> (depot_id \<Rightarrow> manifest_id option) \<Rightarrow> depot_id \<Rightarrow> manifest_id option" where
  "target_of args app_infos explicit d =
     (case explicit d of Some m \<Rightarrow> Some m | None \<Rightarrow> result_ok (resolved app_infos d (da_branch args)))"

text \<open>A depot fails before it touches the disk, or its target is installed.\<close>

lemma process_depot_cases:
  assumes "process_depot L E T C X P app_infos cdn server max_downloads args base_dir custom build_id explicit d (s, fs)
    = Some (r, s', fs')"
  obtains (network) e where "r = Inl e" "fs' = fs"
  | (install) key m code token where "target_of args app_infos explicit d = Some m"
      "install_depot L E C cdn server code token max_downloads args base_dir custom build_id d key m fs = (r, fs')"
  using assms unfolding process_depot_def Let_def fst_conv snd_conv
proof (cases rule: then_do_cases)
  case (err e)
  with network show ?thesis by (simp add: beside_Some)
next
  case (ok key sf1)
  obtain s1 where sf1: "sf1 = (s1, fs)" using ok(1) by (cases sf1) (simp add: beside_Some)
  note step = ok(2) [unfolded sf1 fst_conv snd_conv]
  from step show ?thesis
  proof (cases rule: then_do_cases)
    case (err e)
    with network show ?thesis by (auto simp: beside_Some give_def split: option.splits)
  next
    case (ok m sf2)
    obtain s2 where sf2: "sf2 = (s2, fs)"
      using ok(1) by (cases sf2) (auto simp: beside_Some give_def split: option.splits)
    have m: "target_of args app_infos explicit d = Some m"
    proof (cases "explicit d")
      case None
      with ok(1) sf2 obtain r' where res: "resolve_manifest_id T C X P (pe_random E BetaPasswordCall) app_infos (AppId (da_app args)) d
          (da_branch args) (da_beta_password args) s1 = Some (r', s2)" "Inr m = map_err CliOther r'"
        by (auto simp: beside_Some with_err_Some)
      from res(2) have "r' = Inr m" by (cases r') simp_all
      with resolve_manifest_id_resolved [OF res(1)] have "resolved app_infos d (da_branch args) = Inr m" by simp
      with None show ?thesis by (simp add: target_of_def)
    qed (use ok(1) in \<open>simp add: target_of_def give_def\<close>)
    note step = ok(2) [unfolded sf2 fst_conv snd_conv]
    from step show ?thesis
    proof (cases rule: then_do_cases)
      case (err e)
      with network show ?thesis by (simp add: beside_Some)
    next
      case (ok code sf3)
      obtain s3 where sf3: "sf3 = (s3, fs)" using ok(1) by (cases sf3) (simp add: beside_Some)
      note step = ok(2) [unfolded sf3 fst_conv snd_conv]
      from step show ?thesis
      proof (cases rule: then_do_cases)
        case (err e)
        with network show ?thesis by (simp add: beside_Some)
      next
        case (ok token sf4)
        obtain s4 where sf4: "sf4 = (s4, fs)" using ok(1) by (cases sf4) (simp add: beside_Some)
        from ok(2) have "install_depot L E C cdn server (unwrap_or code 0) token max_downloads args base_dir custom build_id d key m fs
            = (r, fs')"
          by (auto simp: sf4 split: prod.splits)
        with m show ?thesis by (rule install)
      qed
    qed
  qed
qed

section \<open>The disk during a run\<close>

text \<open>
  The names of a manifest are safe, as they are in the manifest and as they are with any key;
  so are those of every manifest in the cache, and of every one that the network sends.
\<close>

definition manifest_safe :: "('r, 'a, 'e) tools \<Rightarrow> crypto \<Rightarrow> depot_manifest \<Rightarrow> bool" where
  "manifest_safe L C raw \<longleftrightarrow> list_all safe_name (names_of raw)
     \<and> (\<forall>key manifest. decrypt_manifest L C key raw = Inr manifest \<longrightarrow> list_all safe_name (names_of manifest))"

definition cached_safe :: "('r, 'a, 'e) tools \<Rightarrow> crypto \<Rightarrow> string \<Rightarrow> file_system \<Rightarrow> bool" where
  "cached_safe L C base_dir fs \<longleftrightarrow>
     (\<forall>d m raw. cache_load (tl_sha1 L) (tl_manifest_codec L) fs (cache_default_for base_dir) d m = Some raw \<longrightarrow> manifest_safe L C raw)"

definition env_safe :: "('r, 'a, 'e) tools \<Rightarrow> crypto \<Rightarrow> depot_env \<Rightarrow> bool" where
  "env_safe L C E \<longleftrightarrow>
     (\<forall>url host data raw. pe_http E url host = Inr data
        \<longrightarrow> extract_and_parse (tl_codecs L) (tl_manifest_codec L) data = Inr raw \<longrightarrow> manifest_safe L C raw)
     \<and> complete_order (pe_task_order E) \<and> (\<forall>i. complete_order (pe_chunk_order E i))"

lemma obtain_manifest_safe:
  assumes "obtain_manifest L (cdn\<lparr>cdn_http := pe_http E\<rparr>) server (cache_default_for base_dir) d m code token fs = (r, fs')"
    and "env_safe L C E" "cached_safe L C base_dir fs"
  shows "cached_safe L C base_dir fs'" and "r = Inr raw \<Longrightarrow> manifest_safe L C raw"
proof -
  let ?cdn = "cdn\<lparr>cdn_http := pe_http E\<rparr>" and ?cache = "cache_default_for base_dir"
  have "cached_safe L C base_dir fs' \<and> (r = Inr raw \<longrightarrow> manifest_safe L C raw)"
  proof (cases "cache_load (tl_sha1 L) (tl_manifest_codec L) fs ?cache d m")
    case (Some cached)
    with assms show ?thesis by (auto simp: obtain_manifest_def cached_safe_def)
  next
    case None
    show ?thesis
    proof (cases "download_manifest ?cdn server d m code token")
      case (Inl e)
      with assms None show ?thesis by (auto simp: obtain_manifest_def)
    next
      case (Inr data)
      with None assms(1) have r: "r = map_err CliManifest (extract_and_parse (tl_codecs L) (tl_manifest_codec L) data)"
        and fs': "fs' = snd (cache_save (tl_sha1 L) (tl_codecs L) ?cache d m data fs)"
        by (simp_all add: obtain_manifest_def)
      from Inr obtain url host where "pe_http E url host = Inr data"
        by (auto simp: download_manifest_def cdn_get_def split: if_splits)
      with assms(2) have safe: "manifest_safe L C raw"
        if "extract_and_parse (tl_codecs L) (tl_manifest_codec L) data = Inr raw" for raw
        using that by (auto simp: env_safe_def)
      have "cached_safe L C base_dir fs'"
      proof (cases "fst (cache_save (tl_sha1 L) (tl_codecs L) ?cache d m data fs)")
        case (Inl e)
        then have "fs' = fs" by (auto simp: fs' cache_save_def split: sum.splits)
        with assms(3) show ?thesis by simp
      next
        case (Inr u)
        then have "cache_save (tl_sha1 L) (tl_codecs L) ?cache d m data fs = (Inr (), fs')"
          by (simp add: fs' prod_eq_iff)
        from cache_load_saved [OF this] safe assms(3) show ?thesis
          by (auto simp: cached_safe_def result_ok_def split: if_splits sum.splits)
      qed
      with safe r show ?thesis by (auto simp: map_err_eq_Inr)
    qed
  qed
  then show "cached_safe L C base_dir fs'" "r = Inr raw \<Longrightarrow> manifest_safe L C raw" by blast+
qed

lemma manifest_install_ok:
  assumes "manifest_safe L C raw" "decrypt_manifest L C key raw = Inr manifest" "env_safe L C E" "cached_safe L C base_dir fs"
  shows "install_ok L E base_dir d m manifest fs"
proof -
  have "list_all safe_name (names_of old)"
    if "previous_manifest_of L (cache_default_for base_dir) d m (get_installed (recorded L base_dir fs) d) fs = Some old" for old
    using that assms(4) by (auto simp: previous_manifest_of_def cached_safe_def manifest_safe_def bind_eq_Some_conv split: if_splits)
  with assms(1-3) show ?thesis
    by (auto simp: install_ok_def manifest_safe_def env_safe_def split: option.split)
qed

text \<open>A depot of a run: the cache stays safe, and the record names its manifest if it succeeds.\<close>

lemma install_depot_run:
  assumes run: "install_depot L E C cdn server code token max_downloads args base_dir custom build_id d key m fs = (r, fs')"
    and env: "env_safe L C E" and cached: "cached_safe L C base_dir fs"
    and json: "record_saved L (set_installed d m (recorded L base_dir fs))"
  shows "cached_safe L C base_dir fs'"
    and "recorded L base_dir fs' = (if r = Inr () then set_installed d m (recorded L base_dir fs) else recorded L base_dir fs)"
proof -
  have "cached_safe L C base_dir fs'
      \<and> recorded L base_dir fs' = (if r = Inr () then set_installed d m (recorded L base_dir fs) else recorded L base_dir fs)"
    using run
  proof (cases rule: install_depot_cases)
    case (no_manifest e)
    with obtain_manifest_safe(1) [OF no_manifest(2) env cached] obtain_manifest_error [OF no_manifest(2)]
    show ?thesis by simp
  next
    case (no_names e raw)
    with obtain_manifest_safe(1) [OF no_names(3) env cached] obtain_manifest_cached(2) [OF no_names(3)]
    show ?thesis by simp
  next
    case (install raw manifest fs0)
    note safe = obtain_manifest_safe [OF install(1) env cached]
    have rec: "recorded L base_dir fs0 = recorded L base_dir fs" by (rule obtain_manifest_cached(2) [OF install(1)])
    have ok: "install_ok L E base_dir d m manifest fs0" "record_saved L (set_installed d m (recorded L base_dir fs0))"
      using manifest_install_ok [OF safe(2) [OF refl] install(2) env safe(1)] json rec by simp_all
    from install_manifest_own(1) [OF install(3) ok] install_manifest_cache [OF install(3) ok] safe(1) rec
    show ?thesis by (simp add: cached_safe_def)
  qed
  then show "cached_safe L C base_dir fs'"
    "recorded L base_dir fs' = (if r = Inr () then set_installed d m (recorded L base_dir fs) else recorded L base_dir fs)"
    by simp_all
qed

section \<open>All depots\<close>

text \<open>Each record of a run can be read back when it is saved.\<close>

fun records_ok :: "('r, 'a, 'e) tools \<Rightarrow> (depot_id \<Rightarrow> manifest_id option) \<Rightarrow> depot_id list \<Rightarrow> depot_config \<Rightarrow> bool" where
  "records_ok L target [] config \<longleftrightarrow> True"
| "records_ok L target (d # ds) config \<longleftrightarrow>
     (case target d of
        None \<Rightarrow> True
      | Some m \<Rightarrow> record_saved L (set_installed d m config) \<and> records_ok L target ds (set_installed d m config))"

lemma for_depots_records:
  fixes L :: "('r, 'a, 'e) tools" and T :: "'t transport_ops" and args :: download_args and infos :: "app_info list" and explicit
  defines "target \<equiv> target_of args infos explicit"
  assumes "for_depots (\<lambda>i. process_depot L (E i) T C X P infos cdn server max_downloads args base_dir custom build_id explicit)
      i ds (s, fs) = Some (r, s', fs')"
    and "\<And>i. env_safe L C (E i)" "cached_safe L C base_dir fs" "records_ok L target ds (recorded L base_dir fs)"
  shows "\<exists>handled. prefix handled ds \<and> (r = Inr () \<longleftrightarrow> handled = ds)
    \<and> (\<forall>d \<in> set handled. target d \<noteq> None)
    \<and> (\<forall>d. get_installed (recorded L base_dir fs') d =
         (if d \<in> set handled then target d else get_installed (recorded L base_dir fs) d))"
  using assms(2-)
proof (induction ds arbitrary: i s fs)
  case Nil
  then show ?case by simp
next
  case (Cons d ds)
  let ?step = "\<lambda>i. process_depot L (E i) T C X P infos cdn server max_downloads args base_dir custom build_id explicit"
  from Cons.prems(1) have "then_do (?step i d (s, fs)) (\<lambda>_ s. for_depots ?step (i + 1) ds s) = Some (r, s', fs')" by simp
  then show ?case
  proof (cases rule: then_do_cases)
    case (err e)
    note fail = err
    from err(1) have "recorded L base_dir fs' = recorded L base_dir fs"
    proof (cases rule: process_depot_cases)
      case (install key m code token)
      with Cons.prems(4) have "record_saved L (set_installed d m (recorded L base_dir fs))" by (simp add: target_def)
      from install_depot_run(2) [OF install(2) Cons.prems(2,3) this] show ?thesis by simp
    qed simp
    with err(2) show ?thesis by (intro exI [of _ "[]"]) simp
  next
    case (ok u sf1)
    obtain s1 fs1 where sf1: "sf1 = (s1, fs1)" by (cases sf1)
    from ok(1) [unfolded sf1] show ?thesis
    proof (cases rule: process_depot_cases)
      case (install key m code token)
      have t: "target d = Some m" using install(1) by (simp add: target_def)
      with Cons.prems(4) have json: "record_saved L (set_installed d m (recorded L base_dir fs))"
        and rest: "records_ok L target ds (set_installed d m (recorded L base_dir fs))" by simp_all
      note one = install_depot_run [OF install(2) Cons.prems(2,3) json]
      have rec: "recorded L base_dir fs1 = set_installed d m (recorded L base_dir fs)" using one(2) by simp
      from Cons.IH [OF ok(2) [unfolded sf1] Cons.prems(2) one(1)] rest rec obtain handled where handled:
        "prefix handled ds" "r = Inr () \<longleftrightarrow> handled = ds" "\<forall>d \<in> set handled. target d \<noteq> None"
        "\<forall>d'. get_installed (recorded L base_dir fs') d' =
          (if d' \<in> set handled then target d' else get_installed (set_installed d m (recorded L base_dir fs)) d')"
        by auto
      with t show ?thesis by (intro exI [of _ "d # handled"]) (auto simp: get_set_installed)
    qed simp
  qed
qed

section \<open>A run of the command\<close>

text \<open>
  Access tokens, the metadata of an app, the servers, and then for depot 481 its key, a request
  code and no CDN token.
\<close>

definition run_codec :: service_codec where
  "run_codec = sample_service_codec
     \<lparr>p_dec_access_tokens := (\<lambda>_. Some []),
      p_dec_servers := (\<lambda>_. Some [\<lparr>si_host = Some ''cdn'', si_https_support = None, si_vhost = None\<rparr>]),
      p_dec_request_code := (\<lambda>_. Some None)\<rparr>"

definition run_client :: "tcp_stream client" where
  "run_client = sample_client
     (sample_packet EMSG_CLIENT_PICS_ACCESS_TOKEN_RESPONSE [] @ sample_packet EMSG_CLIENT_PICS_PRODUCT_INFO_RESPONSE [4, 4]
      @ sample_answer 1 [] @ sample_packet EMSG_CLIENT_GET_DEPOT_DECRYPTION_KEY_RESPONSE (replicate 32 5)
      @ sample_answer 2 [] @ sample_answer 3 [])"

abbreviation (input) sample_run :: "(cli_error, unit, tcp_stream client \<times> file_system) run" where
  "sample_run \<equiv>
     download_app (sample_network []) sample_tools (\<lambda>_. sample_depot_env) tcp_ops plain_crypto sample_client_codec run_codec
       ([], [], []) sample_options sample_args (run_client, no_files)"

lemmas [code] = await_emsg.simps product_info_loop.simps

lemma run_infos:
  "map_option fst (get_app_info tcp_ops plain_crypto sample_client_codec run_codec [] [] [AppId (da_app sample_args)] run_client)
     = Some (Inr (app_infos_of [(Some 2, None, Some [4, 4])]))"
  by code_simp

lemma run_succeeds: "map_option fst sample_run = Some (Inr ())"
  by code_simp

lemma run_safe: "env_safe sample_tools plain_crypto sample_depot_env" "cached_safe sample_tools plain_crypto base_dir no_files"
  by (auto simp: env_safe_def cached_safe_def cache_load_def no_files_def sample_depot_env_def sample_tools_def complete_upt
      extract_empty_manifest manifest_safe_def decrypt_manifest_def empty_manifest_def names_of_def map_filter_simps)

section \<open>Properties\<close>



end
