(* ===== verification/Concurrent.thy ===== *)
theory Concurrent
  imports Login_Spec "HOL-Library.Multiset"
begin

text \<open>
  Service calls at the same time on one client. The methods of \<^verbatim>\<open>SteamClient<LoggedIn>\<close> take
  \<^verbatim>\<open>&self\<close>, so that several calls may wait at once; each is suspended at its awaits, between
  which the others run. A call is a state machine with one phase per suspension point, and a
  run is any list of turns. Over TCP there are fewer runs, since a call that waits for a packet
  holds the lock of the stream and nobody can send.
\<close>

section \<open>Calls and their phases\<close>

text \<open>
  A call has its job id; it is about to send, at the head of the receive loop, waiting for the
  transport, in possession of a packet or of a message, or it has returned.
\<close>

datatype call_phase =
    Sending string bytes
  | AtQueue
  | AtTransport
  | GotPacket bytes
  | GotMessage incoming_msg
  | Ended "bytes steam_result"

type_synonym 't calls = "'t client \<times> (u64 \<times> call_phase) list"

text \<open>The part of a call from one suspension point to the next.\<close>

definition resume ::
  "'t transport_ops \<Rightarrow> crypto \<Rightarrow> client_codec \<Rightarrow> bytes \<Rightarrow> u64 \<Rightarrow> call_phase \<Rightarrow> 't client
    \<Rightarrow> (call_phase \<times> 't client) option" where
  "resume T C X random job_id phase s =
     (case phase of
        Sending method_name body \<Rightarrow>
          map_option (\<lambda>(r, s). (case r of Inl e \<Rightarrow> Ended (Inl e) | Inr _ \<Rightarrow> AtQueue, s))
            (client_send_msg T C X random
               \<lparr>cm_emsg = EMSG_SERVICE_METHOD_CALL_FROM_CLIENT,
                cm_header = default_header\<lparr>ch_steamid := Some (steam_id_raw (cl_steam_id s)),
                  ch_client_sessionid := Some (cl_session_id s),
                  ch_jobid_source := Some job_id, ch_target_job_name := Some method_name\<rparr>,
                cm_body = body\<rparr> s)
      | AtQueue \<Rightarrow>
          (case cl_msg_queue s of
             [] \<Rightarrow> Some (AtTransport, s)
           | msg # queue \<Rightarrow>
               let s = s\<lparr>cl_msg_queue := queue\<rparr>
               in (case route (Some job_id) msg s of
                     Some s' \<Rightarrow> Some (AtQueue, s')
                   | None \<Rightarrow> Some (GotMessage msg, s)))
      | AtTransport \<Rightarrow>
          (case transport_recv T s of
             (Inl e, s) \<Rightarrow> Some (Ended (Inl e), s)
           | (Inr raw, s) \<Rightarrow> Some (GotPacket raw, s))
      | GotPacket raw \<Rightarrow>
          (case and_then (decrypt_payload C (cl_cipher s) raw) (parse_incoming X) of
             Inl e \<Rightarrow> Some (Ended (Inl e), s)
           | Inr incoming \<Rightarrow>
               if im_emsg incoming = EMSG_MULTI then
                 (case unpack_multi (x_decode_multi X) (x_gunzip X) (im_body incoming) of
                    Inl e \<Rightarrow> Some (Ended (Inl e), s)
                  | Inr subs \<Rightarrow> Some (AtQueue, s\<lparr>cl_msg_queue := cl_msg_queue s @ parse_all X subs\<rparr>))
               else
                 (case route (Some job_id) incoming s of
                    Some s' \<Rightarrow> Some (AtQueue, s')
                  | None \<Rightarrow> Some (GotMessage incoming, s)))
      | GotMessage msg \<Rightarrow>
          if is_response job_id msg then Some (Ended (from_incoming msg), s)
          else Some (AtQueue, emit msg s)
      | Ended r \<Rightarrow> Some (Ended r, s))"

text \<open>A turn: somebody calls a method, or a call goes on.\<close>

datatype turn = Call string bytes | Resume nat bytes

fun take_turn :: "'t transport_ops \<Rightarrow> crypto \<Rightarrow> client_codec \<Rightarrow> turn \<Rightarrow> 't calls \<Rightarrow> 't calls option" where
  "take_turn T C X (Call method_name body) (s, cs) =
     Some (s\<lparr>cl_next_job_id := cl_next_job_id s + 1\<rparr>, cs @ [(cl_next_job_id s, Sending method_name body)])"
| "take_turn T C X (Resume i random) (s, cs) =
     (if i < length cs then
        map_option (\<lambda>(phase, s). (s, cs[i := (fst (cs ! i), phase)]))
          (resume T C X random (fst (cs ! i)) (snd (cs ! i)) s)
      else Some (s, cs))"

fun take_turns :: "'t transport_ops \<Rightarrow> crypto \<Rightarrow> client_codec \<Rightarrow> turn list \<Rightarrow> 't calls \<Rightarrow> 't calls option" where
  "take_turns T C X [] c = Some c"
| "take_turns T C X (t # ts) c = Option.bind (take_turn T C X t c) (take_turns T C X ts)"

section \<open>One call alone\<close>

text \<open>A call that is resumed until it returns does what the method does.\<close>

definition goes_on :: "'t transport_ops \<Rightarrow> crypto \<Rightarrow> client_codec \<Rightarrow> u64 \<Rightarrow> call_phase \<times> 't client \<Rightarrow> call_phase \<times> 't client \<Rightarrow> bool" where
  "goes_on T C X job_id c c' \<longleftrightarrow> (\<exists>random. resume T C X random job_id (fst c) (snd c) = Some c')"

lemma goes_onI: "resume T C X random job_id p s = Some c' \<Longrightarrow> goes_on T C X job_id (p, s) c'"
  by (auto simp: goes_on_def)

text \<open>One pass of the receive loop takes the same message and leaves the same state.\<close>

lemma recv_step_goes_on:
  assumes "recv_step T C X (Some job_id) s = (q, s')"
  shows "(goes_on T C X job_id)\<^sup>*\<^sup>* (AtQueue, s)
    (case q of None \<Rightarrow> AtQueue | Some (Inl e) \<Rightarrow> Ended (Inl e) | Some (Inr m) \<Rightarrow> GotMessage m, s')"
proof (cases "cl_msg_queue s")
  case (Cons m queue)
  with assms have "resume T C X [] job_id AtQueue s
      = Some (case q of None \<Rightarrow> AtQueue | Some (Inl e) \<Rightarrow> Ended (Inl e) | Some (Inr m) \<Rightarrow> GotMessage m, s')"
    by (auto simp: resume_def recv_step_def Let_def split: option.splits)
  then show ?thesis by (blast intro: goes_onI)
next
  case Nil
  then have queue: "goes_on T C X job_id (AtQueue, s) (AtTransport, s)"
    by (intro goes_onI [where random = "[]"]) (simp add: resume_def)
  obtain r s1 where recv: "transport_recv T s = (r, s1)" by (cases "transport_recv T s")
  show ?thesis
  proof (cases r)
    case (Inl e)
    then have "goes_on T C X job_id (AtTransport, s) (Ended (Inl e), s1)"
      by (intro goes_onI [where random = "[]"]) (simp add: resume_def recv)
    with queue assms Nil recv Inl show ?thesis
      by (auto simp: recv_step_def intro: converse_rtranclp_into_rtranclp)
  next
    case (Inr raw)
    then have "goes_on T C X job_id (AtTransport, s) (GotPacket raw, s1)"
      by (intro goes_onI [where random = "[]"]) (simp add: resume_def recv)
    moreover have "resume T C X [] job_id (GotPacket raw) s1
        = Some (case q of None \<Rightarrow> AtQueue | Some (Inl e) \<Rightarrow> Ended (Inl e) | Some (Inr m) \<Rightarrow> GotMessage m, s')"
      using assms Nil recv Inr
      by (auto simp: resume_def recv_step_def split: option.splits sum.splits if_splits)
    then have "goes_on T C X job_id (GotPacket raw, s1)
        (case q of None \<Rightarrow> AtQueue | Some (Inl e) \<Rightarrow> Ended (Inl e) | Some (Inr m) \<Rightarrow> GotMessage m, s')"
      by (rule goes_onI)
    ultimately show ?thesis
      using queue by (meson converse_rtranclp_into_rtranclp rtranclp.rtrancl_refl)
  qed
qed

lemma recv_loop_goes_on:
  assumes "recv_loop T C X (Some job_id) s = Some (r, s')"
  shows "(goes_on T C X job_id)\<^sup>*\<^sup>* (AtQueue, s) (case r of Inl e \<Rightarrow> Ended (Inl e) | Inr m \<Rightarrow> GotMessage m, s')"
  using assms
proof (induction T C X "Some job_id" s "(r, s')" arbitrary: r s' rule: recv_loop.raw_induct [rotated, consumes 1])
  case (1 loop T C X s)
  obtain q s1 where pass: "recv_step T C X (Some job_id) s = (q, s1)" by (cases "recv_step T C X (Some job_id) s")
  note first = recv_step_goes_on [OF pass]
  show ?case
  proof (cases q)
    case None
    with 1(2) pass have "loop T C X (Some job_id) s1 = Some (r, s')" by simp
    from 1(1) [OF this] first None show ?thesis by (auto intro: rtranclp_trans)
  next
    case (Some x)
    with 1(2) pass first show ?thesis by simp
  qed
qed

lemma response_loop_goes_on:
  assumes "response_loop T C X job_id s = Some (r, s')"
  shows "(goes_on T C X job_id)\<^sup>*\<^sup>* (AtQueue, s) (Ended r, s')"
  using assms
proof (induction T C X job_id s "(r, s')" arbitrary: r s' rule: response_loop.raw_induct [rotated, consumes 1])
  case (1 loop T C X job_id s)
  from 1(2) obtain q s1 where recv: "recv_loop T C X (Some job_id) s = Some (q, s1)"
    by (auto simp: recv_routed_msg_except_def bind_eq_Some_conv)
  note got = recv_loop_goes_on [OF recv]
  show ?case
  proof (cases q)
    case (Inl e)
    with 1(2) recv got show ?thesis by (simp add: recv_routed_msg_except_def)
  next
    case (Inr m)
    show ?thesis
    proof (cases "is_response job_id m")
      case True
      then have "goes_on T C X job_id (GotMessage m, s1) (Ended (from_incoming m), s1)"
        by (intro goes_onI [where random = "[]"]) (simp add: resume_def)
      with True 1(2) recv got Inr show ?thesis by (simp add: recv_routed_msg_except_def)
    next
      case False
      then have "goes_on T C X job_id (GotMessage m, s1) (AtQueue, emit m s1)"
        by (intro goes_onI [where random = "[]"]) (simp add: resume_def)
      moreover have "(goes_on T C X job_id)\<^sup>*\<^sup>* (AtQueue, emit m s1) (Ended r, s')"
        using False 1(2) recv Inr by (intro 1(1)) (simp add: recv_routed_msg_except_def)
      ultimately show ?thesis using got Inr by simp
    qed
  qed
qed

text \<open>Turns of a single call.\<close>

lemma take_turns_append: "take_turns T C X (ts @ us) c = Option.bind (take_turns T C X ts c) (take_turns T C X us)"
  by (induction ts arbitrary: c) (simp_all split: Option.bind_split)

lemma goes_on_turns:
  assumes "(goes_on T C X job_id)\<^sup>*\<^sup>* c c'"
  shows "\<exists>turns. take_turns T C X turns (snd c, [(job_id, fst c)]) = Some (snd c', [(job_id, fst c')])
    \<and> set turns \<subseteq> range (Resume 0)"
  using assms
proof (induction rule: rtranclp_induct)
  case base
  show ?case by (intro exI [of _ "[]"]) simp
next
  case (step d d')
  then obtain turns random where "take_turns T C X turns (snd c, [(job_id, fst c)]) = Some (snd d, [(job_id, fst d)])"
    "set turns \<subseteq> range (Resume 0)" "resume T C X random job_id (fst d) (snd d) = Some d'"
    by (auto simp: goes_on_def)
  then show ?case
    by (intro exI [of _ "turns @ [Resume 0 random]"]) (cases d', simp add: take_turns_append)
qed

lemma service_call_goes_on:
  assumes "call_service_method T C X random name body s = Some (r, s')"
  shows "(goes_on T C X (cl_next_job_id s))\<^sup>*\<^sup>* (Sending name body, s\<lparr>cl_next_job_id := cl_next_job_id s + 1\<rparr>) (Ended r, s')"
proof -
  let ?s = "s\<lparr>cl_next_job_id := cl_next_job_id s + 1\<rparr>" and ?job = "cl_next_job_id s"
  let ?msg = "\<lparr>cm_emsg = EMSG_SERVICE_METHOD_CALL_FROM_CLIENT,
      cm_header = default_header\<lparr>ch_steamid := Some (steam_id_raw (cl_steam_id s)),
        ch_client_sessionid := Some (cl_session_id s), ch_jobid_source := Some ?job, ch_target_job_name := Some name\<rparr>,
      cm_body = body\<rparr>"
  from assms obtain q s1 where send: "client_send_msg T C X random ?msg ?s = Some (q, s1)"
    and rest: "case q of Inl e \<Rightarrow> r = Inl e \<and> s' = s1 | Inr _ \<Rightarrow> response_loop T C X ?job s1 = Some (r, s')"
    by (cases "client_send_msg T C X random ?msg ?s")
       (auto simp: call_service_method_def service_call_def Let_def split: sum.splits)
  have sent: "goes_on T C X ?job (Sending name body, ?s) (case q of Inl e \<Rightarrow> Ended (Inl e) | Inr _ \<Rightarrow> AtQueue, s1)"
    by (rule goes_onI [where random = random]) (simp add: resume_def send)
  show ?thesis
  proof (cases q)
    case (Inl e)
    with sent rest show ?thesis by auto
  next
    case (Inr u)
    with rest have "(goes_on T C X ?job)\<^sup>*\<^sup>* (AtQueue, s1) (Ended r, s')" by (simp add: response_loop_goes_on)
    with sent Inr show ?thesis by (auto intro: converse_rtranclp_into_rtranclp)
  qed
qed

section \<open>Where the messages are\<close>

text \<open>What a call has in its hands, and all messages (and errors) that nobody has got yet.\<close>

definition held :: "crypto \<Rightarrow> client_codec \<Rightarrow> session_cipher option \<Rightarrow> u64 \<times> call_phase \<Rightarrow> incoming_msg steam_result list" where
  "held C X cipher c =
     (case snd c of
        GotPacket raw \<Rightarrow> packet_events C X cipher raw
      | GotMessage m \<Rightarrow> [Inr m]
      | _ \<Rightarrow> [])"

definition on_the_way ::
  "('t \<Rightarrow> bytes list) \<Rightarrow> crypto \<Rightarrow> client_codec \<Rightarrow> 't calls \<Rightarrow> incoming_msg steam_result multiset" where
  "on_the_way pending C X c =
     mset (inbox pending C X (fst c)) + mset (concat (map (held C X (cl_cipher (fst c))) (snd c)))"

text \<open>The message or error with which a call has returned; without one it may have failed, but not succeeded.\<close>

definition answered :: "u64 \<times> call_phase \<Rightarrow> incoming_msg steam_result option \<Rightarrow> bool" where
  "answered c x \<longleftrightarrow>
     (case x of
        None \<Rightarrow> (\<forall>b. snd c \<noteq> Ended (Inr b))
      | Some (Inl e) \<Rightarrow> snd c = Ended (Inl e)
      | Some (Inr m) \<Rightarrow> is_response (fst c) m \<and> snd c = Ended (from_incoming m))"

lemma answered_running: "answered (j, p) x \<Longrightarrow> (\<And>r. p \<noteq> Ended r) \<Longrightarrow> x = None"
  by (cases x; cases "the x") (auto simp: answered_def)

text \<open>
  A transport that has failed has nothing more to deliver, unless its stream is broken: behind
  a bad frame header there may be anything.
\<close>

locale failing_transport = transport T pending
  for T :: "'t transport_ops" and pending :: "'t \<Rightarrow> bytes list" +
  fixes broken :: "steam_error \<Rightarrow> bool"
  assumes recv_fails: "t_recv T t = (Inl e, t') \<Longrightarrow> broken e \<or> pending t' = []"
begin

lemma send_keeps_inbox:
  assumes "client_send_msg T C X random msg s = Some (r, s')"
  obtains t' where "s' = s\<lparr>cl_transport := t'\<rparr>" "inbox pending C X s' = inbox pending C X s"
proof -
  from assms have "\<exists>p. s' = s\<lparr>cl_transport := snd (t_send T p (cl_transport s))\<rparr>"
    by (auto simp: client_send_msg_def send_encrypted_def transport_send_def split: option.splits prod.splits)
       (metis snd_conv)
  then obtain p where "s' = s\<lparr>cl_transport := snd (t_send T p (cl_transport s))\<rparr>" ..
  with send_keeps [of p "cl_transport s"] that show thesis by (simp add: inbox_def)
qed

lemma resume_accounts:
  assumes "resume T C X random j p s = Some (p', s')" "no_jobs s" "\<And>e. p' = Ended (Inl e) \<Longrightarrow> \<not> broken e"
  shows "\<exists>ev used. s' = s\<lparr>cl_transport := cl_transport s', cl_msg_queue := cl_msg_queue s',
        cl_events := cl_events s @ (if cl_event_open s then ev else [])\<rparr>
    \<and> mset (inbox pending C X s) + mset (held C X (cl_cipher s) (j, p))
        = mset (inbox pending C X s') + mset (held C X (cl_cipher s) (j, p')) + mset (map Inr ev) + mset used
    \<and> (used = [] \<and> (p' = p \<or> (\<forall>b. p' \<noteq> Ended (Inr b)))
       \<or> (\<exists>x. used = [x] \<and> (\<forall>r. p \<noteq> Ended r) \<and> answered (j, p') (Some x)))"
proof (cases p)
  case (Sending name body)
  with assms(1) obtain msg q where send: "client_send_msg T C X random msg s = Some (q, s')"
    and p': "p' = (case q of Inl e \<Rightarrow> Ended (Inl e) | Inr _ \<Rightarrow> AtQueue)"
    by (auto simp: resume_def)
  then have "held C X c (j, p') = []" "\<forall>b. p' \<noteq> Ended (Inr b)" for c
    by (cases q; simp add: held_def)+
  moreover from send obtain t' where "s' = s\<lparr>cl_transport := t'\<rparr>" "inbox pending C X s' = inbox pending C X s"
    by (rule send_keeps_inbox)
  ultimately show ?thesis
    using Sending by (intro exI [of _ "[]"]) (simp add: held_def)
next
  case AtQueue
  with assms show ?thesis
    by (intro exI [of _ "[]"])
       (auto simp: resume_def held_def inbox_def Let_def route_no_jobs no_jobs_def split: list.splits)
next
  case AtTransport
  obtain r t' where recv: "t_recv T (cl_transport s) = (r, t')" by (cases "t_recv T (cl_transport s)")
  show ?thesis
  proof (cases r)
    case (Inl e)
    with AtTransport assms recv recv_Inl [OF recv [unfolded Inl]] recv_fails [OF recv [unfolded Inl]] show ?thesis
      by (intro exI [of _ "[]"]) (auto simp: resume_def held_def inbox_def transport_recv_def)
  next
    case (Inr raw)
    with AtTransport assms(1) recv recv_Inr [OF recv [unfolded Inr]] show ?thesis
      by (intro exI [of _ "[]"]) (auto simp: resume_def held_def inbox_def transport_recv_def)
  qed
next
  case (GotPacket raw)
  have route: "route (Some j) m s = None" for m by (rule route_no_jobs [OF assms(2)])
  show ?thesis
  proof (cases "and_then (decrypt_payload C (cl_cipher s) raw) (parse_incoming X)")
    case (Inl e)
    with GotPacket assms(1) show ?thesis
      by (intro exI [of _ "[]"] exI [of _ "[Inl e]"])
         (auto simp: resume_def held_def packet_events_def answered_def)
  next
    case (Inr m)
    show ?thesis
    proof (cases "im_emsg m = EMSG_MULTI")
      case single: False
      with GotPacket assms(1) Inr route show ?thesis
        by (intro exI [of _ "[]"]) (auto simp: resume_def held_def packet_events_def)
    next
      case multi: True
      show ?thesis
      proof (cases "unpack_multi (x_decode_multi X) (x_gunzip X) (im_body m)")
        case Bad: (Inl e)
        with GotPacket assms(1) Inr multi show ?thesis
          by (intro exI [of _ "[]"] exI [of _ "[Inl e]"])
             (auto simp: resume_def held_def packet_events_def answered_def)
      next
        case Subs: (Inr subs)
        with GotPacket assms(1) Inr multi show ?thesis
          by (intro exI [of _ "[]"]) (auto simp: resume_def held_def packet_events_def inbox_def)
      qed
    qed
  qed
next
  case (GotMessage m)
  show ?thesis
  proof (cases "is_response j m")
    case True
    with GotMessage assms(1) show ?thesis
      by (intro exI [of _ "[]"] exI [of _ "[Inr m]"]) (auto simp: resume_def held_def answered_def split: sum.split)
  next
    case False
    with GotMessage assms(1) show ?thesis
      by (intro exI [of _ "[m]"] exI [of _ "[]"]) (auto simp: resume_def held_def emit_def inbox_def)
  qed
next
  case (Ended r)
  with assms(1) show ?thesis
    by (intro exI [of _ "[]"]) (auto simp: resume_def held_def)
qed

end

section \<open>Nothing is lost and nothing comes twice\<close>

lemma mset_concat_update:
  "i < length xs \<Longrightarrow> mset (concat (map f (xs[i := y]))) + mset (f (xs ! i)) = mset (concat (map f xs)) + mset (f y)"
  by (induction xs arbitrary: i) (auto simp: nth_Cons split: nat.split)

lemma map_filter_id: "List.map_filter id xs = concat (map (case_option [] (\<lambda>x. [x])) xs)"
  by (induction xs) (simp_all add: map_filter_simps split: option.split)

lemma balance:
  fixes a :: "'a multiset"
  assumes "h' + p = h + p'" "a + p = a' + p' + e + u"
  shows "a + h = a' + h' + e + u"
proof (rule multiset_eqI)
  fix c
  from assms [THEN arg_cong [where f = "\<lambda>M. count M c"]] show "count (a + h) c = count (a' + h' + e + u) c" by simp
qed

text \<open>A call that has returned stays as it is.\<close>

lemma resume_Ended: "resume T C X random j (Ended r) s = Some (Ended r, s)"
  by (simp add: resume_def)

definition reports_broken :: "(steam_error \<Rightarrow> bool) \<Rightarrow> (u64 \<times> call_phase) list \<Rightarrow> bool" where
  "reports_broken broken cs \<longleftrightarrow> (\<exists>c \<in> set cs. \<exists>e. snd c = Ended (Inl e) \<and> broken e)"

lemma take_turn_broken:
  assumes "take_turn T C X t (s, cs) = Some (s', cs')" "reports_broken broken cs"
  shows "reports_broken broken cs'"
proof (cases t)
  case (Call name body)
  with assms show ?thesis by (auto simp: reports_broken_def)
next
  case (Resume i random)
  from assms(2) obtain k e where k: "k < length cs" "snd (cs ! k) = Ended (Inl e)" "broken e"
    by (auto simp: reports_broken_def in_set_conv_nth)
  show ?thesis
  proof (cases "i < length cs")
    case True
    with assms(1) Resume obtain p' where p': "resume T C X random (fst (cs ! i)) (snd (cs ! i)) s = Some (p', s')"
      "cs' = cs[i := (fst (cs ! i), p')]" by auto
    with k have "snd (cs' ! k) = Ended (Inl e)"
      by (cases "k = i") (simp_all add: resume_Ended)
    with k p'(2) show ?thesis by (auto simp: reports_broken_def in_set_conv_nth intro!: exI [of _ k])
  next
    case False
    with assms Resume show ?thesis by simp
  qed
qed

text \<open>An invariant that new calls and phases without a bad frame keep.\<close>

lemma invariant_turns:
  assumes call: "\<And>s cs name body. I s cs \<Longrightarrow>
      I (s\<lparr>cl_next_job_id := cl_next_job_id s + 1\<rparr>) (cs @ [(cl_next_job_id s, Sending name body)])"
    and resume: "\<And>s cs i j p random p' s'. I s cs \<Longrightarrow> i < length cs \<Longrightarrow> cs ! i = (j, p) \<Longrightarrow>
      resume T C X random j p s = Some (p', s') \<Longrightarrow> (\<And>e. p' = Ended (Inl e) \<Longrightarrow> \<not> broken e) \<Longrightarrow> I s' (cs[i := (j, p')])"
    and "I s cs \<or> reports_broken broken cs" "take_turns T C X ts (s, cs) = Some (s', cs')"
  shows "I s' cs' \<or> reports_broken broken cs'"
  using assms(3,4)
proof (induction ts arbitrary: s cs)
  case (Cons t ts)
  then obtain s1 cs1 where turn: "take_turn T C X t (s, cs) = Some (s1, cs1)"
    and rest: "take_turns T C X ts (s1, cs1) = Some (s', cs')"
    by (auto simp: bind_eq_Some_conv)
  have "I s1 cs1 \<or> reports_broken broken cs1" if I: "I s cs"
  proof (cases "\<exists>i random. t = Resume i random \<and> i < length cs")
    case True
    then obtain i random where t: "t = Resume i random" "i < length cs" by blast
    obtain j p where c: "cs ! i = (j, p)" by (cases "cs ! i")
    with turn t obtain p' where p': "resume T C X random j p s = Some (p', s1)" "cs1 = cs[i := (j, p')]" by auto
    show ?thesis
    proof (cases "\<exists>e. p' = Ended (Inl e) \<and> broken e")
      case bad: True
      have "(j, p') \<in> set cs1" using p'(2) t(2) by (simp add: set_update_memI)
      with bad show ?thesis by (auto simp: reports_broken_def)
    next
      case False
      with resume [OF I t(2) c p'(1)] p'(2) show ?thesis by blast
    qed
  next
    case False
    with turn I call show ?thesis by (cases t) auto
  qed
  with Cons.prems(1) take_turn_broken [OF turn] have "I s1 cs1 \<or> reports_broken broken cs1" by blast
  from Cons.IH [OF this rest] show ?case .
qed simp

text \<open>
  The state of the calls since nobody had called: every message that was to come is still to
  come, in the hands of a call, on the event channel, or it is what a call has returned on.
\<close>

definition accounted ::
  "('t \<Rightarrow> bytes list) \<Rightarrow> crypto \<Rightarrow> client_codec \<Rightarrow> 't client \<Rightarrow> 't client \<Rightarrow> (u64 \<times> call_phase) list \<Rightarrow> bool" where
  "accounted pending C X s0 s cs \<longleftrightarrow>
     no_jobs s \<and> cl_event_open s
     \<and> cl_next_job_id s = cl_next_job_id s0 + of_nat (length cs)
     \<and> map fst cs = map (\<lambda>k. cl_next_job_id s0 + of_nat k) [0..<length cs]
     \<and> (\<exists>ev answers. cl_events s = cl_events s0 @ ev \<and> list_all2 answered cs answers
        \<and> mset (inbox pending C X s0)
            = on_the_way pending C X (s, cs) + mset (map Inr ev) + mset (List.map_filter id answers))"

lemma accounted_call:
  assumes "accounted pending C X s0 s cs"
  shows "accounted pending C X s0 (s\<lparr>cl_next_job_id := cl_next_job_id s + 1\<rparr>) (cs @ [(cl_next_job_id s, Sending name body)])"
proof -
  from assms obtain ev answers where *: "cl_events s = cl_events s0 @ ev" "list_all2 answered cs answers"
    "mset (inbox pending C X s0) = on_the_way pending C X (s, cs) + mset (map Inr ev) + mset (List.map_filter id answers)"
    by (auto simp: accounted_def)
  have "list_all2 answered (cs @ [(cl_next_job_id s, Sending name body)]) (answers @ [None])"
    using *(2) by (simp add: answered_def list_all2_appendI)
  moreover have "List.map_filter id (answers @ [None]) = List.map_filter id answers"
    by (simp add: map_filter_id)
  ultimately show ?thesis
    using assms * unfolding accounted_def
    by (auto simp: on_the_way_def held_def inbox_def no_jobs_def intro!: exI [of _ ev] exI [of _ "answers @ [None]"])
qed

context failing_transport
begin

lemma resume_on_the_way:
  assumes "i < length cs" "cs ! i = (j, p)" and run: "resume T C X random j p s = Some (p', s')"
    and st: "no_jobs s" and ok: "\<And>e. p' = Ended (Inl e) \<Longrightarrow> \<not> broken e"
  shows "\<exists>ev used. s' = s\<lparr>cl_transport := cl_transport s', cl_msg_queue := cl_msg_queue s',
        cl_events := cl_events s @ (if cl_event_open s then ev else [])\<rparr>
    \<and> on_the_way pending C X (s, cs)
        = on_the_way pending C X (s', cs[i := (j, p')]) + mset (map Inr ev) + mset used
    \<and> (used = [] \<and> (p' = p \<or> (\<forall>b. p' \<noteq> Ended (Inr b)))
       \<or> (\<exists>x. used = [x] \<and> (\<forall>r. p \<noteq> Ended r) \<and> answered (j, p') (Some x)))"
proof -
  from resume_accounts [OF run st ok] obtain ev used where
    s': "s' = s\<lparr>cl_transport := cl_transport s', cl_msg_queue := cl_msg_queue s',
        cl_events := cl_events s @ (if cl_event_open s then ev else [])\<rparr>"
    and bal: "mset (inbox pending C X s) + mset (held C X (cl_cipher s) (j, p))
        = mset (inbox pending C X s') + mset (held C X (cl_cipher s) (j, p')) + mset (map Inr ev) + mset used"
    and used: "used = [] \<and> (p' = p \<or> (\<forall>b. p' \<noteq> Ended (Inr b)))
       \<or> (\<exists>x. used = [x] \<and> (\<forall>r. p \<noteq> Ended r) \<and> answered (j, p') (Some x))"
    by auto
  have cipher: "cl_cipher s' = cl_cipher s" by (subst s') simp
  have "on_the_way pending C X (s, cs) = on_the_way pending C X (s', cs[i := (j, p')]) + mset (map Inr ev) + mset used"
    unfolding on_the_way_def fst_conv snd_conv cipher
    by (rule balance [OF mset_concat_update [OF assms(1), unfolded assms(2)] bal])
  with s' used show ?thesis by blast
qed

lemma accounted_resume:
  assumes acc: "accounted pending C X s0 s cs" and i: "i < length cs" "cs ! i = (j, p)"
    and run: "resume T C X random j p s = Some (p', s')"
    and ok: "\<And>e. p' = Ended (Inl e) \<Longrightarrow> \<not> broken e"
  shows "accounted pending C X s0 s' (cs[i := (j, p')])"
proof -
  from acc obtain ev answers where *: "cl_events s = cl_events s0 @ ev" "list_all2 answered cs answers"
    "mset (inbox pending C X s0) = on_the_way pending C X (s, cs) + mset (map Inr ev) + mset (List.map_filter id answers)"
    and st: "no_jobs s" "cl_event_open s" by (auto simp: accounted_def)
  from resume_on_the_way [OF i run st(1) ok] obtain ev' used where
    s': "s' = s\<lparr>cl_transport := cl_transport s', cl_msg_queue := cl_msg_queue s', cl_events := cl_events s @ ev'\<rparr>"
    and way: "on_the_way pending C X (s, cs) = on_the_way pending C X (s', cs[i := (j, p')]) + mset (map Inr ev') + mset used"
    and used: "used = [] \<and> (p' = p \<or> (\<forall>b. p' \<noteq> Ended (Inr b)))
       \<or> (\<exists>x. used = [x] \<and> (\<forall>r. p \<noteq> Ended r) \<and> answered (j, p') (Some x))"
    using st(2) by auto
  let ?list = "case_option [] (\<lambda>x. [x]) :: incoming_msg steam_result option \<Rightarrow> incoming_msg steam_result list"
  have x: "answered (j, p) (answers ! i)" "i < length answers"
    using *(2) i list_all2_lengthD [OF *(2)] by (auto dest: list_all2_nthD)
  obtain x' where x': "answered (j, p') x'" "?list x' = ?list (answers ! i) @ used"
  proof (cases "\<exists>r. p = Ended r")
    case True
    with run have "p' = p" by (auto simp: resume_Ended)
    with True used x(1) that show thesis by auto
  next
    case False
    with x(1) have none: "answers ! i = None" by (auto intro: answered_running)
    from used show thesis
    proof
      assume "used = [] \<and> (p' = p \<or> (\<forall>b. p' \<noteq> Ended (Inr b)))"
      with False have "used = []" "answered (j, p') None" by (auto simp: answered_def)
      with none show thesis using that [of None] by simp
    next
      assume "\<exists>y. used = [y] \<and> (\<forall>r. p \<noteq> Ended r) \<and> answered (j, p') (Some y)"
      then obtain y where "used = [y]" "answered (j, p') (Some y)" by blast
      with none show thesis using that [of "Some y"] by simp
    qed
  qed
  have "mset (List.map_filter id (answers[i := x'])) = mset (List.map_filter id answers) + mset used"
    using mset_concat_update [OF x(2), of ?list x'] by (simp add: map_filter_id x'(2))
  then have "mset (inbox pending C X s0)
      = on_the_way pending C X (s', cs[i := (j, p')]) + mset (map Inr (ev @ ev')) + mset (List.map_filter id (answers[i := x']))"
    by (simp add: *(3) way)
  moreover have "list_all2 answered (cs[i := (j, p')]) (answers[i := x'])"
    using *(2) x'(1) by (rule list_all2_update_cong)
  moreover have "cl_events s' = cl_events s0 @ (ev @ ev')" by (subst s') (simp add: *(1))
  moreover have "map fst (cs[i := (j, p')]) = map fst cs"
    by (rule nth_equalityI) (use i in \<open>auto simp: nth_list_update\<close>)
  moreover have "no_jobs s'" "cl_event_open s'" "cl_next_job_id s' = cl_next_job_id s"
    by (subst s', use st in \<open>simp add: no_jobs_def\<close>)+
  ultimately show ?thesis using acc by (auto simp: accounted_def)
qed

lemma accounted_turns:
  assumes "accounted pending C X s0 s cs" "take_turns T C X ts (s, cs) = Some (s', cs')"
  shows "accounted pending C X s0 s' cs' \<or> reports_broken broken cs'"
proof (rule invariant_turns [OF _ _ _ assms(2), where I = "accounted pending C X s0"])
  show "accounted pending C X s0 s cs \<or> reports_broken broken cs" using assms(1) ..
qed (blast intro: accounted_call accounted_resume)+

end

section \<open>Answers that somebody else has taken\<close>

text \<open>No answer to a job is still to come, in the hands of whatever call.\<close>

definition no_answer_coming :: "('t \<Rightarrow> bytes list) \<Rightarrow> crypto \<Rightarrow> client_codec \<Rightarrow> u64 \<Rightarrow> 't calls \<Rightarrow> bool" where
  "no_answer_coming pending C X job_id c \<longleftrightarrow>
     (\<forall>m. Inr m \<in># on_the_way pending C X c \<longrightarrow> \<not> is_response job_id m)"

text \<open>The call \<open>i\<close> has not got its answer, and will not get it.\<close>

definition starves :: "('t \<Rightarrow> bytes list) \<Rightarrow> crypto \<Rightarrow> client_codec \<Rightarrow> nat \<Rightarrow> 't client \<Rightarrow> (u64 \<times> call_phase) list \<Rightarrow> bool" where
  "starves pending C X i s cs \<longleftrightarrow>
     no_jobs s \<and> i < length cs \<and> no_answer_coming pending C X (fst (cs ! i)) (s, cs)
     \<and> (\<forall>b. snd (cs ! i) \<noteq> Ended (Inr b))"

lemma starves_call:
  "starves pending C X i s cs \<Longrightarrow>
     starves pending C X i (s\<lparr>cl_next_job_id := cl_next_job_id s + 1\<rparr>) (cs @ [(cl_next_job_id s, Sending name body)])"
  by (auto simp: starves_def no_answer_coming_def on_the_way_def held_def inbox_def no_jobs_def nth_append)

context failing_transport
begin

lemma starves_resume:
  assumes st: "starves pending C X i s cs" and k: "k < length cs" "cs ! k = (j, p)"
    and run: "resume T C X random j p s = Some (p', s')"
    and ok: "\<And>e. p' = Ended (Inl e) \<Longrightarrow> \<not> broken e"
  shows "starves pending C X i s' (cs[k := (j, p')])"
proof -
  have "no_jobs s" using st by (simp add: starves_def)
  from resume_on_the_way [OF k run this ok] obtain ev used where
    s': "s' = s\<lparr>cl_transport := cl_transport s', cl_msg_queue := cl_msg_queue s',
        cl_events := cl_events s @ (if cl_event_open s then ev else [])\<rparr>"
    and way: "on_the_way pending C X (s, cs) = on_the_way pending C X (s', cs[k := (j, p')]) + mset (map Inr ev) + mset used"
    and used: "used = [] \<and> (p' = p \<or> (\<forall>b. p' \<noteq> Ended (Inr b)))
       \<or> (\<exists>x. used = [x] \<and> (\<forall>r. p \<noteq> Ended r) \<and> answered (j, p') (Some x))"
    by blast
  have job: "fst (cs[k := (j, p')] ! i) = fst (cs ! i)" using k by (auto simp: nth_list_update)
  have "\<forall>b. snd (cs[k := (j, p')] ! i) \<noteq> Ended (Inr b)"
  proof (cases "k = i")
    case True
    have "Inr m \<notin> set used" if "is_response j m" for m
      using st way k that True by (auto simp: starves_def no_answer_coming_def)
    moreover have "p' \<noteq> Ended (Inr b)" if "used = [x]" "answered (j, p') (Some x)" for x b
      using that calculation by (cases x) (auto simp: answered_def)
    ultimately show ?thesis using used st True k by (auto simp: starves_def)
  next
    case False
    with st k show ?thesis by (simp add: starves_def)
  qed
  moreover have "no_jobs s'" by (subst s') (use st in \<open>simp add: starves_def no_jobs_def\<close>)
  ultimately show ?thesis
    using st way job by (auto simp: starves_def no_answer_coming_def)
qed

lemma starves_turns:
  assumes "starves pending C X i s cs" "take_turns T C X ts (s, cs) = Some (s', cs')"
  shows "starves pending C X i s' cs' \<or> reports_broken broken cs'"
proof (rule invariant_turns [OF _ _ _ assms(2), where I = "starves pending C X i"])
  show "starves pending C X i s cs \<or> reports_broken broken cs" using assms(1) ..
qed (blast intro: starves_call starves_resume)+

end

section \<open>The transports\<close>

text \<open>A frame with another magic number breaks a TCP stream; a replay ends for good.\<close>

definition bad_frame :: "steam_error \<Rightarrow> bool" where
  "bad_frame e \<longleftrightarrow> (\<exists>m. e = Connection (BadMagic MAGIC m))"

interpretation tcp_calls: failing_transport tcp_ops "\<lambda>t. frames_of (tcp_incoming t)" bad_frame
proof unfold_locales
  fix t e t'
  assume recv: "t_recv tcp_ops t = (Inl e, t')"
  with tcp_recv_cases [of t] show "bad_frame e \<or> frames_of (tcp_incoming t') = []"
    by (auto simp: tcp_ops_def bad_frame_def frames_of.simps [of "[]"] parse_frame_short split: partial_result.splits)
qed

interpretation replay_calls: failing_transport replay_ops replay_pending "\<lambda>_. False"
  by unfold_locales (auto simp: replay_ops_def replay_recv_def replay_pending_def Let_def split: if_splits)

section \<open>Properties\<close>

text \<open>Two calls on one client; the answer to the second comes first.\<close>

definition crossed_client :: "tcp_stream client" where
  "crossed_client = sample_client (sample_answer 2 [6] @ sample_answer 1 [5])"

definition both_sent :: "turn list" where
  "both_sent = [Call ''A'' [], Call ''B'' [], Resume 0 [1], Resume 1 [1]]"

definition one_message :: "nat \<Rightarrow> turn list" where
  "one_message i = replicate 4 (Resume i [])"

lemma sample_accounted: "accounted (\<lambda>t. frames_of (tcp_incoming t)) C X (sample_client b) (sample_client b) []"
  by (simp add: accounted_def on_the_way_def map_filter_simps) (simp add: sample_client_def connect_def)

lemma crossed_run:
  "map_option (\<lambda>(s, cs). (tcp_inbox plain_crypto sample_client_codec s, map im_body (cl_events s), cs))
     (take_turns tcp_ops plain_crypto sample_client_codec (both_sent @ one_message 0 @ one_message 1) (crossed_client, []))
   = Some ([], [[6], [5]], [(1, AtQueue), (2, AtQueue)])"
  by code_simp

lemma single_call:
  "map_option fst (call_service_method tcp_ops plain_crypto sample_client_codec [1] ''A'' [] (sample_client (sample_answer 1 [5])))
     = Some (Inr [5])"
  by code_simp



text \<open>
  C3: However the calls on one client are interleaved, nothing is lost and nothing comes twice:
  every message or error that was to come is still to come or in the hands of a call, or on the
  event channel, or it is the one with which a call has returned, and then it is an answer to
  the job of this call. The jobs are numbered in the order of the calls. This holds until a
  frame of the stream has a bad header.
\<close>

theorem concurrent_calls_account:
  assumes "no_jobs s" "cl_event_open s"
    and "take_turns tcp_ops C X turns (s, []) = Some (s', cs)" "\<not> reports_broken bad_frame cs"
  shows "\<exists>ev answers. cl_events s' = cl_events s @ ev \<and> list_all2 answered cs answers
    \<and> mset (tcp_inbox C X s)
        = on_the_way (\<lambda>t. frames_of (tcp_incoming t)) C X (s', cs) + mset (map Inr ev) + mset (List.map_filter id answers)
    \<and> map fst cs = map (\<lambda>k. cl_next_job_id s + of_nat k) [0..<length cs]"
proof -
  have "accounted (\<lambda>t. frames_of (tcp_incoming t)) C X s s []"
    using assms(1,2) by (simp add: accounted_def on_the_way_def map_filter_simps)
  from tcp_calls.accounted_turns [OF this assms(3)] assms(4) show ?thesis
    by (auto simp: accounted_def)
qed

theorem concurrent_calls_account_witness:
  "\<exists>s cs ev answers. take_turns tcp_ops plain_crypto sample_client_codec (both_sent @ one_message 0 @ one_message 1)
      (crossed_client, []) = Some (s, cs)
    \<and> list_all2 answered cs answers
    \<and> mset (tcp_inbox plain_crypto sample_client_codec crossed_client) = mset (map Inr ev) + mset (List.map_filter id answers)"
proof -
  from crossed_run obtain s where run: "take_turns tcp_ops plain_crypto sample_client_codec
      (both_sent @ one_message 0 @ one_message 1) (crossed_client, []) = Some (s, [(1, AtQueue), (2, AtQueue)])"
    and empty: "tcp_inbox plain_crypto sample_client_codec s = []" by auto
  have "no_jobs crossed_client" "cl_event_open crossed_client"
    by (simp_all add: crossed_client_def) (simp add: sample_client_def connect_def)
  from concurrent_calls_account [OF this run] obtain ev answers where
    "list_all2 answered [(1, AtQueue), (2, AtQueue)] answers"
    "mset (tcp_inbox plain_crypto sample_client_codec crossed_client)
      = on_the_way (\<lambda>t. frames_of (tcp_incoming t)) plain_crypto sample_client_codec (s, [(1, AtQueue), (2, AtQueue)])
        + mset (map Inr ev) + mset (List.map_filter id answers)"
    by (auto simp: reports_broken_def)
  moreover have "on_the_way (\<lambda>t. frames_of (tcp_incoming t)) plain_crypto sample_client_codec (s, [(1, AtQueue), (2, AtQueue)]) = {#}"
    using empty by (simp add: on_the_way_def held_def)
  ultimately show ?thesis using run by (auto intro!: exI [of _ ev] exI [of _ answers])
qed

text \<open>
  C18: A call whose answer another call has taken never succeeds: when no answer to its job is
  still to come, no continuation of the run lets it return a result. So two calls that wait at
  the same time can take each other's answers, and neither returns.
\<close>

theorem taken_answer_never_returned:
  assumes "no_jobs s" "i < length cs" "\<forall>b. snd (cs ! i) \<noteq> Ended (Inr b)"
    and "no_answer_coming (\<lambda>t. frames_of (tcp_incoming t)) C X (fst (cs ! i)) (s, cs)"
    and "take_turns tcp_ops C X turns (s, cs) = Some (s', cs')" "\<not> reports_broken bad_frame cs'"
  shows "snd (cs' ! i) \<noteq> Ended (Inr b)"
proof -
  have "starves (\<lambda>t. frames_of (tcp_incoming t)) C X i s cs"
    using assms(1-4) by (simp add: starves_def)
  from tcp_calls.starves_turns [OF this assms(5)] assms(6) show ?thesis
    by (auto simp: starves_def)
qed

theorem taken_answer_never_returned_witness:
  "\<exists>s cs. take_turns tcp_ops plain_crypto sample_client_codec (both_sent @ one_message 0 @ one_message 1 @ [Resume 0 []])
      (crossed_client, []) = Some (s, cs)
    \<and> snd (cs ! 0) \<noteq> Ended (Inr [5]) \<and> snd (cs ! 1) \<noteq> Ended (Inr [6]) \<and> map im_body (cl_events s) = [[6], [5]]"
proof -
  from crossed_run obtain s where run: "take_turns tcp_ops plain_crypto sample_client_codec
      (both_sent @ one_message 0 @ one_message 1) (crossed_client, []) = Some (s, [(1, AtQueue), (2, AtQueue)])"
    and empty: "tcp_inbox plain_crypto sample_client_codec s = []" and events: "map im_body (cl_events s) = [[6], [5]]" by auto
  let ?cs = "[(1, AtQueue), (2, AtQueue)]" and ?cs' = "[(1, AtTransport), (2, AtQueue)] :: (u64 \<times> call_phase) list"
  have "accounted (\<lambda>t. frames_of (tcp_incoming t)) plain_crypto sample_client_codec crossed_client s ?cs"
    using tcp_calls.accounted_turns [OF sample_accounted run [unfolded crossed_client_def]]
    by (auto simp: reports_broken_def crossed_client_def)
  then have "no_jobs s" by (simp add: accounted_def)
  moreover have "no_answer_coming (\<lambda>t. frames_of (tcp_incoming t)) plain_crypto sample_client_codec j (s, ?cs)" for j
    using empty by (simp add: no_answer_coming_def on_the_way_def held_def)
  moreover have "cl_msg_queue s = []" using empty by (simp add: inbox_def)
  then have more: "take_turns tcp_ops plain_crypto sample_client_codec [Resume 0 []] (s, ?cs)
      = Some (s, ?cs')"
    by (simp add: resume_def)
  moreover have "\<not> reports_broken bad_frame ?cs'" by (simp add: reports_broken_def)
  ultimately have "snd (?cs' ! 0) \<noteq> Ended (Inr [5])" "snd (?cs' ! 1) \<noteq> Ended (Inr [6])"
    using taken_answer_never_returned [of s 0 ?cs plain_crypto sample_client_codec "[Resume 0 []]" s]
      taken_answer_never_returned [of s 1 ?cs plain_crypto sample_client_codec "[Resume 0 []]" s] by simp_all
  moreover have "take_turns tcp_ops plain_crypto sample_client_codec (both_sent @ one_message 0 @ one_message 1 @ [Resume 0 []])
      (crossed_client, []) = Some (s, ?cs')"
    using run more take_turns_append [of tcp_ops plain_crypto sample_client_codec "both_sent @ one_message 0 @ one_message 1"
        "[Resume 0 []]" "(crossed_client, [])"] by simp
  ultimately show ?thesis using events by (intro exI [of _ s] exI [of _ ?cs'] conjI)
qed

end
