(* ===== verification/Ffi.thy ===== *)
theory Ffi
  imports Login Filenames
begin

text \<open>
  The C interface, \<^verbatim>\<open>crates/steam-ffi/src/lib.rs\<close>: opaque handles around the values of the
  library. A client handle is the state machine of the library's typestates checked at run
  time. Strings from the caller are byte slices that may not be UTF-8; what is written to the
  caller's buffer is the result. A method that takes the handle gives it back changed.
\<close>

section \<open>Arguments and errors\<close>

text \<open>The text of the errors, base64 and the encoders of two requests.\<close>

record ffi_env =
  fe_steam_text :: "steam_error \<Rightarrow> string"
  fe_manifest_text :: "manifest_error \<Rightarrow> string"
  fe_io_text :: "io_error_kind \<Rightarrow> string"
  fe_utf8_text :: "bytes \<Rightarrow> string"
  fe_base64 :: "bytes \<Rightarrow> string"
  fe_enc_logon :: "logon_request \<Rightarrow> bytes"
  fe_enc_credentials :: "credentials_request \<Rightarrow> bytes"

datatype ffi_error = FfiError (ffi_message: string)

text \<open>\<^verbatim>\<open>SteamError\<close> of the interface.\<close>

datatype ffi_steam_error =
    FE_Invalid
  | FE_Fail
  | FE_NoConnection
  | FE_InvalidPassword
  | FE_LoggedInElsewhere
  | FE_InvalidProtocolVer
  | FE_InvalidParam
  | FE_FileNotFound
  | FE_Busy
  | FE_InvalidState
  | FE_AccessDenied
  | FE_Timeout
  | FE_Banned
  | FE_AccountNotFound
  | FE_ServiceUnavailable
  | FE_NotLoggedOn
  | FE_Expired
  | FE_RateLimitExceeded
  | FE_TwoFactorRequired
  | FE_Unknown

definition ffi_eresult_arms :: "(i32 \<times> ffi_steam_error) list" where
  "ffi_eresult_arms =
    [(0, FE_Invalid), (2, FE_Fail), (3, FE_NoConnection), (5, FE_InvalidPassword), (6, FE_LoggedInElsewhere),
     (7, FE_InvalidProtocolVer), (8, FE_InvalidParam), (9, FE_FileNotFound), (10, FE_Busy), (11, FE_InvalidState),
     (15, FE_AccessDenied), (16, FE_Timeout), (17, FE_Banned), (18, FE_AccountNotFound), (20, FE_ServiceUnavailable),
     (21, FE_NotLoggedOn), (27, FE_Expired), (84, FE_RateLimitExceeded), (85, FE_TwoFactorRequired)]"

definition from_eresult :: "i32 \<Rightarrow> ffi_steam_error" where
  "from_eresult code = unwrap_or (map_of ffi_eresult_arms code) FE_Unknown"

datatype ffi_guard_type = FG_None | FG_EmailCode | FG_DeviceCode | FG_DeviceConfirmation

definition ffi_str :: "ffi_env \<Rightarrow> bytes \<Rightarrow> ffi_error + string" where
  "ffi_str F bs = ok_or (from_utf8 bs) (FfiError (fe_utf8_text F bs))"

section \<open>Handles\<close>

datatype 't ffi_inner = FEncrypted "'t client" | FLoggedIn "'t client"

type_synonym 't ffi_client = "'t ffi_inner option"

definition as_encrypted :: "'t ffi_inner \<Rightarrow> string + 't client" where
  "as_encrypted inner = (case inner of FEncrypted c \<Rightarrow> Inr c | FLoggedIn _ \<Rightarrow> Inl ''client is already logged in'')"

definition as_logged_in :: "'t ffi_inner \<Rightarrow> string + 't client" where
  "as_logged_in inner = (case inner of FLoggedIn c \<Rightarrow> Inr c | FEncrypted _ \<Rightarrow> Inl ''client is not logged in'')"

text \<open>A method on a shared handle: the checks of the state, then the work on the client.\<close>

definition on_encrypted ::
  "'t ffi_client \<Rightarrow> ('t client \<Rightarrow> (ffi_error, 'a, 't client) run) \<Rightarrow> (ffi_error, 'a, 't ffi_client) run" where
  "on_encrypted handle work =
     (case handle of
        None \<Rightarrow> Some (Inl (FfiError ''client consumed''), handle)
      | Some inner \<Rightarrow>
          (case as_encrypted inner of
             Inl m \<Rightarrow> Some (Inl (FfiError m), handle)
           | Inr c \<Rightarrow> map_option (\<lambda>(r, c). (r, Some (FEncrypted c))) (work c)))"

definition on_logged_in ::
  "'t ffi_client \<Rightarrow> ('t client \<Rightarrow> (ffi_error, 'a, 't client) run) \<Rightarrow> (ffi_error, 'a, 't ffi_client) run" where
  "on_logged_in handle work =
     (case handle of
        None \<Rightarrow> Some (Inl (FfiError ''client consumed''), handle)
      | Some inner \<Rightarrow>
          (case as_logged_in inner of
             Inl m \<Rightarrow> Some (Inl (FfiError m), handle)
           | Inr c \<Rightarrow> map_option (\<lambda>(r, c). (r, Some (FLoggedIn c))) (work c)))"

abbreviation (input) steam_err :: "ffi_env \<Rightarrow> ('a steam_result \<times> 's) option \<Rightarrow> (ffi_error, 'a, 's) run" where
  "steam_err F \<equiv> with_err (\<lambda>e. FfiError (fe_steam_text F e))"

section \<open>Servers and connecting\<close>

definition ffi_fetch_servers ::
  "ffi_env \<Rightarrow> network \<Rightarrow> (bytes \<Rightarrow> json steam_result) \<Rightarrow> cell_id \<Rightarrow> ffi_error + cm_server list" where
  "ffi_fetch_servers F N parse_json cell_id =
     map_ok (filter (\<lambda>s. sv_protocol s = Tcp))
       (map_err (\<lambda>e. FfiError (fe_steam_text F e)) (fetch_cm_servers N parse_json cell_id))"

definition ffi_len :: "'a list \<Rightarrow> u32" where
  "ffi_len xs = of_nat (length xs)"

definition list_get :: "'a list \<Rightarrow> u32 \<Rightarrow> 'a option" where
  "list_get xs index = (if unat index < length xs then Some (xs ! unat index) else None)"

text \<open>The receiver of the events is dropped when the handle is returned.\<close>

definition ffi_connect ::
  "ffi_env \<Rightarrow> network \<Rightarrow> crypto \<Rightarrow> client_codec \<Rightarrow> bytes \<Rightarrow> bytes \<Rightarrow> cm_server list \<Rightarrow> u32
    \<Rightarrow> (ffi_error + tcp_stream ffi_client) option" where
  "ffi_connect F N C X session_key random servers server_index =
     (case list_get servers server_index of
        None \<Rightarrow> Some (Inl (FfiError ''server index out of bounds''))
      | Some server \<Rightarrow>
          (case tcp_connect N server of
             Inl e \<Rightarrow> Some (Inl (FfiError (fe_steam_text F e)))
           | Inr tcp \<Rightarrow>
               map_option (\<lambda>(r, c).
                 case r of
                   Inl e \<Rightarrow> Inl (FfiError (fe_steam_text F e))
                 | Inr _ \<Rightarrow> Inr (Some (FEncrypted (c\<lparr>cl_event_open := False\<rparr>))))
                 (encrypt tcp_ops C X session_key random (connect tcp))))"

section \<open>Logging in\<close>

text \<open>The inner client is taken out of the handle before anything is checked.\<close>

definition ffi_take_encrypted :: "'t ffi_client \<Rightarrow> (ffi_error + 't client) \<times> 't ffi_client" where
  "ffi_take_encrypted handle =
     (case handle of
        None \<Rightarrow> (Inl (FfiError ''client consumed''), None)
      | Some (FEncrypted c) \<Rightarrow> (Inr c, None)
      | Some (FLoggedIn _) \<Rightarrow> (Inl (FfiError ''must be in encrypted state to login''), None))"

definition ffi_logon_request :: "cell_id \<Rightarrow> logon_request" where
  "ffi_logon_request cell_id =
     \<lparr>lo_protocol_version = PROTOCOL_VERSION, lo_cell_id = cell_id_0 cell_id,
      lo_client_os_type = ucast (os_type_i32 Windows11), lo_client_language = ''english'',
      lo_access_token = None, lo_account_name = None, lo_should_remember_password = None\<rparr>"

text \<open>Only a login that succeeds puts a client back.\<close>

definition ffi_finish_login ::
  "ffi_env \<Rightarrow> 't transport_ops \<Rightarrow> crypto \<Rightarrow> client_codec \<Rightarrow> bytes \<Rightarrow> client_msg \<Rightarrow> 't client
    \<Rightarrow> (ffi_error, unit, 't ffi_client) run" where
  "ffi_finish_login F T C X random msg c =
     map_option (\<lambda>(r, c).
       case r of
         Inl e \<Rightarrow> (Inl (FfiError (fe_steam_text F e)), None)
       | Inr _ \<Rightarrow> (Inr (), Some (FLoggedIn c))) (login T C X random msg c)"

definition ffi_login_anonymous ::
  "ffi_env \<Rightarrow> 't transport_ops \<Rightarrow> crypto \<Rightarrow> client_codec \<Rightarrow> bytes \<Rightarrow> cell_id \<Rightarrow> 't ffi_client
    \<Rightarrow> (ffi_error, unit, 't ffi_client) run" where
  "ffi_login_anonymous F T C X random cell_id handle =
     (case ffi_take_encrypted handle of
        (Inl e, handle) \<Rightarrow> Some (Inl e, handle)
      | (Inr c, _) \<Rightarrow>
          ffi_finish_login F T C X random (logon_msg AT_AnonUser (fe_enc_logon F (ffi_logon_request cell_id))) c)"

definition ffi_login_with_token ::
  "ffi_env \<Rightarrow> 't transport_ops \<Rightarrow> crypto \<Rightarrow> client_codec \<Rightarrow> bytes \<Rightarrow> bytes \<Rightarrow> bytes \<Rightarrow> cell_id \<Rightarrow> 't ffi_client
    \<Rightarrow> (ffi_error, unit, 't ffi_client) run" where
  "ffi_login_with_token F T C X random username access_token cell_id handle =
     (case ffi_take_encrypted handle of
        (Inl e, handle) \<Rightarrow> Some (Inl e, handle)
      | (Inr c, handle) \<Rightarrow>
          (case ffi_str F username of
             Inl e \<Rightarrow> Some (Inl e, handle)
           | Inr username \<Rightarrow>
               (case ffi_str F access_token of
                  Inl e \<Rightarrow> Some (Inl e, handle)
                | Inr token \<Rightarrow>
                    ffi_finish_login F T C X random (logon_msg AT_Individual (fe_enc_logon F ((ffi_logon_request cell_id)
                      \<lparr>lo_access_token := Some token, lo_account_name := Some username\<rparr>))) c)))"

section \<open>Authentication\<close>

record ffi_rsa_key =
  fr_modulus :: string
  fr_exponent :: string
  fr_timestamp :: u64

definition ffi_get_rsa_public_key ::
  "ffi_env \<Rightarrow> 't transport_ops \<Rightarrow> crypto \<Rightarrow> client_codec \<Rightarrow> service_codec \<Rightarrow> bytes \<Rightarrow> bytes \<Rightarrow> 't ffi_client
    \<Rightarrow> (ffi_error, ffi_rsa_key, 't ffi_client) run" where
  "ffi_get_rsa_public_key F T C X P random username handle =
     on_encrypted handle (\<lambda>c.
       then_do (give (ffi_str F username) c) (\<lambda>username c.
       then_do (steam_err F (get_password_rsa_public_key T C X P random username c)) (\<lambda>resp c.
       Some (Inr \<lparr>fr_modulus = unwrap_or (rk_mod resp) [], fr_exponent = unwrap_or (rk_exp resp) [],
                  fr_timestamp = unwrap_or (rk_timestamp resp) 0\<rparr>, c))))"

definition ffi_credentials_request :: "string \<Rightarrow> string \<Rightarrow> u64 \<Rightarrow> string \<Rightarrow> credentials_request" where
  "ffi_credentials_request username password_b64 timestamp device_name =
     \<lparr>cr_account_name = username, cr_encrypted_password = password_b64, cr_encryption_timestamp = timestamp,
      cr_persistence = persistence_i32 Persistent, cr_website_id = ''Client'', cr_device_name = device_name,
      cr_platform_type = platform_type_i32 PT_SteamClient, cr_os_type = os_type_i32 Windows11\<rparr>"

definition ffi_begin_auth_credentials ::
  "ffi_env \<Rightarrow> 't transport_ops \<Rightarrow> crypto \<Rightarrow> client_codec \<Rightarrow> service_codec \<Rightarrow> bytes \<Rightarrow> bytes \<Rightarrow> bytes \<Rightarrow> u64 \<Rightarrow> bytes
    \<Rightarrow> 't ffi_client \<Rightarrow> (ffi_error, auth_session, 't ffi_client) run" where
  "ffi_begin_auth_credentials F T C X P random username encrypted_password timestamp device_name handle =
     on_encrypted handle (\<lambda>c.
       then_do (give (ffi_str F username) c) (\<lambda>username c.
       then_do (give (ffi_str F device_name) c) (\<lambda>device_name c.
       steam_err F (begin_auth_session_via_credentials T C X P random
         (fe_enc_credentials F (ffi_credentials_request username (fe_base64 F encrypted_password) timestamp device_name)) c))))"

definition ffi_poll_auth ::
  "ffi_env \<Rightarrow> 't transport_ops \<Rightarrow> crypto \<Rightarrow> client_codec \<Rightarrow> service_codec \<Rightarrow> bytes \<Rightarrow> auth_session
    \<Rightarrow> 't ffi_client \<Rightarrow> (ffi_error, auth_tokens, 't ffi_client) run" where
  "ffi_poll_auth F T C X P random session handle =
     on_encrypted handle (\<lambda>c.
       then_do (give (ok_or (as_client_id session) (FfiError ''missing client_id'')) c) (\<lambda>client_id c.
       then_do (give (ok_or (as_request_id session) (FfiError ''missing request_id'')) c) (\<lambda>request_id c.
       then_do (steam_err F (poll_auth_session T C X P random client_id request_id c)) (\<lambda>answer c.
       give (ok_or answer (FfiError ''auth session pending'')) c))))"

definition guard_of_ffi :: "ffi_guard_type \<Rightarrow> guard_type" where
  "guard_of_ffi code_type =
     (case code_type of FG_EmailCode \<Rightarrow> EmailCode | FG_DeviceCode \<Rightarrow> DeviceCode | _ \<Rightarrow> GuardNone)"

definition ffi_submit_guard_code ::
  "ffi_env \<Rightarrow> 't transport_ops \<Rightarrow> crypto \<Rightarrow> client_codec \<Rightarrow> service_codec \<Rightarrow> bytes \<Rightarrow> auth_session \<Rightarrow> bytes
    \<Rightarrow> ffi_guard_type \<Rightarrow> 't ffi_client \<Rightarrow> (ffi_error, unit, 't ffi_client) run" where
  "ffi_submit_guard_code F T C X P random session code code_type handle =
     on_encrypted handle (\<lambda>c.
       then_do (give (ok_or (as_client_id session) (FfiError ''missing client_id'')) c) (\<lambda>client_id c.
       then_do (give (ok_or (as_steam_id session) (FfiError ''missing steam_id'')) c) (\<lambda>steam_id c.
       then_do (give (ffi_str F code) c) (\<lambda>code c.
       steam_err F (submit_steam_guard_code T C X P random client_id steam_id code (guard_of_ffi code_type) c)))))"

definition ffi_of_guard :: "guard_type \<Rightarrow> ffi_guard_type" where
  "ffi_of_guard g =
     (case g of EmailCode \<Rightarrow> FG_EmailCode | DeviceCode \<Rightarrow> FG_DeviceCode | DeviceConfirmation \<Rightarrow> FG_DeviceConfirmation
      | _ \<Rightarrow> FG_None)"

definition ffi_guard_type_count :: "auth_session \<Rightarrow> u32" where
  "ffi_guard_type_count session = ffi_len (as_allowed_confirmations session)"

definition ffi_guard_type_at :: "auth_session \<Rightarrow> u32 \<Rightarrow> ffi_guard_type" where
  "ffi_guard_type_at session index =
     unwrap_or (map_option ffi_of_guard (list_get (as_allowed_confirmations session) index)) FG_None"

text \<open>What the accessors write; a missing name leaves the buffer as it is.\<close>

definition ffi_account_name :: "auth_tokens \<Rightarrow> string" where
  "ffi_account_name tokens = unwrap_or (tk_account_name tokens) []"

section \<open>Metadata and content\<close>

definition ffi_get_access_tokens ::
  "ffi_env \<Rightarrow> 't transport_ops \<Rightarrow> crypto \<Rightarrow> client_codec \<Rightarrow> service_codec \<Rightarrow> bytes \<Rightarrow> u32 list \<Rightarrow> 't ffi_client
    \<Rightarrow> (ffi_error, access_token list, 't ffi_client) run" where
  "ffi_get_access_tokens F T C X P random app_ids handle =
     on_logged_in handle (\<lambda>c. steam_err F (pics_get_access_tokens T C X P random (map AppId app_ids) c))"

definition ffi_get_product_info ::
  "ffi_env \<Rightarrow> 't transport_ops \<Rightarrow> crypto \<Rightarrow> client_codec \<Rightarrow> service_codec \<Rightarrow> bytes \<Rightarrow> access_token list \<Rightarrow> 't ffi_client
    \<Rightarrow> (ffi_error, app_info list, 't ffi_client) run" where
  "ffi_get_product_info F T C X P random tokens handle =
     on_logged_in handle (\<lambda>c. steam_err F (pics_get_product_info T C X P random tokens c))"

definition ffi_get_depot_key ::
  "ffi_env \<Rightarrow> 't transport_ops \<Rightarrow> crypto \<Rightarrow> client_codec \<Rightarrow> service_codec \<Rightarrow> bytes \<Rightarrow> depot_id \<Rightarrow> app_id \<Rightarrow> 't ffi_client
    \<Rightarrow> (ffi_error, depot_key, 't ffi_client) run" where
  "ffi_get_depot_key F T C X P random depot_id app_id handle =
     on_logged_in handle (\<lambda>c. steam_err F (get_depot_decryption_key T C X P random depot_id app_id c))"

definition ffi_get_cdn_servers ::
  "ffi_env \<Rightarrow> 't transport_ops \<Rightarrow> crypto \<Rightarrow> client_codec \<Rightarrow> service_codec \<Rightarrow> bytes \<Rightarrow> cell_id \<Rightarrow> 't ffi_client
    \<Rightarrow> (ffi_error, cdn_server list, 't ffi_client) run" where
  "ffi_get_cdn_servers F T C X P random cell_id handle =
     on_logged_in handle (\<lambda>c. steam_err F (get_cdn_servers T C X P random cell_id None c))"

definition ffi_get_manifest_request_code ::
  "ffi_env \<Rightarrow> 't transport_ops \<Rightarrow> crypto \<Rightarrow> client_codec \<Rightarrow> service_codec \<Rightarrow> bytes \<Rightarrow> app_id \<Rightarrow> depot_id \<Rightarrow> manifest_id
    \<Rightarrow> bytes \<Rightarrow> 't ffi_client \<Rightarrow> (ffi_error, u64, 't ffi_client) run" where
  "ffi_get_manifest_request_code F T C X P random app_id depot_id manifest_id branch handle =
     on_logged_in handle (\<lambda>c.
       then_do (give (ffi_str F branch) c) (\<lambda>branch c.
       then_do (steam_err F (get_manifest_request_code T C X P random app_id depot_id manifest_id (Some branch) None c))
         (\<lambda>code c. Some (Inr (unwrap_or code 0), c))))"

definition ffi_app_id_at :: "app_info list \<Rightarrow> u32 \<Rightarrow> u32" where
  "ffi_app_id_at infos index = unwrap_or (map_option app_id_0 (Option.bind (list_get infos index) ai_app_id)) 0"

definition ffi_kv_data_at :: "app_info list \<Rightarrow> u32 \<Rightarrow> bytes option" where
  "ffi_kv_data_at infos index = Option.bind (list_get infos index) ai_kv_data"

definition ffi_kv_raw_bytes :: "bytes option \<Rightarrow> bytes" where
  "ffi_kv_raw_bytes kv = (case kv of Some data \<Rightarrow> data | None \<Rightarrow> [])"

definition ffi_host_at :: "cdn_server list \<Rightarrow> u32 \<Rightarrow> string" where
  "ffi_host_at servers index = (case list_get servers index of Some server \<Rightarrow> cs_host server | None \<Rightarrow> [])"

section \<open>CDN, manifests and tokens\<close>

definition ffi_download_manifest ::
  "ffi_env \<Rightarrow> ('a, 'e) codecs \<Rightarrow> manifest_codec \<Rightarrow> cdn_client \<Rightarrow> cdn_server list \<Rightarrow> u32 \<Rightarrow> depot_id \<Rightarrow> manifest_id \<Rightarrow> u64
    \<Rightarrow> ffi_error + depot_manifest" where
  "ffi_download_manifest F Z M cdn cdn_servers server_index depot_id manifest_id request_code =
     and_then (ok_or (list_get cdn_servers server_index) (FfiError ''server index out of bounds'')) (\<lambda>server.
     and_then (map_err (\<lambda>e. FfiError (fe_steam_text F e)) (download_manifest cdn server depot_id manifest_id request_code None)) (\<lambda>bytes.
     map_err (\<lambda>e. FfiError (fe_manifest_text F e)) (extract_and_parse Z M bytes)))"

definition ffi_download_chunk ::
  "ffi_env \<Rightarrow> cdn_client \<Rightarrow> cdn_server list \<Rightarrow> u32 \<Rightarrow> depot_id \<Rightarrow> bytes \<Rightarrow> ffi_error + bytes" where
  "ffi_download_chunk F cdn cdn_servers server_index depot_id chunk_id =
     and_then (ok_or (list_get cdn_servers server_index) (FfiError ''server index out of bounds'')) (\<lambda>server.
     if length chunk_id \<noteq> 20 then Inl (FfiError ''chunk_id must be 20 bytes'')
     else map_err (\<lambda>e. FfiError (fe_steam_text F e)) (download_chunk cdn server depot_id (ChunkId chunk_id) None))"

definition ffi_manifest_parse ::
  "ffi_env \<Rightarrow> ('a, 'e) codecs \<Rightarrow> manifest_codec \<Rightarrow> bytes \<Rightarrow> ffi_error + depot_manifest" where
  "ffi_manifest_parse F Z M data = map_err (\<lambda>e. FfiError (fe_manifest_text F e)) (extract_and_parse Z M data)"

definition ffi_file_count :: "depot_manifest \<Rightarrow> u32" where
  "ffi_file_count m = ffi_len (dm_files m)"

definition ffi_total_uncompressed_size :: "depot_manifest \<Rightarrow> u64" where
  "ffi_total_uncompressed_size m = unwrap_or (dm_total_uncompressed_size m) 0"

definition ffi_total_compressed_size :: "depot_manifest \<Rightarrow> u64" where
  "ffi_total_compressed_size m = unwrap_or (dm_total_compressed_size m) 0"

definition ffi_creation_time :: "depot_manifest \<Rightarrow> u32" where
  "ffi_creation_time m = unwrap_or (dm_creation_time m) 0"

definition ffi_file_name :: "depot_manifest \<Rightarrow> u32 \<Rightarrow> string" where
  "ffi_file_name m index = unwrap_or (Option.bind (list_get (dm_files m) index) mf_filename) []"

definition ffi_file_size :: "depot_manifest \<Rightarrow> u32 \<Rightarrow> u64" where
  "ffi_file_size m index = unwrap_or (Option.bind (list_get (dm_files m) index) mf_size) 0"

definition ffi_file_chunk_count :: "depot_manifest \<Rightarrow> u32 \<Rightarrow> u32" where
  "ffi_file_chunk_count m index =
     unwrap_or (map_option (\<lambda>f. ffi_len (mf_chunks f)) (list_get (dm_files m) index)) 0"

definition ffi_decrypt_filenames ::
  "ffi_env \<Rightarrow> crypto \<Rightarrow> (string \<Rightarrow> bytes option) \<Rightarrow> depot_key \<Rightarrow> depot_manifest \<Rightarrow> (ffi_error + unit) \<times> depot_manifest" where
  "ffi_decrypt_filenames F C base64_decode key m =
     apfst (map_err (\<lambda>e. FfiError (fe_manifest_text F e))) (decrypt_filenames C base64_decode key m)"

definition ffi_token_load_default ::
  "(string \<Rightarrow> string option) \<Rightarrow> (string \<Rightarrow> token_store option) \<Rightarrow> file_system \<Rightarrow> token_store" where
  "ffi_token_load_default env from_str fs = token_store_load from_str fs (token_default_path env)"

text \<open>Whether there is a token, and what is written.\<close>

definition ffi_token_get :: "token_store \<Rightarrow> bytes \<Rightarrow> bool \<times> string" where
  "ffi_token_get store username =
     (case from_utf8 username of
        None \<Rightarrow> (False, [])
      | Some username \<Rightarrow>
          (case token_get store username of Some token \<Rightarrow> (True, token) | None \<Rightarrow> (False, [])))"

text \<open>A string that is not UTF-8 counts as empty.\<close>

definition ffi_token_set :: "bytes \<Rightarrow> bytes \<Rightarrow> token_store \<Rightarrow> token_store" where
  "ffi_token_set username token store =
     token_set (unwrap_or (from_utf8 username) []) (unwrap_or (from_utf8 token) []) store"

definition ffi_token_save ::
  "ffi_env \<Rightarrow> (string \<Rightarrow> string option) \<Rightarrow> (token_store \<Rightarrow> string option) \<Rightarrow> token_store \<Rightarrow> file_system
    \<Rightarrow> (ffi_error + unit) \<times> file_system" where
  "ffi_token_save F env to_str store fs =
     apfst (map_err (\<lambda>e. FfiError (fe_io_text F e))) (token_store_save to_str store (token_default_path env) fs)"

section \<open>Constructors and fields\<close>

definition ffi_app_id_new :: "u32 \<Rightarrow> app_id" where
  "ffi_app_id_new n = AppId n"

definition ffi_app_id_value :: "app_id \<Rightarrow> u32" where
  "ffi_app_id_value i = app_id_0 i"

definition ffi_depot_id_new :: "u32 \<Rightarrow> depot_id" where
  "ffi_depot_id_new n = DepotId n"

definition ffi_depot_id_value :: "depot_id \<Rightarrow> u32" where
  "ffi_depot_id_value i = depot_id_0 i"

definition ffi_manifest_id_new :: "u64 \<Rightarrow> manifest_id" where
  "ffi_manifest_id_new n = ManifestId n"

definition ffi_manifest_id_value :: "manifest_id \<Rightarrow> u64" where
  "ffi_manifest_id_value i = manifest_id_0 i"

definition ffi_cell_id_new :: "u32 \<Rightarrow> cell_id" where
  "ffi_cell_id_new n = CellId n"

definition ffi_cell_id_value :: "cell_id \<Rightarrow> u32" where
  "ffi_cell_id_value i = cell_id_0 i"

definition ffi_servers_defaults :: "cm_server list" where
  "ffi_servers_defaults = default_cm_servers"

definition ffi_access_token :: "auth_tokens \<Rightarrow> string" where
  "ffi_access_token tokens = tk_access_token tokens"

definition ffi_refresh_token :: "auth_tokens \<Rightarrow> string" where
  "ffi_refresh_token tokens = tk_refresh_token tokens"

definition ffi_access_tokens_len :: "access_token list \<Rightarrow> u32" where
  "ffi_access_tokens_len tokens = ffi_len tokens"

definition ffi_app_infos_len :: "app_info list \<Rightarrow> u32" where
  "ffi_app_infos_len infos = ffi_len infos"

definition ffi_kv_has_data :: "bytes option \<Rightarrow> bool" where
  "ffi_kv_has_data kv \<longleftrightarrow> kv \<noteq> None"

definition ffi_cdn_servers_len :: "cdn_server list \<Rightarrow> u32" where
  "ffi_cdn_servers_len servers = ffi_len servers"

definition ffi_cdn_new :: "network \<Rightarrow> ffi_error + cdn_client" where
  "ffi_cdn_new N = Inr (cdn_new N)"

definition ffi_with_lancache :: "cdn_client \<Rightarrow> cdn_client" where
  "ffi_with_lancache cdn = with_lancache cdn"

definition ffi_chunk_bytes :: "bytes \<Rightarrow> bytes" where
  "ffi_chunk_bytes chunk = chunk"

definition ffi_chunk_len :: "bytes \<Rightarrow> u32" where
  "ffi_chunk_len chunk = ffi_len chunk"

definition ffi_filenames_encrypted :: "depot_manifest \<Rightarrow> bool" where
  "ffi_filenames_encrypted m = dm_filenames_encrypted m"

definition ffi_detect_lancache :: "network \<Rightarrow> bool" where
  "ffi_detect_lancache N = lancache_detect N"

text \<open>
  The caller can go through a list by its length and index as long as the length fits: the
  indices below the length are those of its members.
\<close>

lemma list_get_len:
  assumes "length xs < 2 ^ 32"
  shows "index < ffi_len xs \<longleftrightarrow> list_get xs index \<noteq> None"
proof -
  have "unat (ffi_len xs) = length xs" using assms by (simp add: ffi_len_def unat_of_nat take_bit_nat_eq_self)
  then show ?thesis by (simp add: list_get_def word_less_nat_alt)
qed

end
