(* ===== verification/Ffi_Spec.thy ===== *)
theory Ffi_Spec
  imports Ffi Login_Spec
begin

text \<open>
  The protocol of a client handle of the C interface: an automaton of three states, the
  methods as a simulation of it, and what follows for every session of a caller. Also the
  error codes against those of the library.
\<close>

section \<open>Calls\<close>

datatype ffi_call =
    CallAnonymous cell_id
  | CallWithToken bytes bytes cell_id
  | CallRsaKey bytes
  | CallBegin bytes bytes u64 bytes
  | CallPoll auth_session
  | CallGuard auth_session bytes ffi_guard_type
  | CallTokens "u32 list"
  | CallInfo "access_token list"
  | CallKey depot_id app_id
  | CallServers cell_id
  | CallCode app_id depot_id manifest_id bytes

datatype call_kind = LoginCall | AuthCall | ContentCall

fun kind_of_call :: "ffi_call \<Rightarrow> call_kind" where
  "kind_of_call (CallAnonymous _) = LoginCall"
| "kind_of_call (CallWithToken _ _ _) = LoginCall"
| "kind_of_call (CallRsaKey _) = AuthCall"
| "kind_of_call (CallBegin _ _ _ _) = AuthCall"
| "kind_of_call (CallPoll _) = AuthCall"
| "kind_of_call (CallGuard _ _ _) = AuthCall"
| "kind_of_call _ = ContentCall"

text \<open>A call, its value forgotten.\<close>

definition ffi_outcome :: "('e, 'a, 's) run \<Rightarrow> (bool \<times> 's) option" where
  "ffi_outcome m = map_option (\<lambda>(r, s). (is_ok r, s)) m"

fun ffi_do ::
  "ffi_env \<Rightarrow> 't transport_ops \<Rightarrow> crypto \<Rightarrow> client_codec \<Rightarrow> service_codec \<Rightarrow> bytes \<Rightarrow> ffi_call \<Rightarrow> 't ffi_client
    \<Rightarrow> (bool \<times> 't ffi_client) option" where
  "ffi_do F T C X P random (CallAnonymous cell) h = ffi_outcome (ffi_login_anonymous F T C X random cell h)"
| "ffi_do F T C X P random (CallWithToken user token cell) h = ffi_outcome (ffi_login_with_token F T C X random user token cell h)"
| "ffi_do F T C X P random (CallRsaKey user) h = ffi_outcome (ffi_get_rsa_public_key F T C X P random user h)"
| "ffi_do F T C X P random (CallBegin user pw time device) h =
     ffi_outcome (ffi_begin_auth_credentials F T C X P random user pw time device h)"
| "ffi_do F T C X P random (CallPoll session) h = ffi_outcome (ffi_poll_auth F T C X P random session h)"
| "ffi_do F T C X P random (CallGuard session code ty) h = ffi_outcome (ffi_submit_guard_code F T C X P random session code ty h)"
| "ffi_do F T C X P random (CallTokens apps) h = ffi_outcome (ffi_get_access_tokens F T C X P random apps h)"
| "ffi_do F T C X P random (CallInfo tokens) h = ffi_outcome (ffi_get_product_info F T C X P random tokens h)"
| "ffi_do F T C X P random (CallKey depot app) h = ffi_outcome (ffi_get_depot_key F T C X P random depot app h)"
| "ffi_do F T C X P random (CallServers cell) h = ffi_outcome (ffi_get_cdn_servers F T C X P random cell h)"
| "ffi_do F T C X P random (CallCode app depot m branch) h =
     ffi_outcome (ffi_get_manifest_request_code F T C X P random app depot m branch h)"

section \<open>The automaton\<close>

datatype handle_state = HConsumed | HEncrypted | HLoggedIn

definition state_of :: "'t ffi_client \<Rightarrow> handle_state" where
  "state_of h = (case h of None \<Rightarrow> HConsumed | Some (FEncrypted _) \<Rightarrow> HEncrypted | Some (FLoggedIn _) \<Rightarrow> HLoggedIn)"

text \<open>The next state for a kind of call that succeeded or not, if that can happen.\<close>

fun handle_spec :: "handle_state \<Rightarrow> call_kind \<Rightarrow> bool \<Rightarrow> handle_state option" where
  "handle_spec HEncrypted LoginCall True = Some HLoggedIn"
| "handle_spec HEncrypted AuthCall True = Some HEncrypted"
| "handle_spec HLoggedIn ContentCall True = Some HLoggedIn"
| "handle_spec s k True = None"
| "handle_spec s LoginCall False = Some HConsumed"
| "handle_spec s k False = Some s"

lemma state_of_simps [simp]:
  "state_of None = HConsumed" "state_of (Some (FEncrypted c)) = HEncrypted" "state_of (Some (FLoggedIn c)) = HLoggedIn"
  by (simp_all add: state_of_def)

lemma state_of_iff:
  "state_of h = HConsumed \<longleftrightarrow> h = None" "state_of h = HLoggedIn \<longleftrightarrow> (\<exists>c. h = Some (FLoggedIn c))"
  by (auto simp: state_of_def split: option.splits ffi_inner.splits)

lemma on_encrypted_spec:
  assumes "ffi_outcome (on_encrypted h work) = Some (ok, h')"
  shows "handle_spec (state_of h) AuthCall ok = Some (state_of h')"
  using assms by (cases ok) (auto simp: ffi_outcome_def on_encrypted_def as_encrypted_def split: option.splits ffi_inner.splits)

lemma on_logged_in_spec:
  assumes "ffi_outcome (on_logged_in h work) = Some (ok, h')"
  shows "handle_spec (state_of h) ContentCall ok = Some (state_of h')"
  using assms by (cases ok) (auto simp: ffi_outcome_def on_logged_in_def as_logged_in_def split: option.splits ffi_inner.splits)

lemma finish_login_spec:
  assumes "ffi_outcome (ffi_finish_login F T C X random msg c) = Some (ok, h')"
  shows "handle_spec HEncrypted LoginCall ok = Some (state_of h')"
proof (cases "login T C X random msg c")
  case (Some p)
  with assms show ?thesis
    by (cases p; cases "fst p") (auto simp: ffi_outcome_def ffi_finish_login_def)
qed (use assms in \<open>simp add: ffi_outcome_def ffi_finish_login_def\<close>)

lemma login_call_spec:
  assumes "ffi_outcome (case ffi_take_encrypted h of (Inl e, h1) \<Rightarrow> Some (Inl e, h1) | (Inr c, h1) \<Rightarrow> work c h1) = Some (ok, h')"
    and "\<And>c. h = Some (FEncrypted c) \<Longrightarrow> ffi_outcome (work c None) = Some (ok, h') \<Longrightarrow>
        handle_spec HEncrypted LoginCall ok = Some (state_of h')"
  shows "handle_spec (state_of h) LoginCall ok = Some (state_of h')"
  using assms by (auto simp: ffi_take_encrypted_def ffi_outcome_def split: option.splits ffi_inner.splits)

text \<open>Every call follows the automaton.\<close>

lemma ffi_do_spec:
  assumes "ffi_do F T C X P random call h = Some (ok, h')"
  shows "handle_spec (state_of h) (kind_of_call call) ok = Some (state_of h')"
proof (cases call)
  case (CallAnonymous cell)
  from assms show ?thesis
    by (simp add: CallAnonymous ffi_login_anonymous_def) (erule login_call_spec, erule finish_login_spec)
next
  case (CallWithToken user token cell)
  have *: "handle_spec HEncrypted LoginCall ok = Some (state_of h')"
    if "ffi_outcome (case ffi_str F user of
             Inl e \<Rightarrow> Some (Inl e, None)
           | Inr username \<Rightarrow>
               (case ffi_str F token of
                  Inl e \<Rightarrow> Some (Inl e, None)
                | Inr token \<Rightarrow> ffi_finish_login F T C X random (g username token) c)) = Some (ok, h')" for g c
    using that finish_login_spec by (cases "ffi_str F user"; cases "ffi_str F token") (fastforce simp: ffi_outcome_def)+
  from assms show ?thesis
    by (simp add: CallWithToken ffi_login_with_token_def) (erule login_call_spec, erule *)
qed (use assms in \<open>auto simp: ffi_get_rsa_public_key_def ffi_begin_auth_credentials_def ffi_poll_auth_def
    ffi_submit_guard_code_def ffi_get_access_tokens_def ffi_get_product_info_def ffi_get_depot_key_def
    ffi_get_cdn_servers_def ffi_get_manifest_request_code_def intro: on_encrypted_spec on_logged_in_spec\<close>)

section \<open>Sessions\<close>

text \<open>What a caller sees of a session: the kind of each call and whether it succeeded.\<close>

inductive session ::
  "ffi_env \<Rightarrow> 't transport_ops \<Rightarrow> crypto \<Rightarrow> client_codec \<Rightarrow> service_codec
    \<Rightarrow> 't ffi_client \<Rightarrow> (call_kind \<times> bool) list \<Rightarrow> 't ffi_client \<Rightarrow> bool"
  for F T C X P where
  start: "session F T C X P h [] h"
| call: "session F T C X P h tr h1 \<Longrightarrow> ffi_do F T C X P random c h1 = Some (ok, h2)
    \<Longrightarrow> session F T C X P h (tr @ [(kind_of_call c, ok)]) h2"

definition accepted :: "(call_kind \<times> bool) list \<Rightarrow> call_kind list" where
  "accepted tr = map fst (filter snd tr)"

definition only :: "call_kind \<Rightarrow> call_kind list \<Rightarrow> bool" where
  "only k ks \<longleftrightarrow> set ks \<subseteq> {k}"

lemma only_simps [simp]: "only k []" "only k (x # xs) \<longleftrightarrow> x = k \<and> only k xs" "only k (xs @ ys) \<longleftrightarrow> only k xs \<and> only k ys"
  by (auto simp: only_def)

lemma accepted_simps [simp]:
  "accepted [] = []" "accepted (tr @ [(k, ok)]) = accepted tr @ (if ok then [k] else [])"
  by (simp_all add: accepted_def)

text \<open>The calls that were accepted, by the state they have led to.\<close>

definition history :: "handle_state \<Rightarrow> call_kind list \<Rightarrow> bool" where
  "history s ks \<longleftrightarrow>
     (case s of
        HEncrypted \<Rightarrow> only AuthCall ks
      | HLoggedIn \<Rightarrow> \<exists>auth content. ks = auth @ LoginCall # content \<and> only AuthCall auth \<and> only ContentCall content
      | HConsumed \<Rightarrow> only AuthCall ks
          \<or> (\<exists>auth content. ks = auth @ LoginCall # content \<and> only AuthCall auth \<and> only ContentCall content))"

lemma history_step:
  assumes "handle_spec s k ok = Some s'" "history s ks"
  shows "history s' (ks @ (if ok then [k] else []))"
proof -
  have "\<exists>auth content'. ks @ [ContentCall] = auth @ LoginCall # content' \<and> only AuthCall auth \<and> only ContentCall content'"
    if "ks = auth @ LoginCall # content" "only AuthCall auth" "only ContentCall content" for auth content
    using that by (intro exI [of _ auth] exI [of _ "content @ [ContentCall]"]) simp
  with assms show ?thesis
    by (cases s; cases k; cases ok) (auto simp: history_def intro: exI [of _ ks] exI [of _ "[]"])
qed

lemma history_order:
  assumes "history s ks"
  shows "\<exists>auth content. only AuthCall auth \<and> only ContentCall content \<and> (ks = auth \<or> ks = auth @ LoginCall # content)"
proof -
  have "\<exists>content. only ContentCall content" by (rule exI [of _ "[]"]) simp
  with assms show ?thesis unfolding history_def by (cases s) auto
qed

lemma consumed_step:
  assumes "handle_spec s k ok = Some s'"
  shows "s' = HConsumed \<longleftrightarrow> s = HConsumed \<or> (k, ok) = (LoginCall, False)"
  using assms by (cases s; cases k; cases ok) auto

section \<open>Properties\<close>

text \<open>
  C16: A caller's session follows one protocol, whatever it calls when: on a handle from
  \<^verbatim>\<open>connect\<close> the calls that succeed are authentication calls, then at most one login, then
  content calls; and a login that fails, also one that is only called too late, leaves the
  handle useless for good.
\<close>

theorem session_order:
  assumes "session F T C X P (Some (FEncrypted c)) tr h"
  shows "(\<exists>auth content. only AuthCall auth \<and> only ContentCall content
           \<and> (accepted tr = auth \<or> accepted tr = auth @ LoginCall # content))
    \<and> (h = None \<longleftrightarrow> (LoginCall, False) \<in> set tr)"
proof -
  have "history (state_of h) (accepted tr) \<and> (h = None \<longleftrightarrow> (LoginCall, False) \<in> set tr)"
    using assms
  proof (induction "Some (FEncrypted c)" tr h rule: session.induct)
    case start
    then show ?case by (simp add: history_def)
  next
    case (call tr h1 random c ok h2)
    note next_state = ffi_do_spec [OF call(3)]
    from history_step [OF next_state] consumed_step [OF next_state] call(2) show ?case by (auto simp: state_of_iff(1))
  qed
  with history_order show ?thesis by blast
qed

text \<open>
  A client with the logon response on its connection: after the login a request fails as the
  connection ends, and a second login ends the session.
\<close>

definition sample_ffi_env :: ffi_env where
  "sample_ffi_env =
     \<lparr>fe_steam_text = (\<lambda>_. []), fe_manifest_text = (\<lambda>_. []), fe_io_text = (\<lambda>_. []), fe_utf8_text = (\<lambda>_. []),
      fe_base64 = (\<lambda>_. []), fe_enc_logon = (\<lambda>_. []), fe_enc_credentials = (\<lambda>_. [])\<rparr>"

lemmas [code] = login_loop.simps

theorem session_order_witness:
  "\<exists>h. session sample_ffi_env tcp_ops plain_crypto sample_client_codec sample_service_codec
       (Some (FEncrypted (sample_client (sample_packet EMSG_CLIENT_LOG_ON_RESPONSE [1]))))
       [(LoginCall, True), (LoginCall, False)] h \<and> h = None"
proof -
  let ?h = "Some (FEncrypted (sample_client (sample_packet EMSG_CLIENT_LOG_ON_RESPONSE [1])))"
  let ?do = "ffi_do sample_ffi_env tcp_ops plain_crypto sample_client_codec sample_service_codec [7, 8, 9]"
  have ok: "map_option (\<lambda>(ok, h). (ok, state_of h)) (?do (CallAnonymous (CellId 0)) ?h) = Some (True, HLoggedIn)"
    by code_simp
  then obtain c where c: "?do (CallAnonymous (CellId 0)) ?h = Some (True, Some (FLoggedIn c))"
    by (auto simp: state_of_iff(2))
  have again: "?do (CallAnonymous (CellId 0)) (Some (FLoggedIn c)) = Some (False, None)"
    by (simp add: ffi_outcome_def ffi_login_anonymous_def ffi_take_encrypted_def)
  from session.call [OF session.call [OF session.start c] again]
  have run: "session sample_ffi_env tcp_ops plain_crypto sample_client_codec sample_service_codec ?h
      [(LoginCall, True), (LoginCall, False)] None"
    by simp
  with session_order [OF run] show ?thesis by auto
qed

text \<open>The error that stands for a result of the library.\<close>

definition ffi_of_result :: "eresult_error + unit \<Rightarrow> ffi_steam_error" where
  "ffi_of_result r =
     (case r of
        Inr _ \<Rightarrow> FE_Unknown
      | Inl e \<Rightarrow>
          (case e of
             EInvalid \<Rightarrow> FE_Invalid | EFail \<Rightarrow> FE_Fail | ENoConnection \<Rightarrow> FE_NoConnection
           | EInvalidPassword \<Rightarrow> FE_InvalidPassword | ELoggedInElsewhere \<Rightarrow> FE_LoggedInElsewhere
           | EInvalidProtocolVer \<Rightarrow> FE_InvalidProtocolVer | EInvalidParam \<Rightarrow> FE_InvalidParam
           | EFileNotFound \<Rightarrow> FE_FileNotFound | EBusy \<Rightarrow> FE_Busy | EInvalidState \<Rightarrow> FE_InvalidState
           | EAccessDenied \<Rightarrow> FE_AccessDenied | ETimeout \<Rightarrow> FE_Timeout | EBanned \<Rightarrow> FE_Banned
           | EAccountNotFound \<Rightarrow> FE_AccountNotFound | EServiceUnavailable \<Rightarrow> FE_ServiceUnavailable
           | ENotLoggedOn \<Rightarrow> FE_NotLoggedOn | EExpired \<Rightarrow> FE_Expired
           | ERateLimitExceeded \<Rightarrow> FE_RateLimitExceeded | ETwoFactorRequired \<Rightarrow> FE_TwoFactorRequired
           | _ \<Rightarrow> FE_Unknown))"

text \<open>
  The error codes of the interface are those of the library: a code has the name in the
  interface that it has in the library, where the interface has that name, and the rest,
  success included, is unknown.
\<close>

theorem from_eresult_agrees: "from_eresult code = ffi_of_result (from_i32 code)"
  by (simp add: from_eresult_def from_i32_def ffi_eresult_arms_def eresult_arms_def ffi_of_result_def)

end
