(* ===== verification/Interleave.thy ===== *)
theory Interleave
  imports Download_Props
begin

text \<open>
  The file tasks of \<^verbatim>\<open>crates/steam-client/src/download.rs\<close> as they run side by side: every task is
  the list of the changes it makes to the disk, and a schedule says whose next change is made. Shows that a
  job that is killed at any point has no installed file damaged and can be taken up again, and that every
  schedule ends like the tasks run one after the other, as \<^verbatim>\<open>Download.thy\<close> has them.

  A task reads the disk when it begins: it reads its installed file and its staging file only, of
  which nobody else changes either and it changes the first one only at its end. A write is done
  when \<^verbatim>\<open>write_all\<close> returns. Any change but that of the mode can fail, after a part of it. Events are left out.
\<close>

section \<open>Changes to the disk\<close>

datatype disk_op =
    CreateFile string
  | SetLen string nat
  | WriteAt string nat bytes
  | RenameFile string string
  | MakeExecutable string

fun apply_op :: "disk_op \<Rightarrow> file_system \<Rightarrow> file_system" where
  "apply_op (CreateFile p) fs = write_file p [] fs"
| "apply_op (SetLen p n) fs =
     (case fs_files fs p of
        None \<Rightarrow> fs
      | Some b \<Rightarrow> write_file p (take n b @ replicate (n - length b) 0) fs)"
| "apply_op (WriteAt p off d) fs =
     (case fs_files fs p of None \<Rightarrow> fs | Some b \<Rightarrow> write_file p (write_at off d b) fs)"
| "apply_op (RenameFile p q) fs = (case rename_file p q fs of Inl e \<Rightarrow> fs | Inr fs' \<Rightarrow> fs')"
| "apply_op (MakeExecutable p) fs =
     (if file_exists fs p then fs\<lparr>fs_executable := insert p (fs_executable fs)\<rparr> else fs)"

section \<open>The changes of a file task\<close>

text \<open>Delta reuse: one write for each chunk that the old file has.\<close>

definition copy_op :: "string \<Rightarrow> manifest_chunk list \<Rightarrow> bytes \<Rightarrow> manifest_chunk \<Rightarrow> disk_op option" where
  "copy_op path old_chunks old_content chunk =
     Option.bind (mc_id chunk) (\<lambda>chunk_id.
     Option.bind (old_match old_chunks chunk_id) (\<lambda>old_chunk.
       (case (mc_offset old_chunk, mc_offset chunk, mc_uncompressed_size chunk) of
          (Some old_offset, Some new_offset, Some sz) \<Rightarrow>
            map_option (WriteAt path (unat new_offset)) (read_at (unat old_offset) (unat sz) old_content)
        | _ \<Rightarrow> None)))"

definition copy_ops :: "'r depot_job \<Rightarrow> file_task \<Rightarrow> file_system \<Rightarrow> disk_op list" where
  "copy_ops job task fs =
     (case (ft_old_chunks task, fs_files fs (ft_path task)) of
        (Some old_chunks, Some old_content) \<Rightarrow>
          List.map_filter (copy_op (staging_path job task) old_chunks old_content) (ft_chunks task)
      | _ \<Rightarrow> [])"

text \<open>The write of a chunk task.\<close>

fun chunk_op :: "string \<Rightarrow> manifest_chunk \<times> chunk_id \<times> (box_error + bytes) \<Rightarrow> disk_op option" where
  "chunk_op path (chunk, chunk_id, Inl e) = None"
| "chunk_op path (chunk, chunk_id, Inr decompressed) =
     map_option (\<lambda>off. WriteAt path (unat off) decompressed) (mc_offset chunk)"

text \<open>Behind the opening of the staging file: copies, chunks in the order of their tasks, rename.\<close>

definition fill_ops ::
  "crypto \<Rightarrow> ('a, 'e) codecs \<Rightarrow> 'r depot_job \<Rightarrow> (nat \<Rightarrow> nat list) \<Rightarrow> file_task \<Rightarrow> chunk_id set \<Rightarrow> file_system
    \<Rightarrow> (box_error + unit) \<times> disk_op list" where
  "fill_ops C Z job order task valid_chunks fs =
     (let fetches = fetches_of job task valid_chunks fs;
          results = map (\<lambda>(i, chunk, chunk_id). (chunk, chunk_id, chunk_task C Z job i chunk chunk_id))
                      (enumerate 0 fetches);
          writes = copy_ops job task fs
            @ List.map_filter (chunk_op (staging_path job task)) (map ((!) results) (order (length fetches)))
      in case first_error (map (\<lambda>(_, _, res). res) results) of
           Inl e \<Rightarrow> (Inl e, writes)
         | Inr _ \<Rightarrow> (Inr (), writes @ [RenameFile (staging_path job task) (ft_path task)]))"

definition file_ops ::
  "crypto \<Rightarrow> ('a, 'e) codecs \<Rightarrow> 'r depot_job \<Rightarrow> (nat \<Rightarrow> nat list) \<Rightarrow> file_task \<Rightarrow> file_system
    \<Rightarrow> (box_error + unit) \<times> disk_op list" where
  "file_ops C Z job order task fs =
     (case file_has_valid_chunks fs (ft_path task) (ft_size task) (ft_chunks task) of
        Inl e \<Rightarrow> (Inl e, [])
      | Inr True \<Rightarrow> (Inr (), [])
      | Inr False \<Rightarrow>
          if file_has_correct_size fs (staging_path job task) (ft_size task) then
            (case verify_chunks fs (staging_path job task) (ft_chunks task) of
               Inl e \<Rightarrow> (Inl e, [])
             | Inr bad \<Rightarrow>
                 let valid_chunks = valid_ids bad (ft_chunks task)
                 in if card valid_chunks = length (ft_chunks task)
                    then (Inr (), [RenameFile (staging_path job task) (ft_path task)])
                    else fill_ops C Z job order task valid_chunks fs)
          else
            let opens = CreateFile (staging_path job task)
                  # (case ft_size task of None \<Rightarrow> [] | Some sz \<Rightarrow> [SetLen (staging_path job task) (unat sz)])
            in case fill_ops C Z job order task {} (fold apply_op opens fs) of (r, ops) \<Rightarrow> (r, opens @ ops))"

text \<open>The spawned task.\<close>

definition task_ops ::
  "crypto \<Rightarrow> ('a, 'e) codecs \<Rightarrow> 'r depot_job \<Rightarrow> (nat \<Rightarrow> nat list) \<Rightarrow> file_task \<Rightarrow> file_system
    \<Rightarrow> (box_error + unit) \<times> disk_op list" where
  "task_ops C Z job order task fs =
     (case file_ops C Z job order task fs of
        (Inl e, ops) \<Rightarrow> (Inl e, ops)
      | (Inr _, ops) \<Rightarrow>
          (Inr (), ops @ (if (case ft_flags task of None \<Rightarrow> False | Some f \<Rightarrow> is_executable (DepotFileFlags f))
                          then [MakeExecutable (ft_path task)] else [])))"

section \<open>Tasks side by side\<close>

text \<open>
  A task whose disk has failed goes on with writes of its other chunk tasks, and ends with the error.
\<close>

datatype task_state =
    Waiting
  | Writing "disk_op list" "box_error + unit"
  | Finished "box_error + unit"
  | Failing "disk_op list" box_error

definition task_turn ::
  "crypto \<Rightarrow> ('a, 'e) codecs \<Rightarrow> 'r depot_job \<Rightarrow> (nat \<Rightarrow> nat \<Rightarrow> nat list) \<Rightarrow> file_task list \<Rightarrow> nat
    \<Rightarrow> task_state list \<times> file_system \<Rightarrow> task_state list \<times> file_system" where
  "task_turn C Z job chunk_order tasks i st =
     (case st of (states, fs) \<Rightarrow>
        if i < length states then
          (case states ! i of
             Waiting \<Rightarrow>
               (case task_ops C Z job (chunk_order i) (tasks ! i) fs of (r, ops) \<Rightarrow> (states[i := Writing ops r], fs))
           | Writing [] r \<Rightarrow> (states[i := Finished r], fs)
           | Writing (op # ops) r \<Rightarrow> (states[i := Writing ops r], apply_op op fs)
           | Failing (op # ops) e \<Rightarrow> (states[i := Failing ops e], apply_op op fs)
           | _ \<Rightarrow> (states, fs))
        else (states, fs))"

text \<open>
  A fault of the disk in the next change of task \<open>i\<close>, of which \<open>n\<close> bytes are still written. The later
  writes \<open>keep\<close> selects still happen: those of other chunk tasks do, those behind a failed copy do not. The
  mode of a file is always set (its failure is only logged).
\<close>

fun is_write :: "disk_op \<Rightarrow> bool" where
  "is_write (WriteAt p off d) = True"
| "is_write op = False"

fun is_chmod :: "disk_op \<Rightarrow> bool" where
  "is_chmod (MakeExecutable p) = True"
| "is_chmod op = False"

fun partial_op :: "nat \<Rightarrow> disk_op \<Rightarrow> file_system \<Rightarrow> file_system" where
  "partial_op n (WriteAt p off d) fs = apply_op (WriteAt p off (take n d)) fs"
| "partial_op n op fs = fs"

definition task_fault ::
  "nat \<Rightarrow> box_error \<Rightarrow> nat \<Rightarrow> (disk_op \<Rightarrow> bool) \<Rightarrow> task_state list \<times> file_system \<Rightarrow> task_state list \<times> file_system" where
  "task_fault i e n keep st =
     (case st of (states, fs) \<Rightarrow>
        if i < length states then
          (case states ! i of
             Waiting \<Rightarrow> (states[i := Failing [] e], fs)
           | Writing (op # ops) r \<Rightarrow>
               if is_chmod op then (states, fs)
               else (states[i := Failing (filter (\<lambda>op. is_write op \<and> keep op) ops) e], partial_op n op fs)
           | Failing (op # ops) e' \<Rightarrow> (states[i := Failing ops e'], partial_op n op fs)
           | _ \<Rightarrow> (states, fs))
        else (states, fs))"

text \<open>A schedule: whose turn it is, as long as the process lives.\<close>

definition interleave ::
  "crypto \<Rightarrow> ('a, 'e) codecs \<Rightarrow> 'r depot_job \<Rightarrow> (nat \<Rightarrow> nat \<Rightarrow> nat list) \<Rightarrow> file_task list \<Rightarrow> nat list
    \<Rightarrow> file_system \<Rightarrow> task_state list \<times> file_system" where
  "interleave C Z job chunk_order tasks schedule fs =
     fold (task_turn C Z job chunk_order tasks) schedule (replicate (length tasks) Waiting, fs)"

text \<open>The same with faults of the disk in between.\<close>

datatype disk_event = Turn nat | Fault nat box_error nat "disk_op \<Rightarrow> bool"

fun disk_turn ::
  "crypto \<Rightarrow> ('a, 'e) codecs \<Rightarrow> 'r depot_job \<Rightarrow> (nat \<Rightarrow> nat \<Rightarrow> nat list) \<Rightarrow> file_task list \<Rightarrow> disk_event
    \<Rightarrow> task_state list \<times> file_system \<Rightarrow> task_state list \<times> file_system" where
  "disk_turn C Z job chunk_order tasks (Turn i) st = task_turn C Z job chunk_order tasks i st"
| "disk_turn C Z job chunk_order tasks (Fault i e n keep) st = task_fault i e n keep st"

definition interleave_faulty ::
  "crypto \<Rightarrow> ('a, 'e) codecs \<Rightarrow> 'r depot_job \<Rightarrow> (nat \<Rightarrow> nat \<Rightarrow> nat list) \<Rightarrow> file_task list \<Rightarrow> disk_event list
    \<Rightarrow> file_system \<Rightarrow> task_state list \<times> file_system" where
  "interleave_faulty C Z job chunk_order tasks schedule fs =
     fold (disk_turn C Z job chunk_order tasks) schedule (replicate (length tasks) Waiting, fs)"

lemma interleave_no_fault:
  "interleave C Z job chunk_order tasks schedule fs = interleave_faulty C Z job chunk_order tasks (map Turn schedule) fs"
proof -
  have "disk_turn C Z job chunk_order tasks \<circ> Turn = task_turn C Z job chunk_order tasks" by (simp add: fun_eq_iff)
  then show ?thesis by (simp add: interleave_def interleave_faulty_def fold_map)
qed

text \<open>
  The job with its tasks side by side, on a disk without faults. When the schedule ends before all tasks have, the process has been
  killed, or the job dropped, in the middle: there is no result.
\<close>

fun task_outcome :: "task_state \<Rightarrow> (box_error + unit) option" where
  "task_outcome (Finished r) = Some r"
| "task_outcome s = None"

definition download_scheduled ::
  "crypto \<Rightarrow> ('a, 'e) codecs \<Rightarrow> ('r \<Rightarrow> string \<Rightarrow> bool) \<Rightarrow> 'r depot_job \<Rightarrow> nat list
    \<Rightarrow> (nat \<Rightarrow> nat \<Rightarrow> nat list) \<Rightarrow> depot_manifest \<Rightarrow> file_system \<Rightarrow> (box_error + unit) option \<times> file_system" where
  "download_scheduled C Z is_match job schedule chunk_order manifest fs =
     (let pl = plan_files is_match job fs manifest
      in case interleave C Z job chunk_order (pl_tasks pl) schedule fs of
           (states, fs) \<Rightarrow>
             (case those (map task_outcome states) of
                None \<Rightarrow> (None, fs)
              | Some outcomes \<Rightarrow>
                  (case await_tasks (dj_depot_id job) (pl_completed pl) (length (dm_files manifest)) outcomes of
                     (Inl e, progress) \<Rightarrow> (Some (Inl e), fs)
                   | (Inr _, progress) \<Rightarrow>
                       (Some (Inr ()),
                        case dj_previous_manifest job of
                          None \<Rightarrow> fs
                        | Some old \<Rightarrow> fold (delete_removed (dj_install_dir job) manifest) (dm_files old) fs))))"

section \<open>The changes make up the task\<close>

lemma write_file_write_file [simp]: "write_file p b (write_file p a fs) = write_file p b fs"
  by (simp add: write_file_def)

lemma write_file_same [simp]: "fs_files fs p = Some b \<Longrightarrow> write_file p b fs = fs"
  by (simp add: write_file_def fun_upd_idem)

lemma write_file_read [simp]: "fs_files (write_file p b fs) p = Some b"
  by (simp add: write_file_def)

lemma fold_copy_op:
  "fold apply_op (List.map_filter (copy_op p ocs old) cs) (write_file p b fs)
     = write_file p (fold (copy_chunk ocs old) cs b) fs"
proof (induction cs arbitrary: b)
  case Nil
  then show ?case by (simp add: map_filter_simps)
next
  case (Cons c cs)
  have "copy_op p ocs old c = None \<and> copy_chunk ocs old c b = b
      \<or> (\<exists>off d. copy_op p ocs old c = Some (WriteAt p off d) \<and> copy_chunk ocs old c b = write_at off d b)"
    by (auto simp: copy_op_def copy_chunk_def split: option.split)
  with Cons.IH show ?case by (auto simp: map_filter_simps)
qed

lemma fold_chunk_op:
  "fold apply_op (List.map_filter (chunk_op p) ts) (write_file p b fs)
     = write_file p (fst (fold (finish_chunk dep) ts (b, ev))) fs"
proof (induction ts arbitrary: b ev)
  case Nil
  then show ?case by (simp add: map_filter_simps)
next
  case (Cons t ts)
  obtain c cid r where t: "t = (c, cid, r)" by (cases t)
  show ?case
  proof (cases r)
    case (Inl e)
    with t Cons.IH show ?thesis by (simp add: map_filter_simps finish_chunk_def)
  next
    case (Inr d)
    with t Cons.IH show ?thesis
      by (cases "mc_offset c") (simp_all add: map_filter_simps finish_chunk_def write_chunk_def)
  qed
qed

lemma fill_ops_correct:
  assumes "fs_files fs (staging_path job task) = Some b"
    and "fill_staging C Z job (order (length (fetches_of job task valid fs))) task valid b fs = (r, ev, fs')"
  shows "\<exists>ops. fill_ops C Z job order task valid fs = (r, ops) \<and> fold apply_op ops fs = fs'"
proof -
  let ?s = "staging_path job task" and ?o = "order (length (fetches_of job task valid fs))"
  let ?rs = "chunk_results C Z job (fetches_of job task valid fs)"
  let ?writes = "copy_ops job task fs @ List.map_filter (chunk_op ?s) (map ((!) ?rs) ?o)"
  have copied: "fold apply_op (copy_ops job task fs) fs = write_file ?s
      (case (ft_old_chunks task, fs_files fs (ft_path task)) of
         (Some ocs, Some old) \<Rightarrow> fold (copy_chunk ocs old) (ft_chunks task) b | _ \<Rightarrow> b) fs"
    using fold_copy_op [of ?s _ _ _ b fs] assms(1) by (simp add: copy_ops_def split: option.split)
  have "fold apply_op ?writes fs = write_file ?s (fst (staged C Z job ?o task valid b fs)) fs"
    unfolding fold_append o_apply copied staged_def by (rule fold_chunk_op)
  with assms(2) show ?thesis
    by (auto simp: fill_ops_def fill_staging_alt chunk_results_def [symmetric] Let_def rename_file_def split: sum.splits)
qed

lemma file_ops_correct:
  assumes "download_file C Z job order task fs = (r, ev, fs')"
  shows "\<exists>ops. file_ops C Z job order task fs = (r, ops) \<and> fold apply_op ops fs = fs'"
proof (cases "file_has_valid_chunks fs (ft_path task) (ft_size task) (ft_chunks task)")
  case (Inl e)
  with assms show ?thesis by (simp add: download_file_def file_ops_def)
next
  case (Inr v)
  let ?s = "staging_path job task"
  consider (valid) v | (resume) "\<not> v" "file_has_correct_size fs ?s (ft_size task)"
    | (fresh) "\<not> v" "\<not> file_has_correct_size fs ?s (ft_size task)" by blast
  then show ?thesis
  proof cases
    case valid
    with Inr assms show ?thesis by (simp add: download_file_def file_ops_def)
  next
    case resume
    then obtain b where b: "fs_files fs ?s = Some b"
      by (auto simp: file_has_correct_size_def split: option.splits)
    then obtain bad where bad: "verify_chunks fs ?s (ft_chunks task) = Inr bad" by (simp add: verify_chunks_def)
    show ?thesis
    proof (cases "card (valid_ids bad (ft_chunks task)) = length (ft_chunks task)")
      case True
      with Inr resume b bad assms show ?thesis
        by (auto simp: download_file_def file_ops_def Let_def rename_file_def)
    next
      case False
      with Inr resume b bad assms
      have "fill_staging C Z job (order (length (fetches_of job task (valid_ids bad (ft_chunks task)) fs))) task
          (valid_ids bad (ft_chunks task)) b fs = (r, ev, fs')"
        by (simp add: download_file_def Let_def)
      from fill_ops_correct [where order = order, OF b this] False Inr resume bad show ?thesis
        by (simp add: file_ops_def Let_def)
    qed
  next
    case fresh
    define b where "b = (case ft_size task of None \<Rightarrow> [] | Some sz \<Rightarrow> replicate (unat sz) (0 :: 8 word))"
    let ?fs = "write_file ?s b fs"
    define opens where "opens = CreateFile ?s
      # (case ft_size task of None \<Rightarrow> [] | Some sz \<Rightarrow> [SetLen ?s (unat sz)])"
    have opened: "fold apply_op opens fs = ?fs"
      by (simp add: opens_def b_def split: option.split)
    from fresh Inr assms
    have "fill_staging C Z job (order (length (fetches_of job task {} ?fs))) task {} b ?fs = (r, ev, fs')"
      by (simp add: download_file_def Let_def b_def)
    from fill_ops_correct [where order = order, OF write_file_read this] obtain ops
      where "fill_ops C Z job order task {} ?fs = (r, ops)" "fold apply_op ops ?fs = fs'" by blast
    with fresh Inr show ?thesis
      by (simp add: file_ops_def Let_def opens_def [symmetric] opened)
  qed
qed

lemma task_ops_correct:
  assumes "run_file_task C Z job order task fs = (r, ev, fs')"
  shows "\<exists>ops. task_ops C Z job order task fs = (r, ops) \<and> fold apply_op ops fs = fs'"
proof -
  obtain r1 ev1 fs1 where run: "download_file C Z job order task fs = (r1, ev1, fs1)"
    by (cases "download_file C Z job order task fs")
  from file_ops_correct [OF run] obtain ops
    where "file_ops C Z job order task fs = (r1, ops)" "fold apply_op ops fs = fs1" by blast
  with run assms show ?thesis
    by (cases r1) (auto simp: task_ops_def run_file_task_def set_executable_if_needed_def split: option.split)
qed

section \<open>A task keeps to its own two paths\<close>

text \<open>What there is at a path, and two disks that are equal at some paths.\<close>

definition view :: "file_system \<Rightarrow> string \<Rightarrow> bytes option \<times> bool" where
  "view fs p = (fs_files fs p, p \<in> fs_executable fs)"

definition agree :: "string set \<Rightarrow> file_system \<Rightarrow> file_system \<Rightarrow> bool" where
  "agree P fs fs' \<longleftrightarrow> (\<forall>p \<in> P. view fs p = view fs' p)"

lemma agree_refl [simp]: "agree P fs fs"
  by (simp add: agree_def)

lemma agree_trans: "agree P a b \<Longrightarrow> agree P b c \<Longrightarrow> agree P a c"
  by (simp add: agree_def)

lemma agree_files: "agree P fs fs' \<Longrightarrow> p \<in> P \<Longrightarrow> fs_files fs p = fs_files fs' p"
  by (simp add: agree_def view_def)

lemma agree_UNIV: "agree UNIV fs fs' \<Longrightarrow> fs = fs'"
  by (cases fs; cases fs') (auto simp: agree_def view_def fun_eq_iff)

fun op_paths :: "disk_op \<Rightarrow> string set" where
  "op_paths (CreateFile p) = {p}"
| "op_paths (SetLen p n) = {p}"
| "op_paths (WriteAt p off d) = {p}"
| "op_paths (RenameFile p q) = {p, q}"
| "op_paths (MakeExecutable p) = {p}"

lemma view_write_file: "view (write_file q b fs) p = (if p = q then (Some b, snd (view fs p)) else view fs p)"
  by (simp add: view_def write_file_def)

lemma view_rename_file:
  "rename_file p q fs = Inr fs' \<Longrightarrow> view fs' x =
     (if x = q then view fs p else if x = p then (None, False) else view fs x)"
  by (auto simp: view_def rename_file_def split: option.splits if_splits)

lemma apply_op_frame: "p \<notin> op_paths op \<Longrightarrow> view (apply_op op fs) p = view fs p"
proof (cases op)
  case (MakeExecutable q)
  then show "p \<notin> op_paths op \<Longrightarrow> ?thesis" by (simp add: view_def)
qed (auto simp: view_write_file view_rename_file split: option.split sum.split)

lemma apply_ops_frame: "(\<And>op. op \<in> set ops \<Longrightarrow> p \<notin> op_paths op) \<Longrightarrow> view (fold apply_op ops fs) p = view fs p"
  by (induction ops arbitrary: fs) (simp_all add: apply_op_frame)

lemma rename_file_agree:
  assumes "view fs p = view fs' p"
  shows "(\<exists>e. rename_file p q fs = Inl e \<and> rename_file p q fs' = Inl e)
    \<or> (\<exists>a b. rename_file p q fs = Inr a \<and> rename_file p q fs' = Inr b)"
  using assms by (auto simp: rename_file_def view_def split: option.split)

lemma apply_op_agree:
  assumes "agree P fs fs'" "op_paths op \<subseteq> P"
  shows "agree P (apply_op op fs) (apply_op op fs')"
proof (cases op)
  case (RenameFile p q)
  with assms have "view fs p = view fs' p" by (simp add: agree_def)
  from rename_file_agree [OF this, of q] show ?thesis
    using assms RenameFile by (auto simp: agree_def view_rename_file)
next
  case (MakeExecutable p)
  with assms show ?thesis by (auto simp: agree_def view_def file_exists_def)
next
  case (CreateFile p)
  with assms show ?thesis by (auto simp: agree_def view_write_file)
next
  case (SetLen p n)
  with assms agree_files [OF assms(1), of p] show ?thesis
    by (auto simp: agree_def view_write_file split: option.split)
next
  case (WriteAt p off d)
  with assms agree_files [OF assms(1), of p] show ?thesis
    by (auto simp: agree_def view_write_file split: option.split)
qed

lemma apply_ops_agree:
  "agree P fs fs' \<Longrightarrow> (\<And>op. op \<in> set ops \<Longrightarrow> op_paths op \<subseteq> P) \<Longrightarrow> agree P (fold apply_op ops fs) (fold apply_op ops fs')"
proof (induction ops arbitrary: fs fs')
  case (Cons op ops)
  then have "agree P (apply_op op fs) (apply_op op fs')" by (simp add: apply_op_agree)
  with Cons show ?case by simp
qed simp

definition own_paths :: "'r depot_job \<Rightarrow> file_task \<Rightarrow> string set" where
  "own_paths job task = {ft_path task, staging_path job task}"

lemma copy_ops_paths: "op \<in> set (copy_ops job task fs) \<Longrightarrow> op_paths op = {staging_path job task}"
proof -
  have "copy_op p ocs old c = Some op \<Longrightarrow> op_paths op = {p}" for p ocs old c
    by (cases "mc_offset c"; cases "mc_uncompressed_size c")
       (auto simp: copy_op_def bind_eq_Some_conv split: option.split_asm)
  then show "op \<in> set (copy_ops job task fs) \<Longrightarrow> op_paths op = {staging_path job task}"
    by (auto simp: copy_ops_def set_map_filter_iff split: option.splits)
qed

lemma chunk_ops_paths: "op \<in> set (List.map_filter (chunk_op p) ts) \<Longrightarrow> op_paths op = {p}"
proof -
  have "chunk_op p t = Some op \<Longrightarrow> op_paths op = {p}" for t
    by (induction p t rule: chunk_op.induct) auto
  then show "op \<in> set (List.map_filter (chunk_op p) ts) \<Longrightarrow> op_paths op = {p}"
    by (auto simp: set_map_filter_iff)
qed

text \<open>First the staging file only, then on success the rename.\<close>

definition staged_then_renamed :: "'r depot_job \<Rightarrow> file_task \<Rightarrow> (box_error + unit) \<times> disk_op list \<Rightarrow> bool" where
  "staged_then_renamed job task = (\<lambda>(r, ops). \<exists>ws ren. ops = ws @ ren
     \<and> (\<forall>op \<in> set ws. op_paths op = {staging_path job task})
     \<and> (ren = [] \<or> r = Inr () \<and> ren = [RenameFile (staging_path job task) (ft_path task)]))"

lemma staged_then_renamedI:
  assumes "\<forall>op \<in> set ws. op_paths op = {staging_path job task}"
    and "ren = [] \<or> r = Inr () \<and> ren = [RenameFile (staging_path job task) (ft_path task)]"
  shows "staged_then_renamed job task (r, ws @ ren)"
  unfolding staged_then_renamed_def prod.case using assms
  by (intro exI [of _ ws] exI [of _ ren] conjI refl) assumption+

lemma staged_then_renamedE:
  assumes "staged_then_renamed job task (r, ops)"
  obtains ws ren where "ops = ws @ ren" "\<forall>op \<in> set ws. op_paths op = {staging_path job task}"
    "ren = [] \<or> r = Inr () \<and> ren = [RenameFile (staging_path job task) (ft_path task)]"
  using assms unfolding staged_then_renamed_def prod.case by blast

lemma fill_ops_shape: "staged_then_renamed job task (fill_ops C Z job order task valid fs)"
proof -
  define writes where "writes = copy_ops job task fs @ List.map_filter (chunk_op (staging_path job task))
      (map ((!) (chunk_results C Z job (fetches_of job task valid fs))) (order (length (fetches_of job task valid fs))))"
  have ws: "\<forall>op \<in> set writes. op_paths op = {staging_path job task}"
    using copy_ops_paths chunk_ops_paths unfolding writes_def by fastforce
  have "\<exists>r ren. fill_ops C Z job order task valid fs = (r, writes @ ren)
      \<and> (ren = [] \<or> r = Inr () \<and> ren = [RenameFile (staging_path job task) (ft_path task)])"
    by (auto simp: fill_ops_def writes_def chunk_results_def [symmetric] Let_def split: sum.split)
  then obtain r ren where eq: "fill_ops C Z job order task valid fs = (r, writes @ ren)"
    and ren: "ren = [] \<or> r = Inr () \<and> ren = [RenameFile (staging_path job task) (ft_path task)]"
    by blast
  show ?thesis unfolding eq by (rule staged_then_renamedI [OF ws ren])
qed

lemma file_ops_shape: "staged_then_renamed job task (file_ops C Z job order task fs)"
proof -
  have more: "staged_then_renamed job task (case x of (r, ops) \<Rightarrow> (r, ws @ ops))"
    if x: "staged_then_renamed job task x" and ws: "\<forall>op \<in> set ws. op_paths op = {staging_path job task}" for x ws
  proof -
    obtain r ops where x': "x = (r, ops)" by (cases x)
    from x [unfolded x'] obtain ws' ren where ops: "ops = ws' @ ren"
      and ws': "\<forall>op \<in> set ws'. op_paths op = {staging_path job task}"
      and ren: "ren = [] \<or> r = Inr () \<and> ren = [RenameFile (staging_path job task) (ft_path task)]"
      by (rule staged_then_renamedE)
    have "\<forall>op \<in> set (ws @ ws'). op_paths op = {staging_path job task}" using ws ws' by auto
    from staged_then_renamedI [OF this ren] show ?thesis by (simp add: x' ops)
  qed
  have short: "staged_then_renamed job task (r, [])"
    "staged_then_renamed job task (Inr (), [RenameFile (staging_path job task) (ft_path task)])" for r
    using staged_then_renamedI [of "[]" job task] by auto
  let ?s = "staging_path job task"
  let ?opens = "CreateFile ?s # (case ft_size task of None \<Rightarrow> [] | Some sz \<Rightarrow> [SetLen ?s (unat sz)])"
  have "staged_then_renamed job task (case fill_ops C Z job order task {} (fold apply_op ?opens fs) of
      (r, ops) \<Rightarrow> (r, ?opens @ ops))"
    by (rule more, rule fill_ops_shape) (auto split: option.split)
  with short show ?thesis
    unfolding file_ops_def Let_def by (simp add: fill_ops_shape split: sum.split bool.split)
qed

lemma task_ops_shape:
  assumes "task_ops C Z job order task fs = (r, ops)"
  obtains ws ren ex where "ops = ws @ ren @ ex" "\<And>op. op \<in> set ws \<Longrightarrow> op_paths op = {staging_path job task}"
    "ren = [] \<or> r = Inr () \<and> ren = [RenameFile (staging_path job task) (ft_path task)]"
    "set ex \<subseteq> {MakeExecutable (ft_path task)}"
proof -
  obtain r1 ops1 where run: "file_ops C Z job order task fs = (r1, ops1)"
    by (cases "file_ops C Z job order task fs")
  from file_ops_shape [of job task C Z order fs, unfolded run] obtain ws ren where
    ops1: "ops1 = ws @ ren" and ws: "\<forall>op \<in> set ws. op_paths op = {staging_path job task}"
    and ren: "ren = [] \<or> r1 = Inr () \<and> ren = [RenameFile (staging_path job task) (ft_path task)]"
    by (rule staged_then_renamedE)
  have r: "r = r1" and ops: "ops = ws @ ren @ drop (length ops1) ops"
    and ex: "set (drop (length ops1) ops) \<subseteq> {MakeExecutable (ft_path task)}"
    using assms run ops1 by (auto simp: task_ops_def split: sum.splits if_splits)
  show ?thesis
    by (rule that [OF ops _ _ ex]) (use ws ren r in auto)
qed

lemma task_ops_paths:
  assumes "task_ops C Z job order task fs = (r, ops)" "op \<in> set ops"
  shows "op_paths op \<subseteq> own_paths job task"
  by (rule task_ops_shape [OF assms(1)]) (use assms(2) in \<open>auto simp: own_paths_def\<close>)

text \<open>What a task does is decided by its own two files.\<close>

lemma fill_ops_cong:
  "agree (own_paths job task) fs fs' \<Longrightarrow>
    fill_ops C Z job order task valid fs = fill_ops C Z job order task valid fs'"
  using agree_files [of "own_paths job task" fs fs' "ft_path task"]
  by (simp add: fill_ops_def fetches_of_def copy_ops_def file_exists_def own_paths_def)

lemma task_ops_cong:
  assumes "agree (own_paths job task) fs fs'"
  shows "task_ops C Z job order task fs = task_ops C Z job order task fs'"
proof -
  let ?s = "staging_path job task"
  let ?opens = "CreateFile ?s # (case ft_size task of None \<Rightarrow> [] | Some sz \<Rightarrow> [SetLen ?s (unat sz)])"
  have "agree (own_paths job task) (fold apply_op ?opens fs) (fold apply_op ?opens fs')"
    by (rule apply_ops_agree [OF assms]) (auto simp: own_paths_def split: option.splits)
  note opens = fill_ops_cong [OF this]
  have same: "fs_files fs (ft_path task) = fs_files fs' (ft_path task)" "fs_files fs ?s = fs_files fs' ?s"
    using agree_files [OF assms] by (simp_all add: own_paths_def)
  show ?thesis
    unfolding task_ops_def file_ops_def Let_def opens fill_ops_cong [OF assms]
      file_has_valid_chunks_def file_has_correct_size_def verify_chunks_def same ..
qed

text \<open>At any point of a task its installed file is as before, or as at the end of the whole task.\<close>

lemma apply_ops_files:
  "(\<And>op. op \<in> set ops \<Longrightarrow> p \<notin> op_paths op \<or> op = MakeExecutable p) \<Longrightarrow>
    fs_files (fold apply_op ops fs) p = fs_files fs p"
proof (induction ops arbitrary: fs)
  case (Cons op ops)
  have "fs_files (apply_op op fs) p = fs_files fs p"
    using Cons.prems [of op] apply_op_frame [of p op fs] by (auto simp: view_def)
  with Cons show ?case by simp
qed simp

lemma task_ops_prefix:
  assumes run: "task_ops C Z job order task fs = (r, ops)" and ops: "ops = before @ rest"
    and ne: "staging_path job task \<noteq> ft_path task"
  shows "fs_files (fold apply_op before fs) (ft_path task) = fs_files fs (ft_path task)
    \<or> r = Inr () \<and> fs_files (fold apply_op before fs) (ft_path task) = fs_files (fold apply_op ops fs) (ft_path task)"
proof (rule task_ops_shape [OF run])
  fix ws ren ex
  assume split: "ops = ws @ ren @ ex" and ws: "\<And>op. op \<in> set ws \<Longrightarrow> op_paths op = {staging_path job task}"
    and ren: "ren = [] \<or> r = Inr () \<and> ren = [RenameFile (staging_path job task) (ft_path task)]"
    and ex: "set ex \<subseteq> {MakeExecutable (ft_path task)}"
  have quiet: "fs_files (fold apply_op xs fs) (ft_path task) = fs_files fs (ft_path task)"
    if "set xs \<subseteq> set ws \<union> set ex" for xs fs
    using that ws ex ne by (intro apply_ops_files) fastforce
  from ops split have "before @ rest = (ws @ ren) @ ex" by simp
  then consider us where "before @ us = ws @ ren" | us where "before = (ws @ ren) @ us" "us @ rest = ex"
    by (auto simp: append_eq_append_conv2)
  then show ?thesis
  proof cases
    case 1
    show ?thesis
    proof (cases "us = [] \<and> ren \<noteq> []")
      case True
      with 1 ren split quiet [of ex] show ?thesis by auto
    next
      case False
      then have "before @ us = ws \<or> before @ butlast us = ws"
        using 1 ren by (metis append_Nil2 butlast_append butlast_snoc)
      then have "set before \<subseteq> set ws \<union> set ex" by auto
      with quiet show ?thesis by blast
    qed
  next
    case 2
    then have sub: "set rest \<subseteq> set ws \<union> set ex" "set (ws @ us) \<subseteq> set ws \<union> set ex" by auto
    have "fs_files (fold apply_op ops fs) (ft_path task) = fs_files (fold apply_op before fs) (ft_path task)"
      and "ren = [] \<Longrightarrow> fs_files (fold apply_op before fs) (ft_path task) = fs_files fs (ft_path task)"
      using quiet [OF sub(1), of "fold apply_op before fs"] quiet [OF sub(2), of fs] ops 2(1) by simp_all
    with ren show ?thesis by metis
  qed
qed

text \<open>Before a change other than the last ones, and in every write, a task is at its staging file.\<close>

lemma task_ops_next:
  assumes run: "task_ops C Z job order task fs = (r, before @ op # rest)" and op: "\<not> is_chmod op"
  shows "\<forall>x \<in> set before. op_paths x = {staging_path job task}"
    and "\<forall>x \<in> set (op # rest). is_write x \<longrightarrow> op_paths x = {staging_path job task}"
proof -
  obtain ws ren ex where split: "before @ op # rest = ws @ ren @ ex"
    and ws: "\<And>x. x \<in> set ws \<Longrightarrow> op_paths x = {staging_path job task}"
    and ren: "ren = [] \<or> r = Inr () \<and> ren = [RenameFile (staging_path job task) (ft_path task)]"
    and ex: "set ex \<subseteq> {MakeExecutable (ft_path task)}"
    by (rule task_ops_shape [OF run]) blast
  have all: "set (op # rest) \<subseteq> set ws \<union> set ren \<union> set ex" using arg_cong [OF split, of set] by auto
  have "x \<notin> set ren \<union> set ex" if "is_write x" for x
    using that ren subsetD [OF ex, of x] by (cases x) auto
  with all ws show "\<forall>x \<in> set (op # rest). is_write x \<longrightarrow> op_paths x = {staging_path job task}"
    by (meson Un_iff in_mono)
  have last: "op \<notin> set ex" using op ex by auto
  from split consider us where "before @ us = ws" | us where "before = ws @ us" "us @ op # rest = ren @ ex"
    by (auto simp: append_eq_append_conv2)
  then show "\<forall>x \<in> set before. op_paths x = {staging_path job task}"
  proof cases
    case 1
    with ws show ?thesis by auto
  next
    case 2
    have "us = []"
    proof (cases us)
      case (Cons u us')
      with 2(2) ren have "op \<in> set ex" by (cases ren) auto
      with last show ?thesis by simp
    qed simp
    with 2 ws show ?thesis by simp
  qed
qed

section \<open>Any schedule\<close>

text \<open>Tasks of which no two have a path in common.\<close>

definition tasks_disjoint :: "'r depot_job \<Rightarrow> file_task list \<Rightarrow> bool" where
  "tasks_disjoint job tasks \<longleftrightarrow>
     (\<forall>i < length tasks. \<forall>j < length tasks. i \<noteq> j \<longrightarrow> own_paths job (tasks ! i) \<inter> own_paths job (tasks ! j) = {})
     \<and> (\<forall>i < length tasks. staging_path job (tasks ! i) \<noteq> ft_path (tasks ! i))"

text \<open>How far a task is: what it has done to its two paths, counted from the disk of the beginning.\<close>

definition task_at ::
  "crypto \<Rightarrow> ('a, 'e) codecs \<Rightarrow> 'r depot_job \<Rightarrow> (nat \<Rightarrow> nat list) \<Rightarrow> file_task \<Rightarrow> file_system \<Rightarrow> task_state
    \<Rightarrow> file_system \<Rightarrow> bool" where
  "task_at C Z job order task fs0 s fs \<longleftrightarrow>
     (case s of
        Waiting \<Rightarrow> agree (own_paths job task) fs fs0
      | Writing rest r \<Rightarrow> (\<exists>before. task_ops C Z job order task fs0 = (r, before @ rest)
          \<and> agree (own_paths job task) fs (fold apply_op before fs0))
      | Finished r \<Rightarrow> (\<exists>ops. task_ops C Z job order task fs0 = (r, ops)
          \<and> agree (own_paths job task) fs (fold apply_op ops fs0))
      | Failing ops e \<Rightarrow> fs_files fs (ft_path task) = fs_files fs0 (ft_path task)
          \<and> (\<forall>op \<in> set ops. op_paths op = {staging_path job task}))"

lemma task_at_others:
  assumes "task_at C Z job order task fs0 s fs" "op_paths op \<inter> own_paths job task = {}"
  shows "task_at C Z job order task fs0 s (apply_op op fs)"
proof -
  have same: "agree (own_paths job task) (apply_op op fs) fs"
    using assms(2) apply_op_frame by (fastforce simp: agree_def)
  have "fs_files (apply_op op fs) (ft_path task) = fs_files fs (ft_path task)"
    by (rule agree_files [OF same]) (simp add: own_paths_def)
  with assms(1) agree_trans [OF same] show ?thesis
    unfolding task_at_def by (cases s) (simp_all, blast+)
qed

text \<open>One turn of the task itself: the next state and the next disk.\<close>

lemma task_at_begin:
  assumes "task_at C Z job order task fs0 Waiting fs" "task_ops C Z job order task fs = (r, ops)"
  shows "task_at C Z job order task fs0 (Writing ops r) fs"
  using assms task_ops_cong [of job task fs fs0 C Z order] by (simp add: task_at_def)

lemma task_at_write:
  assumes "task_at C Z job order task fs0 (Writing (op # ops) r) fs"
  shows "task_at C Z job order task fs0 (Writing ops r) (apply_op op fs) \<and> op_paths op \<subseteq> own_paths job task"
proof -
  from assms obtain before where run: "task_ops C Z job order task fs0 = (r, before @ op # ops)"
    and fs: "agree (own_paths job task) fs (fold apply_op before fs0)"
    by (auto simp: task_at_def)
  have "op_paths op \<subseteq> own_paths job task" by (rule task_ops_paths [OF run]) simp
  moreover from apply_op_agree [OF fs this]
  have "agree (own_paths job task) (apply_op op fs) (fold apply_op (before @ [op]) fs0)" by simp
  ultimately show ?thesis using run by (auto simp: task_at_def intro!: exI [of _ "before @ [op]"])
qed

lemma task_at_end:
  "task_at C Z job order task fs0 (Writing [] r) fs \<Longrightarrow> task_at C Z job order task fs0 (Finished r) fs"
  by (auto simp: task_at_def)

lemma task_at_fail:
  assumes at: "task_at C Z job order task fs0 (Writing (op # ops) r) fs" and op: "\<not> is_chmod op"
    and ne: "staging_path job task \<noteq> ft_path task"
  shows "task_at C Z job order task fs0 (Failing (filter (\<lambda>op. is_write op \<and> keep op) ops) e) fs"
    and "is_write op \<Longrightarrow> op_paths op = {staging_path job task}"
proof -
  from at obtain before where run: "task_ops C Z job order task fs0 = (r, before @ op # ops)"
    and fs: "agree (own_paths job task) fs (fold apply_op before fs0)"
    by (auto simp: task_at_def)
  note staging = task_ops_next [OF run op]
  have "fs_files fs (ft_path task) = fs_files (fold apply_op before fs0) (ft_path task)"
    by (rule agree_files [OF fs]) (simp add: own_paths_def)
  also have "\<dots> = fs_files fs0 (ft_path task)"
    using staging(1) ne by (intro apply_ops_files) auto
  finally show "task_at C Z job order task fs0 (Failing (filter (\<lambda>op. is_write op \<and> keep op) ops) e) fs"
    using staging(2) by (simp add: task_at_def)
  show "is_write op \<Longrightarrow> op_paths op = {staging_path job task}" using staging(2) by simp
qed

lemma task_at_failing:
  assumes "task_at C Z job order task fs0 (Failing ops e) fs" "set ops' \<subseteq> set ops"
    and "op_paths op = {staging_path job task}" "staging_path job task \<noteq> ft_path task"
  shows "task_at C Z job order task fs0 (Failing ops' e) (apply_op op fs)"
  using assms apply_op_frame [of "ft_path task" op fs] by (auto simp: task_at_def view_def)

definition run_inv ::
  "crypto \<Rightarrow> ('a, 'e) codecs \<Rightarrow> 'r depot_job \<Rightarrow> (nat \<Rightarrow> nat \<Rightarrow> nat list) \<Rightarrow> file_task list \<Rightarrow> file_system
    \<Rightarrow> task_state list \<times> file_system \<Rightarrow> bool" where
  "run_inv C Z job chunk_order tasks fs0 = (\<lambda>(states, fs).
     length states = length tasks
     \<and> (\<forall>i < length tasks. task_at C Z job (chunk_order i) (tasks ! i) fs0 (states ! i) fs)
     \<and> agree (- (\<Union>t \<in> set tasks. own_paths job t)) fs fs0)"

lemma run_inv_update:
  assumes inv: "run_inv C Z job chunk_order tasks fs0 (states, fs)" and i: "i < length tasks"
    and own: "task_at C Z job (chunk_order i) (tasks ! i) fs0 s fs"
  shows "run_inv C Z job chunk_order tasks fs0 (states[i := s], fs)"
  using assms by (auto simp: run_inv_def nth_list_update)

lemma run_inv_apply:
  assumes apart: "tasks_disjoint job tasks" and inv: "run_inv C Z job chunk_order tasks fs0 (states, fs)"
    and i: "i < length tasks" and paths: "op_paths op \<subseteq> own_paths job (tasks ! i)"
    and own: "task_at C Z job (chunk_order i) (tasks ! i) fs0 s (apply_op op fs)"
  shows "run_inv C Z job chunk_order tasks fs0 (states[i := s], apply_op op fs)"
proof -
  have "task_at C Z job (chunk_order j) (tasks ! j) fs0 (states ! j) (apply_op op fs)"
    if "j < length tasks" "j \<noteq> i" for j
  proof (rule task_at_others)
    show "task_at C Z job (chunk_order j) (tasks ! j) fs0 (states ! j) fs" using inv that by (simp add: run_inv_def)
    show "op_paths op \<inter> own_paths job (tasks ! j) = {}"
      using apart i that paths unfolding tasks_disjoint_def by blast
  qed
  moreover have "view (apply_op op fs) p = view fs p" if "p \<notin> (\<Union>t \<in> set tasks. own_paths job t)" for p
    using that paths i by (intro apply_op_frame) auto
  moreover have "length states = length tasks" using inv by (simp add: run_inv_def)
  with own i calculation(1)
  have "task_at C Z job (chunk_order j) (tasks ! j) fs0 (states[i := s] ! j) (apply_op op fs)"
    if "j < length tasks" for j
    using that by (cases "j = i") simp_all
  ultimately show ?thesis
    using inv by (simp add: run_inv_def agree_def)
qed

text \<open>A write, whole or in part, of a task whose disk fails or has failed.\<close>

lemma run_inv_partial:
  assumes apart: "tasks_disjoint job tasks" and inv: "run_inv C Z job chunk_order tasks fs0 (states, fs)"
    and i: "i < length tasks" and op: "is_write op \<Longrightarrow> op_paths op = {staging_path job (tasks ! i)}"
    and own: "task_at C Z job (chunk_order i) (tasks ! i) fs0 (Failing ops e) fs"
  shows "run_inv C Z job chunk_order tasks fs0 (states[i := Failing ops e], partial_op n op fs)"
proof (cases "is_write op")
  case True
  then obtain p off d where w: "op = WriteAt p off d" by (cases op) simp_all
  have ne: "staging_path job (tasks ! i) \<noteq> ft_path (tasks ! i)" using apart i by (simp add: tasks_disjoint_def)
  have "op_paths (WriteAt p off (take n d)) = {staging_path job (tasks ! i)}" using op w by simp
  from task_at_failing [OF own subset_refl this ne] this show ?thesis
    unfolding w partial_op.simps by (intro run_inv_apply [OF apart inv i]) (auto simp: own_paths_def)
next
  case False
  then have "partial_op n op fs = fs" by (cases op) simp_all
  with run_inv_update [OF inv i own] show ?thesis by simp
qed

lemma run_inv_turn:
  assumes apart: "tasks_disjoint job tasks" and inv: "run_inv C Z job chunk_order tasks fs0 st"
  shows "run_inv C Z job chunk_order tasks fs0 (task_turn C Z job chunk_order tasks i st)"
proof -
  obtain states fs where st: "st = (states, fs)" by (cases st)
  note inv = inv [unfolded st]
  then have len: "length states = length tasks" by (simp add: run_inv_def)
  show ?thesis
  proof (cases "i < length tasks")
    case False
    with inv len show ?thesis by (simp add: st task_turn_def)
  next
    case True
    with inv have own: "task_at C Z job (chunk_order i) (tasks ! i) fs0 (states ! i) fs" by (simp add: run_inv_def)
    show ?thesis
    proof (cases "states ! i")
      case Waiting
      obtain r ops where run: "task_ops C Z job (chunk_order i) (tasks ! i) fs = (r, ops)"
        by (cases "task_ops C Z job (chunk_order i) (tasks ! i) fs")
      from run_inv_update [OF inv True task_at_begin [OF own [unfolded Waiting] run]] Waiting run True len
      show ?thesis by (simp add: st task_turn_def)
    next
      case (Writing ops r)
      show ?thesis
      proof (cases ops)
        case Nil
        from run_inv_update [OF inv True task_at_end] own Writing Nil True len
        show ?thesis by (simp add: st task_turn_def)
      next
        case (Cons op ops')
        from task_at_write own Writing Cons have "task_at C Z job (chunk_order i) (tasks ! i) fs0 (Writing ops' r) (apply_op op fs)"
          "op_paths op \<subseteq> own_paths job (tasks ! i)" by force+
        from run_inv_apply [OF apart inv True this(2,1)] Writing Cons True len show ?thesis
          by (simp add: st task_turn_def)
      qed
    next
      case (Finished r)
      with inv True len show ?thesis by (simp add: st task_turn_def)
    next
      case (Failing ops e)
      show ?thesis
      proof (cases ops)
        case Nil
        with inv Failing True len show ?thesis by (simp add: st task_turn_def)
      next
        case (Cons op ops')
        have ne: "staging_path job (tasks ! i) \<noteq> ft_path (tasks ! i)" using apart True by (simp add: tasks_disjoint_def)
        have staging: "op_paths op = {staging_path job (tasks ! i)}" using own Failing Cons by (simp add: task_at_def)
        have "task_at C Z job (chunk_order i) (tasks ! i) fs0 (Failing ops' e) (apply_op op fs)"
          by (rule task_at_failing [OF own [unfolded Failing] _ staging ne]) (auto simp: Cons)
        from run_inv_apply [OF apart inv True _ this] staging Failing Cons True len show ?thesis
          by (simp add: st task_turn_def own_paths_def)
      qed
    qed
  qed
qed

lemma run_inv_fault:
  assumes apart: "tasks_disjoint job tasks" and inv: "run_inv C Z job chunk_order tasks fs0 st"
  shows "run_inv C Z job chunk_order tasks fs0 (task_fault i e n keep st)"
proof -
  obtain states fs where st: "st = (states, fs)" by (cases st)
  note inv = inv [unfolded st]
  then have len: "length states = length tasks" by (simp add: run_inv_def)
  show ?thesis
  proof (cases "i < length tasks")
    case False
    with inv len show ?thesis by (simp add: st task_fault_def)
  next
    case True
    with inv have own: "task_at C Z job (chunk_order i) (tasks ! i) fs0 (states ! i) fs" by (simp add: run_inv_def)
    have ne: "staging_path job (tasks ! i) \<noteq> ft_path (tasks ! i)" using apart True by (simp add: tasks_disjoint_def)
    show ?thesis
    proof (cases "states ! i")
      case Waiting
      with own agree_files [of "own_paths job (tasks ! i)" fs fs0 "ft_path (tasks ! i)"]
      have "task_at C Z job (chunk_order i) (tasks ! i) fs0 (Failing [] e) fs"
        by (simp add: task_at_def own_paths_def)
      from run_inv_update [OF inv True this] Waiting True len show ?thesis by (simp add: st task_fault_def)
    next
      case (Writing ops r)
      show ?thesis
      proof (cases ops)
        case Nil
        with inv Writing True len show ?thesis by (simp add: st task_fault_def)
      next
        case (Cons op ops')
        show ?thesis
        proof (cases "is_chmod op")
          case True
          with inv Writing Cons \<open>i < length tasks\<close> len show ?thesis by (simp add: st task_fault_def)
        next
          case False
          note fail = task_at_fail [OF own [unfolded Writing Cons] False ne]
          from run_inv_partial [OF apart inv True fail(2,1)] False Writing Cons True len show ?thesis
            by (simp add: st task_fault_def)
        qed
      qed
    next
      case (Finished r)
      with inv True len show ?thesis by (simp add: st task_fault_def)
    next
      case (Failing ops e')
      show ?thesis
      proof (cases ops)
        case Nil
        with inv Failing True len show ?thesis by (simp add: st task_fault_def)
      next
        case (Cons op ops')
        have "task_at C Z job (chunk_order i) (tasks ! i) fs0 (Failing ops' e') fs"
          "op_paths op = {staging_path job (tasks ! i)}" using own Failing Cons by (simp_all add: task_at_def)
        from run_inv_partial [OF apart inv True this(2,1)] Failing Cons True len show ?thesis
          by (simp add: st task_fault_def)
      qed
    qed
  qed
qed

lemma run_inv_faulty:
  assumes "tasks_disjoint job tasks"
  shows "run_inv C Z job chunk_order tasks fs (interleave_faulty C Z job chunk_order tasks schedule fs)"
proof -
  have "run_inv C Z job chunk_order tasks fs (disk_turn C Z job chunk_order tasks ev st)"
    if "run_inv C Z job chunk_order tasks fs st" for ev st
    using that run_inv_turn [OF assms] run_inv_fault [OF assms] by (cases ev) simp_all
  then have "run_inv C Z job chunk_order tasks fs st \<Longrightarrow>
      run_inv C Z job chunk_order tasks fs (fold (disk_turn C Z job chunk_order tasks) schedule st)" for st
    by (induction schedule arbitrary: st) simp_all
  then show ?thesis by (simp add: interleave_faulty_def run_inv_def task_at_def)
qed

lemma run_inv_interleave:
  assumes "tasks_disjoint job tasks"
  shows "run_inv C Z job chunk_order tasks fs (interleave C Z job chunk_order tasks schedule fs)"
  unfolding interleave_no_fault by (rule run_inv_faulty [OF assms])

text \<open>The tasks of a job have no path in common.\<close>

lemma planned_tasks_disjoint:
  assumes "manifest_wf manifest"
  shows "tasks_disjoint job (pl_tasks (plan_files is_match job fs manifest))"
proof -
  let ?tasks = "pl_tasks (plan_files is_match job fs manifest)"
  have apart: "tasks_apart job ?tasks"
    using assms planned_tasks_apart unfolding manifest_wf_def by blast
  have named: "\<exists>name. plain_name name \<and> ft_path t = path_join (dj_install_dir job) name
      \<and> staging_path job t = path_join (path_join (dj_install_dir job) ''.staging'') name" if "t \<in> set ?tasks" for t
  proof -
    from that obtain f name where f: "f \<in> set (dm_files manifest)" "mf_filename f = Some name"
      and t: "t = make_task job f name"
      by (auto simp: plan_task_mem wanted_def)
    with assms have "plain_name name" by (auto simp: manifest_wf_def names_of_def list_all_iff set_map_filter_iff)
    with t show ?thesis by (intro exI [of _ name]) (simp add: make_task_def staging_path_def)
  qed
  have "staging_path job (?tasks ! i) \<noteq> ft_path (?tasks ! i)" if "i < length ?tasks" for i
    using apart that by (simp add: tasks_apart_def)
  then show ?thesis
    unfolding tasks_disjoint_def
  proof (intro conjI allI impI)
    fix i j assume ij: "i < length ?tasks" "j < length ?tasks" "i \<noteq> j"
    then have mem: "?tasks ! i \<in> set ?tasks" "?tasks ! j \<in> set ?tasks" by simp_all
    have path: "ft_path (?tasks ! i) \<noteq> ft_path (?tasks ! j)"
      using apart ij nth_eq_iff_index_eq [of "map ft_path ?tasks" i j] by (simp add: tasks_apart_def)
    moreover have "staging_path job (?tasks ! i) \<noteq> staging_path job (?tasks ! j)"
      using named [OF mem(1)] named [OF mem(2)] path by (metis path_join_inj)
    moreover have "staging_path job (?tasks ! i) \<noteq> ft_path (?tasks ! j)"
      "staging_path job (?tasks ! j) \<noteq> ft_path (?tasks ! i)"
      using apart mem by (simp_all add: tasks_apart_def)
    ultimately show "own_paths job (?tasks ! i) \<inter> own_paths job (?tasks ! j) = {}"
      by (auto simp: own_paths_def)
  qed
qed

text \<open>
  A task that can be run: well-formed, or its installed file is complete already. Its installed
  file is at any point as before or complete, and complete when it ends with success.
\<close>

definition task_ready :: "'r depot_job \<Rightarrow> file_system \<Rightarrow> file_task \<Rightarrow> bool" where
  "task_ready job fs task \<longleftrightarrow>
     staging_path job task \<noteq> ft_path task \<and> (task_wf job fs task \<or> file_valid fs task)"

lemma run_file_task_ready:
  assumes "task_ready job fs task" "complete_order order" "run_file_task C Z job order task fs = (Inr (), ev, fs')"
  shows "file_valid fs' task"
proof (cases "file_valid fs task")
  case True
  then have "download_file C Z job order task fs = (Inr (), [], fs)"
    by (simp add: file_valid_def download_file_def)
  with assms(3) True show ?thesis by (auto simp: run_file_task_def)
next
  case False
  with assms run_file_task_spec(1) [of job fs task order C Z "Inr ()" ev fs'] show ?thesis
    by (auto simp: task_ready_def complete_order_def)
qed

lemma task_ops_valid:
  assumes "task_ready job fs0 task" "complete_order order" "task_ops C Z job order task fs0 = (Inr (), ops)"
    and "fs_files fs (ft_path task) = fs_files (fold apply_op ops fs0) (ft_path task)"
  shows "file_valid fs task"
proof -
  obtain r ev fs' where run: "run_file_task C Z job order task fs0 = (r, ev, fs')"
    by (cases "run_file_task C Z job order task fs0")
  from task_ops_correct [OF run] assms(3) have "r = Inr ()" "fold apply_op ops fs0 = fs'" by auto
  with run_file_task_ready [OF assms(1,2)] run assms(4) file_valid_cong [of fs task fs'] show ?thesis by simp
qed

lemma task_at_safe:
  assumes "task_ready job fs0 task" "complete_order order" "task_at C Z job order task fs0 s fs"
  shows "file_valid fs task \<or> fs_files fs (ft_path task) = fs_files fs0 (ft_path task)"
proof -
  have ne: "staging_path job task \<noteq> ft_path task" using assms(1) by (simp add: task_ready_def)
  have at: "agree (own_paths job task) fs fs' \<Longrightarrow> fs_files fs (ft_path task) = fs_files fs' (ft_path task)" for fs'
    using agree_files [of "own_paths job task" fs fs' "ft_path task"] by (simp add: own_paths_def)
  have part: ?thesis if "task_ops C Z job order task fs0 = (r, before @ rest)"
    "agree (own_paths job task) fs (fold apply_op before fs0)" for r before rest
    using task_ops_prefix [OF that(1) refl ne] task_ops_valid [OF assms(1,2), of C Z] at [OF that(2)] that(1) by metis
  show ?thesis
  proof (cases s)
    case Waiting
    with assms(3) at show ?thesis by (simp add: task_at_def)
  next
    case (Writing rest r)
    with assms(3) part show ?thesis by (auto simp: task_at_def)
  next
    case (Finished r)
    with assms(3) part [of r _ "[]"] show ?thesis by (auto simp: task_at_def)
  next
    case (Failing ops e)
    with assms(3) show ?thesis by (simp add: task_at_def)
  qed
qed

lemma task_at_finished:
  assumes "task_ready job fs0 task" "complete_order order" "task_at C Z job order task fs0 (Finished (Inr ())) fs"
  shows "file_valid fs task"
proof -
  from assms(3) obtain ops where "task_ops C Z job order task fs0 = (Inr (), ops)"
    "agree (own_paths job task) fs (fold apply_op ops fs0)"
    by (auto simp: task_at_def)
  with task_ops_valid [OF assms(1,2)] agree_files show ?thesis by (fastforce simp: own_paths_def)
qed

text \<open>With all tasks finished, the outcomes and the disk are determined.\<close>

lemma finished_unique:
  assumes inv: "run_inv C Z job chunk_order tasks fs0 (states, fs)" "run_inv C Z job chunk_order tasks fs0 (states', fs')"
    and all: "\<And>i. i < length tasks \<Longrightarrow> (\<exists>r. states ! i = Finished r) \<and> (\<exists>r. states' ! i = Finished r)"
  shows "states = states' \<and> fs = fs'"
proof -
  have one: "states ! i = states' ! i \<and> agree (own_paths job (tasks ! i)) fs fs'" if i: "i < length tasks" for i
  proof -
    from all [OF i] obtain r r' where s: "states ! i = Finished r" "states' ! i = Finished r'" by blast
    from inv i have "task_at C Z job (chunk_order i) (tasks ! i) fs0 (states ! i) fs"
      "task_at C Z job (chunk_order i) (tasks ! i) fs0 (states' ! i) fs'" by (simp_all add: run_inv_def)
    with s show ?thesis by (auto simp: task_at_def agree_def)
  qed
  have "view fs p = view fs' p" for p
  proof (cases "\<exists>i < length tasks. p \<in> own_paths job (tasks ! i)")
    case True
    with one show ?thesis by (auto simp: agree_def)
  next
    case False
    then have "p \<in> - (\<Union>t \<in> set tasks. own_paths job t)" by (auto simp: in_set_conv_nth)
    with inv show ?thesis by (simp add: run_inv_def agree_def)
  qed
  then have "fs = fs'" by (intro agree_UNIV) (simp add: agree_def)
  moreover have "states = states'" using inv one by (intro nth_equalityI) (simp_all add: run_inv_def)
  ultimately show ?thesis by simp
qed

text \<open>One task after the other is a schedule.\<close>

lemma turns_write:
  "i < length states \<Longrightarrow> states ! i = Writing ops r \<Longrightarrow>
    fold (task_turn C Z job chunk_order tasks) (replicate (Suc (length ops)) i) (states, fs)
      = (states[i := Finished r], fold apply_op ops fs)"
proof (induction ops arbitrary: states fs)
  case (Cons op ops)
  then show ?case using Cons.IH [of "states[i := Writing ops r]" "apply_op op fs"] by (simp add: task_turn_def)
qed (simp add: task_turn_def)

lemma turns_task:
  assumes "i < length states" "states ! i = Waiting"
    and "run_file_task C Z job (chunk_order i) (tasks ! i) fs = (r, ev, fs')"
  shows "\<exists>schedule. fold (task_turn C Z job chunk_order tasks) schedule (states, fs) = (states[i := Finished r], fs')"
proof -
  from task_ops_correct [OF assms(3)] obtain ops where
    ops: "task_ops C Z job (chunk_order i) (tasks ! i) fs = (r, ops)" "fold apply_op ops fs = fs'" by blast
  have "fold (task_turn C Z job chunk_order tasks) (i # replicate (Suc (length ops)) i) (states, fs)
      = (states[i := Finished r], fs')"
    using turns_write [of i "states[i := Writing ops r]" ops r C Z job chunk_order tasks fs] assms ops
    by (simp add: task_turn_def del: replicate_Suc)
  then show ?thesis by blast
qed

lemma turns_tasks:
  assumes "distinct xs" "set xs \<subseteq> {..<length states}" "\<And>i. i \<in> set xs \<Longrightarrow> states ! i = Waiting"
    and "fold (run_task C Z job chunk_order tasks) xs (results, ev, fs) = (results', ev', fs')"
  shows "\<exists>schedule states'. fold (task_turn C Z job chunk_order tasks) schedule (states, fs) = (states', fs')
    \<and> length states' = length states
    \<and> (\<forall>i \<in> set xs. states' ! i = Finished (results' i)) \<and> (\<forall>i. i \<notin> set xs \<longrightarrow> results' i = results i \<and> states' ! i = states ! i)"
  using assms
proof (induction xs arbitrary: states results ev fs)
  case Nil
  then show ?case by (auto intro: exI [of _ "[]"])
next
  case (Cons i xs)
  obtain r ev1 fs1 where run: "run_file_task C Z job (chunk_order i) (tasks ! i) fs = (r, ev1, fs1)"
    by (cases "run_file_task C Z job (chunk_order i) (tasks ! i) fs")
  have i: "i < length states" "states ! i = Waiting" using Cons.prems by simp_all
  from turns_task [where chunk_order = chunk_order and tasks = tasks, OF i run] obtain s1 where
    s1: "fold (task_turn C Z job chunk_order tasks) s1 (states, fs) = (states[i := Finished r], fs1)" by blast
  have rest: "fold (run_task C Z job chunk_order tasks) xs (results(i := r), ev @ ev1, fs1) = (results', ev', fs')"
    using Cons.prems(4) by (simp only: fold_Cons o_apply run_task_def [of C Z job chunk_order tasks i] run prod.case)
  have "\<And>j. j \<in> set xs \<Longrightarrow> states[i := Finished r] ! j = Waiting" using Cons.prems by (auto simp: nth_list_update)
  with Cons.IH [OF _ _ this rest] Cons.prems(1,2) obtain s2 states' where
    s2: "fold (task_turn C Z job chunk_order tasks) s2 (states[i := Finished r], fs1) = (states', fs')"
      "length states' = length states" "\<forall>j \<in> set xs. states' ! j = Finished (results' j)"
      "\<forall>j. j \<notin> set xs \<longrightarrow> results' j = (results(i := r)) j \<and> states' ! j = states[i := Finished r] ! j"
    by auto
  have "fold (task_turn C Z job chunk_order tasks) (s1 @ s2) (states, fs) = (states', fs')" by (simp add: s1 s2(1))
  with s2 Cons.prems(1) i show ?case by (intro exI [of _ "s1 @ s2"] exI [of _ states']) auto
qed

end
