(* ===== verification/Interleave_Props.thy ===== *)
theory Interleave_Props
  imports Interleave
begin

text \<open>
  What holds of a download whose file tasks run side by side: it can be killed at any point without
  damage, taken up again, and ends as the tasks run one after the other.
\<close>

section \<open>Whole jobs\<close>

text \<open>The file tasks of a download are one schedule of them.\<close>

lemma download_as_schedule:
  assumes "manifest_wf manifest" "complete_order task_order"
    and "download C Z is_match job task_order chunk_order manifest fs = (r, ev, fs')"
  defines "tasks \<equiv> pl_tasks (plan_files is_match job fs manifest)"
  obtains outcomes fs1 progress where
    "length outcomes = length tasks"
    "run_inv C Z job chunk_order tasks fs (map Finished outcomes, fs1)"
    "await_tasks (dj_depot_id job) (pl_completed (plan_files is_match job fs manifest)) (length (dm_files manifest))
       outcomes = (r, progress)"
    "fs' = (case (r, dj_previous_manifest job) of
       (Inr _, Some old) \<Rightarrow> fold (delete_removed (dj_install_dir job) manifest) (dm_files old) fs1 | _ \<Rightarrow> fs1)"
proof -
  let ?ord = "task_order (length tasks)" and ?states = "replicate (length tasks) Waiting"
  obtain results ev1 fs1 where run:
    "fold (run_task C Z job chunk_order tasks) ?ord (\<lambda>_. Inr (), [], fs) = (results, ev1, fs1)"
    by (cases "fold (run_task C Z job chunk_order tasks) ?ord (\<lambda>_. Inr (), [], fs)")
  have ord: "distinct ?ord" "set ?ord = {..<length tasks}" using assms(2) by (simp_all add: complete_order_def)
  have "\<exists>schedule states'. fold (task_turn C Z job chunk_order tasks) schedule (?states, fs) = (states', fs1)
    \<and> length states' = length ?states
    \<and> (\<forall>i \<in> set ?ord. states' ! i = Finished (results i))
    \<and> (\<forall>i. i \<notin> set ?ord \<longrightarrow> results i = (\<lambda>_. Inr ()) i \<and> states' ! i = ?states ! i)"
    by (rule turns_tasks [OF ord(1) _ _ run]) (simp_all add: ord(2))
  then obtain schedule states' where sched: "interleave C Z job chunk_order tasks schedule fs = (states', fs1)"
    and states': "length states' = length tasks" "\<And>i. i < length tasks \<Longrightarrow> states' ! i = Finished (results i)"
    by (auto simp: interleave_def ord(2))
  let ?outcomes = "map results [0..<length tasks]"
  have "states' = map Finished ?outcomes" using states' by (intro nth_equalityI) simp_all
  moreover have "run_inv C Z job chunk_order tasks fs (interleave C Z job chunk_order tasks schedule fs)"
    by (rule run_inv_interleave) (simp add: tasks_def planned_tasks_disjoint assms(1))
  ultimately have inv: "run_inv C Z job chunk_order tasks fs (map Finished ?outcomes, fs1)" by (simp add: sched)
  obtain r2 progress where aw: "await_tasks (dj_depot_id job) (pl_completed (plan_files is_match job fs manifest))
      (length (dm_files manifest)) ?outcomes = (r2, progress)"
    by (cases "await_tasks (dj_depot_id job) (pl_completed (plan_files is_match job fs manifest))
      (length (dm_files manifest)) ?outcomes")
  from assms(3) run aw have "r = r2" and "fs' = (case (r2, dj_previous_manifest job) of
       (Inr _, Some old) \<Rightarrow> fold (delete_removed (dj_install_dir job) manifest) (dm_files old) fs1 | _ \<Rightarrow> fs1)"
    by (auto simp: download_def Let_def tasks_def split: sum.splits option.splits)
  with aw inv show ?thesis by (intro that [of ?outcomes fs1 progress]) simp_all
qed

lemma planned_ready:
  assumes "manifest_wf manifest" "delta_intact job fs manifest"
    and "t \<in> set (pl_tasks (plan_files is_match job fs manifest))"
  shows "task_ready job fs t"
  using planned_wf [OF assms] by (simp add: task_ready_def task_wf_def)

text \<open>
  Any point of any schedule: every file to download is as before or complete, everything outside of the
  paths of the tasks is as before.
\<close>

lemma interleave_safe:
  assumes "manifest_wf manifest" "delta_intact job fs manifest" "\<And>i. complete_order (chunk_order i)"
    and run: "interleave_faulty C Z job chunk_order (pl_tasks (plan_files is_match job fs manifest)) schedule fs = (states, fs')"
  shows "t \<in> set (pl_tasks (plan_files is_match job fs manifest)) \<Longrightarrow>
      file_valid fs' t \<or> fs_files fs' (ft_path t) = fs_files fs (ft_path t)"
    and "(\<And>t. t \<in> set (pl_tasks (plan_files is_match job fs manifest)) \<Longrightarrow> q \<notin> own_paths job t) \<Longrightarrow>
      view fs' q = view fs q"
proof -
  let ?tasks = "pl_tasks (plan_files is_match job fs manifest)"
  from run_inv_faulty [OF planned_tasks_disjoint [OF assms(1)], of C Z job chunk_order is_match fs fs schedule]
  have inv: "run_inv C Z job chunk_order ?tasks fs (states, fs')" by (simp add: run)
  show "file_valid fs' t \<or> fs_files fs' (ft_path t) = fs_files fs (ft_path t)" if t: "t \<in> set ?tasks"
  proof -
    from t obtain i where i: "i < length ?tasks" "t = ?tasks ! i" by (auto simp: in_set_conv_nth)
    have "task_ready job fs t" by (rule planned_ready [OF assms(1,2) t])
    moreover have "task_at C Z job (chunk_order i) t fs (states ! i) fs'" using inv i by (simp add: run_inv_def)
    ultimately show ?thesis using task_at_safe assms(3) by blast
  qed
  show "view fs' q = view fs q" if "\<And>t. t \<in> set ?tasks \<Longrightarrow> q \<notin> own_paths job t"
    using inv that by (auto simp: run_inv_def agree_def)
qed

text \<open>A path of a named file belongs to the task of that file alone.\<close>

lemma names_of_inj:
  assumes "distinct (List.map_filter h xs)" "x \<in> set xs" "y \<in> set xs" "h x = Some n" "h y = Some n"
  shows "x = y"
  using assms by (induction xs) (auto simp: map_filter_simps set_map_filter_iff split: option.splits)

lemma named_path_own:
  assumes wf: "manifest_wf manifest" and f: "f \<in> set (dm_files manifest)" "mf_filename f = Some name"
    and t: "t \<in> set (pl_tasks (plan_files is_match job fs manifest))"
    and own: "path_join (dj_install_dir job) name \<in> own_paths job t"
  shows "t = make_task job f name"
proof -
  from t obtain g name' where g: "g \<in> set (dm_files manifest)" "mf_filename g = Some name'"
    and t': "t = make_task job g name'" by (auto simp: plan_task_mem wanted_def)
  from wf f g have "plain_name name" "plain_name name'"
    by (auto simp: manifest_wf_def names_of_def list_all_iff set_map_filter_iff)
  moreover have "path_join (dj_install_dir job) name = path_join (dj_install_dir job) name'
      \<or> path_join (dj_install_dir job) name = path_join (path_join (dj_install_dir job) ''.staging'') name'"
    using own by (simp add: own_paths_def t' make_task_def staging_path_def)
  ultimately have "name = name'"
    using staging_apart path_join_inj by metis
  moreover from this wf f g have "f = g"
    by (intro names_of_inj [of mf_filename "dm_files manifest"]) (simp_all add: manifest_wf_def names_of_def)
  ultimately show ?thesis using t' by simp
qed

text \<open>A job that finds some of its files complete: those stay, the others become so.\<close>

lemma download_valid_kept:
  assumes wf: "manifest_wf manifest"
    and old: "case dj_previous_manifest job of None \<Rightarrow> True | Some old \<Rightarrow> list_all plain_name (names_of old)"
    and orders: "complete_order task_order" "\<And>i. complete_order (chunk_order i)"
    and run: "download C Z is_match job task_order chunk_order manifest fs = (Inr (), ev, fs')"
    and ready: "\<And>t. t \<in> set (pl_tasks (plan_files is_match job fs manifest)) \<Longrightarrow> task_ready job fs t"
    and f: "f \<in> set (dm_files manifest)" "mf_filename f = Some name"
    and valid: "wanted is_match job fs f name \<or> file_valid fs (make_task job f name)"
  shows "file_valid fs' (make_task job f name)"
proof (rule download_as_schedule [OF wf orders(1) run])
  let ?t = "make_task job f name" and ?pl = "plan_files is_match job fs manifest"
  fix outcomes fs1 progress
  assume len: "length outcomes = length (pl_tasks ?pl)"
    and inv: "run_inv C Z job chunk_order (pl_tasks ?pl) fs (map Finished outcomes, fs1)"
    and aw: "await_tasks (dj_depot_id job) (pl_completed ?pl) (length (dm_files manifest)) outcomes = (Inr (), progress)"
    and fs': "fs' = (case (Inr (), dj_previous_manifest job) of
       (Inr _, Some old) \<Rightarrow> fold (delete_removed (dj_install_dir job) manifest) (dm_files old) fs1 | _ \<Rightarrow> fs1)"
  have "file_valid fs1 ?t"
  proof (cases "?t \<in> set (pl_tasks ?pl)")
    case True
    then obtain i where i: "i < length (pl_tasks ?pl)" "pl_tasks ?pl ! i = ?t" by (auto simp: in_set_conv_nth)
    then have "outcomes ! i = Inr ()" using await_tasks_ok [OF aw, of "outcomes ! i"] len by simp
    with inv i len have "task_at C Z job (chunk_order i) ?t fs (Finished (Inr ())) fs1" by (auto simp: run_inv_def)
    with task_at_finished [OF ready [OF True] orders(2)] show ?thesis by blast
  next
    case False
    then have "file_valid fs ?t" using valid f(1) by (auto simp: plan_task_mem)
    moreover have "ft_path ?t \<notin> own_paths job t" if "t \<in> set (pl_tasks ?pl)" for t
      using named_path_own [OF wf f that] False that by (auto simp: make_task_def)
    then have "view fs1 (ft_path ?t) = view fs (ft_path ?t)" using inv by (auto simp: run_inv_def agree_def)
    ultimately show ?thesis using file_valid_cong [of fs1 ?t fs] by (simp add: view_def)
  qed
  moreover have "fs_files fs' (ft_path ?t) = fs_files fs1 (ft_path ?t)"
    using old wf named_not_removed [OF _ _ f, of _ "dj_install_dir job"] unfolding manifest_wf_def
    by (auto simp: fs' delete_removed_all make_task_def split: option.splits)
  ultimately show "file_valid fs' ?t" using file_valid_cong [of fs' ?t fs1] by simp
qed

lemma refetch [simp]:
  "make_task (job\<lparr>dj_fetcher := fetch\<rparr>) = make_task job"
  "staging_path (job\<lparr>dj_fetcher := fetch\<rparr>) = staging_path job"
  "wanted is_match (job\<lparr>dj_fetcher := fetch\<rparr>) = wanted is_match job"
  "task_ready (job\<lparr>dj_fetcher := fetch\<rparr>) = task_ready job"
  by (simp_all add: fun_eq_iff make_task_def staging_path_def wanted_def file_unchanged_def task_ready_def task_wf_def split: option.split)

section \<open>Two files, side by side\<close>

definition two_files :: depot_manifest where
  "two_files = sample_manifest\<lparr>dm_files := [sample_file, sample_file\<lparr>mf_filename := Some ''c''\<rparr>]\<rparr>"

lemma two_files_wf: "manifest_wf two_files"
  using sample_chunks_wf
  by (simp add: manifest_wf_def two_files_def sample_manifest_def names_of_def map_filter_simps sample_file_def
      plain_name_def)

lemma two_files_intact: "delta_intact sample_job fs two_files"
  by (simp add: delta_intact_def two_files_def sample_manifest_def delta_ok_def make_task_def find_old_def sample_job_def
      old_manifest_def sample_file_def)

lemma two_files_tasks:
  "pl_tasks (plan_files is_match sample_job fs two_files)
     = [sample_task, sample_task\<lparr>ft_path := ''d/c'', ft_filename := ''c''\<rparr>]"
  by (simp add: plan_tasks two_files_def sample_manifest_def planned_task_def wanted_def map_filter_simps sample_file_def
      sample_job_def entry_is_directory_def file_unchanged_def find_old_def old_manifest_def make_task_def
      sample_task_def path_join_def suffix_Cons)

lemma sample_fetches:
  "ft_old_chunks t = None \<Longrightarrow> ft_chunks t = [sample_chunk] \<Longrightarrow>
    fetches_of sample_job t {} fs = [(sample_chunk, ChunkId [1])]"
  by (simp add: fetches_of_def to_fetch_def map_filter_simps sample_chunk_def)

text \<open>The changes of a sample task on a disk that has neither of its files.\<close>

lemma sample_task_ops:
  assumes "ft_old_chunks t = None" "ft_chunks t = [sample_chunk]" "ft_size t = Some 3" "ft_flags t = None"
    and "fs_files fs (staging_path sample_job t) = None" "file_has_correct_size fs (ft_path t) (Some 3) = False"
  shows "task_ops plain_crypto stored_codecs sample_job (\<lambda>n. [0..<n]) t fs =
    (Inr (), [CreateFile (staging_path sample_job t), SetLen (staging_path sample_job t) 3,
      WriteAt (staging_path sample_job t) 0 [1, 2, 3], RenameFile (staging_path sample_job t) (ft_path t)])"
proof -
  have "mc_offset sample_chunk = Some 0" by (simp add: sample_chunk_def)
  with assms show ?thesis
    by (simp add: task_ops_def file_ops_def fill_ops_def sample_fetches sample_chunk_value copy_ops_def
        file_has_valid_chunks_def file_has_correct_size_def [of fs "staging_path sample_job t"]
        enumerate_simps first_error_def map_filter_simps Let_def)
qed

lemma sample_paths:
  "staging_path sample_job sample_task = ''d/.staging/a''" "ft_path sample_task = ''d/a''"
  "staging_path sample_job (sample_task\<lparr>ft_path := ''d/c'', ft_filename := ''c''\<rparr>) = ''d/.staging/c''"
  by (simp_all add: staging_path_def sample_job_def path_join_def suffix_Cons sample_task_fields)

lemma sample_tasks_ops:
  "fs_files fs ''d/a'' \<in> {None, Some [7]} \<Longrightarrow> fs_files fs ''d/.staging/a'' = None \<Longrightarrow>
    task_ops plain_crypto stored_codecs sample_job (\<lambda>n. [0..<n]) sample_task fs =
      (Inr (), [CreateFile ''d/.staging/a'', SetLen ''d/.staging/a'' 3, WriteAt ''d/.staging/a'' 0 [1, 2, 3],
        RenameFile ''d/.staging/a'' ''d/a''])"
  "fs_files fs ''d/c'' = None \<Longrightarrow> fs_files fs ''d/.staging/c'' = None \<Longrightarrow>
    task_ops plain_crypto stored_codecs sample_job (\<lambda>n. [0..<n])
        (sample_task\<lparr>ft_path := ''d/c'', ft_filename := ''c''\<rparr>) fs =
      (Inr (), [CreateFile ''d/.staging/c'', SetLen ''d/.staging/c'' 3, WriteAt ''d/.staging/c'' 0 [1, 2, 3],
        RenameFile ''d/.staging/c'' ''d/c''])"
  using sample_task_ops [of sample_task fs] sample_task_ops [of "sample_task\<lparr>ft_path := ''d/c'', ft_filename := ''c''\<rparr>" fs]
    sample_paths
  by (auto simp: sample_task_fields file_has_correct_size_def)

lemma task_turn_eqs:
  "i < length states \<Longrightarrow> states ! i = Waiting \<Longrightarrow> task_turn C Z job chunk_order tasks i (states, fs)
     = (states[i := Writing (snd (task_ops C Z job (chunk_order i) (tasks ! i) fs))
                            (fst (task_ops C Z job (chunk_order i) (tasks ! i) fs))], fs)"
  "i < length states \<Longrightarrow> states ! i = Writing [] r \<Longrightarrow> task_turn C Z job chunk_order tasks i (states, fs)
     = (states[i := Finished r], fs)"
  "i < length states \<Longrightarrow> states ! i = Writing (op # ops) r \<Longrightarrow> task_turn C Z job chunk_order tasks i (states, fs)
     = (states[i := Writing ops r], apply_op op fs)"
  by (simp_all add: task_turn_def split_beta)

lemma task_fault_eq:
  "i < length states \<Longrightarrow> states ! i = Writing (op # ops) r \<Longrightarrow> \<not> is_chmod op \<Longrightarrow> task_fault i e n keep (states, fs)
     = (states[i := Failing (filter (\<lambda>op. is_write op \<and> keep op) ops) e], partial_op n op fs)"
  by (simp add: task_fault_def)

lemmas sample_turns = interleave_def interleave_faulty_def two_files_tasks task_turn_eqs task_fault_eq sample_tasks_ops
  no_files_def write_file_def rename_file_def write_at_def numeral_2_eq_2 numeral_3_eq_3

text \<open>The disk is full when \<open>c\<close> is installed and two bytes of \<open>a\<close> are written; then the process is killed.\<close>

definition killed_schedule :: "disk_event list" where
  "killed_schedule = map Turn [0, 1, 1, 0, 0, 1, 1, 1, 1] @ [Fault 0 (Message ''disk full'') 2 (\<lambda>op. True)]"

lemma two_files_killed:
  "let fs = write_file ''d/a'' [7] no_files;
       run = interleave_faulty plain_crypto stored_codecs sample_job (\<lambda>i n. [0..<n])
               (pl_tasks (plan_files is_match sample_job fs two_files)) killed_schedule fs
   in fst run = [Failing [] (Message ''disk full''), Finished (Inr ())]
      \<and> fs_files (snd run) ''d/a'' = Some [7] \<and> fs_files (snd run) ''d/.staging/a'' = Some [1, 2, 0]
      \<and> fs_files (snd run) ''d/c'' = Some [1, 2, 3]"
  by (simp add: sample_turns killed_schedule_def Let_def)

lemma two_files_run:
  "\<exists>fs'. download_scheduled plain_crypto stored_codecs (\<lambda>_ _. True) sample_job
      [0, 1, 1, 0, 0, 1, 1, 1, 1, 0, 0, 0] (\<lambda>i n. [0..<n]) two_files no_files = (Some (Inr ()), fs')
    \<and> fs_files fs' ''d/a'' = Some [1, 2, 3] \<and> fs_files fs' ''d/c'' = Some [1, 2, 3]"
proof -
  have "fs_files (fold (delete_removed ''d'' two_files) (dm_files old_manifest) fs) q
      = (if q = ''d/b'' then None else fs_files fs q)" for fs q
    unfolding delete_removed_all
    by (simp add: removed_paths_def old_manifest_def two_files_def sample_manifest_def names_of_def map_filter_simps
        sample_file_def entry_is_directory_def path_join_def suffix_Cons)
  moreover have "dj_previous_manifest sample_job = Some old_manifest" "dj_install_dir sample_job = ''d''"
    by (simp_all add: sample_job_def)
  ultimately show ?thesis
    by (simp add: download_scheduled_def sample_turns Let_def split_beta)
qed

section \<open>Properties\<close>



text \<open>
  C7: the result of a download and the disk it leaves do not depend on how its file tasks are
  interleaved: as soon as all have ended, they are those of the tasks run one after the other, in
  any order.
\<close>

theorem download_serial:
  assumes "manifest_wf manifest" "complete_order task_order"
    and "download_scheduled C Z is_match job schedule chunk_order manifest fs = (Some r, fs')"
  shows "\<exists>events. download C Z is_match job task_order chunk_order manifest fs = (r, events, fs')"
proof -
  let ?pl = "plan_files is_match job fs manifest"
  let ?tasks = "pl_tasks ?pl"
  obtain states fs1 where st: "interleave C Z job chunk_order ?tasks schedule fs = (states, fs1)"
    by (cases "interleave C Z job chunk_order ?tasks schedule fs")
  from assms(3) st obtain outcomes where o: "those (map task_outcome states) = Some outcomes"
    by (auto simp: download_scheduled_def Let_def split: option.splits)
  obtain r1 ev1 fs1' where run: "download C Z is_match job task_order chunk_order manifest fs = (r1, ev1, fs1')"
    by (cases "download C Z is_match job task_order chunk_order manifest fs")
  from run_inv_interleave [OF planned_tasks_disjoint [OF assms(1)], of C Z job chunk_order is_match fs fs schedule]
  have inv: "run_inv C Z job chunk_order ?tasks fs (states, fs1)" by (simp add: st)
  then have len: "length states = length ?tasks" by (simp add: run_inv_def)
  have "states = map Finished outcomes"
  proof -
    have "those (map task_outcome ss) = Some os \<Longrightarrow> ss = map Finished os" for ss os
    proof (induction ss arbitrary: os)
      case (Cons s ss)
      then show ?case by (cases s) (auto split: option.splits)
    qed simp
    with o show ?thesis by blast
  qed
  show ?thesis
  proof (rule download_as_schedule [OF assms(1,2) run])
    fix outcomes' fs2 progress
    assume *: "length outcomes' = length ?tasks" "run_inv C Z job chunk_order ?tasks fs (map Finished outcomes', fs2)"
      "await_tasks (dj_depot_id job) (pl_completed ?pl) (length (dm_files manifest)) outcomes' = (r1, progress)"
      "fs1' = (case (r1, dj_previous_manifest job) of
         (Inr _, Some old) \<Rightarrow> fold (delete_removed (dj_install_dir job) manifest) (dm_files old) fs2 | _ \<Rightarrow> fs2)"
    have "states = map Finished outcomes' \<and> fs1 = fs2"
      by (rule finished_unique [OF inv *(2)]) (use len *(1) \<open>states = map Finished outcomes\<close> in auto)
    then have "outcomes = outcomes'" "fs1 = fs2"
      using \<open>states = map Finished outcomes\<close> by (auto dest: map_injective simp: inj_def)
    with assms(3) st o *(3,4) have "r1 = r \<and> fs1' = fs'"
      by (auto simp: download_scheduled_def Let_def split: sum.splits option.splits)
    with run show ?thesis by blast
  qed
qed

theorem download_serial_witness:
  "\<exists>events fs'. download plain_crypto stored_codecs (\<lambda>_ _. True) sample_job (\<lambda>n. rev [0..<n]) (\<lambda>i n. [0..<n])
      two_files no_files = (Inr (), events, fs')
    \<and> fs_files fs' ''d/a'' = Some [1, 2, 3] \<and> fs_files fs' ''d/c'' = Some [1, 2, 3]"
proof -
  have "complete_order (\<lambda>n. rev [0..<n])" by (simp add: complete_order_def atLeast0LessThan)
  moreover obtain fs' where run: "download_scheduled plain_crypto stored_codecs (\<lambda>_ _. True) sample_job
      [0, 1, 1, 0, 0, 1, 1, 1, 1, 0, 0, 0] (\<lambda>i n. [0..<n]) two_files no_files = (Some (Inr ()), fs')"
    and files: "fs_files fs' ''d/a'' = Some [1, 2, 3]" "fs_files fs' ''d/c'' = Some [1, 2, 3]"
    using two_files_run by metis
  ultimately show ?thesis using download_serial [OF two_files_wf _ run] by blast
qed



end
