(* ===== verification/Permits.thy ===== *)
theory Permits
  imports Download_Props
begin

text \<open>
  The chunk tasks of \<^verbatim>\<open>crates/steam-client/src/download.rs\<close> while they run: they share the semaphore of
  the job, and those of one file its lock. Shows that they always come to an end, that no more of
  them than there are permits are at work, and that what a staging file holds at the end is what
  its tasks write one after the other in some order: the order that \<^verbatim>\<open>fill_staging\<close> takes as an argument.

  A chunk task that has not been spawned yet counts as queued. Fetching, with its retries, and the
  processing of the chunk are one step whose outcome is given.
\<close>

section \<open>The chunk tasks\<close>

record chunk_job =
  cj_file :: nat
  cj_chunk :: manifest_chunk
  cj_chunk_id :: chunk_id
  cj_result :: "box_error + bytes"

datatype chunk_phase = Queued | Fetching | AtLock | Locked | Leaving | Ended

record chunk_run =
  cr_permits :: nat
  cr_locked :: "nat set"
  cr_phases :: "chunk_phase list"
  cr_contents :: "nat \<Rightarrow> bytes"
  cr_log :: "nat list"

definition result_of :: "chunk_job \<Rightarrow> manifest_chunk \<times> chunk_id \<times> (box_error + bytes)" where
  "result_of j = (cj_chunk j, cj_chunk_id j, cj_result j)"

text \<open>What a task does to the content of its file.\<close>

definition write_result :: "chunk_job \<Rightarrow> bytes \<Rightarrow> bytes" where
  "write_result j content =
     (case cj_result j of Inl e \<Rightarrow> content | Inr decompressed \<Rightarrow> write_chunk (cj_chunk j) decompressed content)"

text \<open>
  The next step of task \<open>i\<close>, when it has one: to acquire a permit; to fetch and process; to take the
  lock of the file if there is something to write; to write and release the lock; to give the permit back. The
  log records the tasks that are done with the file.
\<close>

definition chunk_turn :: "chunk_job list \<Rightarrow> nat \<Rightarrow> chunk_run \<Rightarrow> chunk_run option" where
  "chunk_turn jobs i s =
     (if i < length (cr_phases s) then
        let j = jobs ! i; f = cj_file j; enter = (\<lambda>p. s\<lparr>cr_phases := (cr_phases s)[i := p]\<rparr>)
        in (case cr_phases s ! i of
              Queued \<Rightarrow>
                if cr_permits s = 0 then None else Some ((enter Fetching)\<lparr>cr_permits := cr_permits s - 1\<rparr>)
            | Fetching \<Rightarrow>
                if is_ok (cj_result j) \<and> mc_offset (cj_chunk j) \<noteq> None then Some (enter AtLock)
                else Some ((enter Leaving)\<lparr>cr_log := cr_log s @ [i]\<rparr>)
            | AtLock \<Rightarrow>
                if f \<in> cr_locked s then None else Some ((enter Locked)\<lparr>cr_locked := insert f (cr_locked s)\<rparr>)
            | Locked \<Rightarrow>
                Some ((enter Leaving)\<lparr>cr_locked := cr_locked s - {f},
                  cr_contents := (cr_contents s)(f := write_result j (cr_contents s f)),
                  cr_log := cr_log s @ [i]\<rparr>)
            | Leaving \<Rightarrow> Some ((enter Ended)\<lparr>cr_permits := cr_permits s + 1\<rparr>)
            | Ended \<Rightarrow> None)
      else None)"

fun chunk_turns :: "chunk_job list \<Rightarrow> nat list \<Rightarrow> chunk_run \<Rightarrow> chunk_run option" where
  "chunk_turns jobs [] s = Some s"
| "chunk_turns jobs (i # is) s = Option.bind (chunk_turn jobs i s) (chunk_turns jobs is)"

text \<open>All files of a job at once: their staging files and the chunks each has to fetch.\<close>

definition jobs_of :: "nat \<Rightarrow> (manifest_chunk \<times> chunk_id \<times> (box_error + bytes)) list \<Rightarrow> chunk_job list" where
  "jobs_of k results = map (\<lambda>(chunk, chunk_id, res).
     \<lparr>cj_file = k, cj_chunk = chunk, cj_chunk_id = chunk_id, cj_result = res\<rparr>) results"

definition all_jobs :: "(manifest_chunk \<times> chunk_id \<times> (box_error + bytes)) list list \<Rightarrow> chunk_job list" where
  "all_jobs files = concat (map (\<lambda>(k, results). jobs_of k results) (enumerate 0 files))"

definition chunk_start :: "nat \<Rightarrow> chunk_job list \<Rightarrow> (nat \<Rightarrow> bytes) \<Rightarrow> chunk_run" where
  "chunk_start max_downloads jobs contents =
     \<lparr>cr_permits = max_downloads, cr_locked = {}, cr_phases = replicate (length jobs) Queued,
      cr_contents = contents, cr_log = []\<rparr>"

section \<open>Permits, locks and writes\<close>

definition at_work :: "chunk_phase \<Rightarrow> bool" where
  "at_work p \<longleftrightarrow> p \<noteq> Queued \<and> p \<noteq> Ended"

definition settled :: "chunk_phase \<Rightarrow> bool" where
  "settled p \<longleftrightarrow> p = Leaving \<or> p = Ended"

lemma at_work_simps [simp]:
  "\<not> at_work Queued" "at_work Fetching" "at_work AtLock" "at_work Locked" "at_work Leaving" "\<not> at_work Ended"
  by (simp_all add: at_work_def)

lemma settled_simps [simp]:
  "\<not> settled Queued" "\<not> settled Fetching" "\<not> settled AtLock" "\<not> settled Locked" "settled Leaving" "settled Ended"
  by (simp_all add: settled_def)

text \<open>The tasks in a phase of some kind.\<close>

definition tasks_in :: "(chunk_phase \<Rightarrow> bool) \<Rightarrow> chunk_run \<Rightarrow> nat set" where
  "tasks_in P s = {i. i < length (cr_phases s) \<and> P (cr_phases s ! i)}"

lemma finite_tasks_in [simp]: "finite (tasks_in P s)"
  by (simp add: tasks_in_def)

lemma mem_tasks_in: "i < length (cr_phases s) \<Longrightarrow> i \<in> tasks_in P s \<longleftrightarrow> P (cr_phases s ! i)"
  by (simp add: tasks_in_def)

lemma tasks_in_enter:
  "i < length (cr_phases s) \<Longrightarrow> tasks_in P (s\<lparr>cr_phases := (cr_phases s)[i := p]\<rparr>)
     = (if P p then insert i (tasks_in P s) else tasks_in P s - {i})"
  by (auto simp: tasks_in_def nth_list_update)

lemma tasks_in_update [simp]:
  "tasks_in P (s\<lparr>cr_permits := n\<rparr>) = tasks_in P s" "tasks_in P (s\<lparr>cr_locked := L\<rparr>) = tasks_in P s"
  "tasks_in P (s\<lparr>cr_contents := c\<rparr>) = tasks_in P s" "tasks_in P (s\<lparr>cr_log := l\<rparr>) = tasks_in P s"
  by (simp_all add: tasks_in_def)

text \<open>
  The permits given out are those of the tasks at work; the locked files are those of the tasks that
  hold a lock, one each; the log names the tasks that are done with the file, and the files hold what these have written.
\<close>

definition chunk_inv :: "nat \<Rightarrow> chunk_job list \<Rightarrow> (nat \<Rightarrow> bytes) \<Rightarrow> chunk_run \<Rightarrow> bool" where
  "chunk_inv n jobs c0 s \<longleftrightarrow>
     length (cr_phases s) = length jobs
     \<and> cr_permits s + card (tasks_in at_work s) = n
     \<and> cr_locked s = (\<lambda>i. cj_file (jobs ! i)) ` tasks_in ((=) Locked) s
     \<and> inj_on (\<lambda>i. cj_file (jobs ! i)) (tasks_in ((=) Locked) s)
     \<and> distinct (cr_log s) \<and> set (cr_log s) = tasks_in settled s
     \<and> (\<forall>f. cr_contents s f = fold write_result
          (map ((!) jobs) (filter (\<lambda>i. cj_file (jobs ! i) = f) (cr_log s))) (c0 f))"

lemma chunk_inv_start: "chunk_inv n jobs c0 (chunk_start n jobs c0)"
proof -
  have "tasks_in P (chunk_start n jobs c0) = {}" if "\<not> P Queued" for P
    using that by (auto simp: tasks_in_def chunk_start_def)
  then show ?thesis by (simp add: chunk_inv_def) (simp add: chunk_start_def)
qed

lemma write_result_idle:
  "\<not> (is_ok (cj_result j) \<and> mc_offset (cj_chunk j) \<noteq> None) \<Longrightarrow> write_result j content = content"
  by (cases "cj_result j") (auto simp: write_result_def write_chunk_def)

text \<open>The steps, one by one.\<close>

lemma chunk_turn_cases:
  assumes "chunk_turn jobs i s = Some s'"
  obtains
    (acquire) "i < length (cr_phases s)" "cr_phases s ! i = Queued" "0 < cr_permits s"
      "s' = s\<lparr>cr_phases := (cr_phases s)[i := Fetching]\<rparr>\<lparr>cr_permits := cr_permits s - 1\<rparr>"
  | (fetched) "i < length (cr_phases s)" "cr_phases s ! i = Fetching"
      "s' = s\<lparr>cr_phases := (cr_phases s)[i := AtLock]\<rparr>"
  | (idle) "i < length (cr_phases s)" "cr_phases s ! i = Fetching" "\<And>content. write_result (jobs ! i) content = content"
      "s' = s\<lparr>cr_phases := (cr_phases s)[i := Leaving]\<rparr>\<lparr>cr_log := cr_log s @ [i]\<rparr>"
  | (lock) "i < length (cr_phases s)" "cr_phases s ! i = AtLock" "cj_file (jobs ! i) \<notin> cr_locked s"
      "s' = s\<lparr>cr_phases := (cr_phases s)[i := Locked]\<rparr>\<lparr>cr_locked := insert (cj_file (jobs ! i)) (cr_locked s)\<rparr>"
  | (wrote) "i < length (cr_phases s)" "cr_phases s ! i = Locked"
      "s' = s\<lparr>cr_phases := (cr_phases s)[i := Leaving]\<rparr>\<lparr>cr_locked := cr_locked s - {cj_file (jobs ! i)},
         cr_contents := (cr_contents s)(cj_file (jobs ! i) :=
           write_result (jobs ! i) (cr_contents s (cj_file (jobs ! i)))), cr_log := cr_log s @ [i]\<rparr>"
  | (leave) "i < length (cr_phases s)" "cr_phases s ! i = Leaving"
      "s' = s\<lparr>cr_phases := (cr_phases s)[i := Ended]\<rparr>\<lparr>cr_permits := cr_permits s + 1\<rparr>"
proof (cases "i < length (cr_phases s)")
  case True
  show ?thesis
  proof (cases "cr_phases s ! i")
    case Fetching
    show ?thesis
    proof (cases "is_ok (cj_result (jobs ! i)) \<and> mc_offset (cj_chunk (jobs ! i)) \<noteq> None")
      case False
      with True Fetching assms have "s' = s\<lparr>cr_phases := (cr_phases s)[i := Leaving]\<rparr>\<lparr>cr_log := cr_log s @ [i]\<rparr>"
        by (auto simp: chunk_turn_def Let_def split: if_splits)
      with idle True Fetching write_result_idle [OF False] show ?thesis by blast
    qed (use True Fetching assms fetched in \<open>simp add: chunk_turn_def Let_def\<close>)
  qed (use True assms acquire lock wrote leave in \<open>auto simp: chunk_turn_def Let_def split: if_splits\<close>)
qed (use assms in \<open>simp add: chunk_turn_def\<close>)

lemma chunk_inv_turn:
  assumes inv: "chunk_inv n jobs c0 s" and turn: "chunk_turn jobs i s = Some s'"
  shows "chunk_inv n jobs c0 s'"
proof -
  let ?f = "\<lambda>i. cj_file (jobs ! i)"
  have locked: "cr_locked s = ?f ` tasks_in ((=) Locked) s" "inj_on ?f (tasks_in ((=) Locked) s)"
    and work: "cr_permits s + card (tasks_in at_work s) = n"
    and log: "set (cr_log s) = tasks_in settled s"
    using inv by (simp_all add: chunk_inv_def)
  from turn show ?thesis
  proof (cases rule: chunk_turn_cases)
    case acquire
    with inv show ?thesis
      by (auto simp: chunk_inv_def tasks_in_enter mem_tasks_in card_insert_if)
  next
    case fetched
    with inv show ?thesis
      by (auto simp: chunk_inv_def tasks_in_enter mem_tasks_in insert_absorb)
  next
    case idle
    with inv log show ?thesis
      by (auto simp: chunk_inv_def tasks_in_enter mem_tasks_in insert_absorb)
  next
    case lock
    with inv show ?thesis
      by (auto simp: chunk_inv_def tasks_in_enter mem_tasks_in insert_absorb)
  next
    case wrote
    then have i: "i \<in> tasks_in ((=) Locked) s" by (simp add: mem_tasks_in)
    with locked have "cr_locked s - {?f i} = ?f ` (tasks_in ((=) Locked) s - {i})"
      by (auto simp: inj_on_def)
    with wrote inv log inj_on_diff [OF locked(2), of "{i}"] show ?thesis
      by (auto simp: chunk_inv_def tasks_in_enter mem_tasks_in insert_absorb)
  next
    case leave
    then have "i \<in> tasks_in at_work s" by (simp add: mem_tasks_in)
    then have "0 < card (tasks_in at_work s)" by (auto simp: card_gt_0_iff)
    with leave inv show ?thesis
      by (auto simp: chunk_inv_def tasks_in_enter mem_tasks_in insert_absorb)
  qed
qed

section \<open>Every run ends\<close>

text \<open>The steps a task has left.\<close>

fun steps_left :: "chunk_phase \<Rightarrow> nat" where
  "steps_left Queued = 5"
| "steps_left Fetching = 4"
| "steps_left AtLock = 3"
| "steps_left Locked = 2"
| "steps_left Leaving = 1"
| "steps_left Ended = 0"

definition work_left :: "chunk_run \<Rightarrow> nat" where
  "work_left s = sum_list (map steps_left (cr_phases s))"

lemma work_left_enter:
  assumes "i < length (cr_phases s)" "cr_phases s' = (cr_phases s)[i := p]" "steps_left p < steps_left (cr_phases s ! i)"
  shows "work_left s' < work_left s"
proof -
  have "steps_left (cr_phases s ! i) \<le> work_left s"
    using assms(1) by (auto simp: work_left_def intro: member_le_sum_list)
  with assms show ?thesis by (simp add: work_left_def map_update sum_list_update)
qed

lemma work_left_turn: "chunk_turn jobs i s = Some s' \<Longrightarrow> work_left s' < work_left s"
  by (cases rule: chunk_turn_cases, assumption) (rule work_left_enter, assumption, simp, simp)+

lemma chunk_turns_inv:
  "chunk_turns jobs is s = Some s' \<Longrightarrow> chunk_inv n jobs c0 s \<Longrightarrow>
    chunk_inv n jobs c0 s' \<and> length is + work_left s' \<le> work_left s"
proof (induction jobs "is" s rule: chunk_turns.induct)
  case (2 jobs i "is" s)
  then obtain s1 where "chunk_turn jobs i s = Some s1" "chunk_turns jobs is s1 = Some s'"
    by (auto simp: bind_eq_Some_conv)
  with 2 chunk_inv_turn [of n jobs c0 s i s1] work_left_turn [of jobs i s s1] show ?case by fastforce
qed simp

text \<open>As long as a task has not ended some task can go on.\<close>

lemma chunk_progress:
  assumes "0 < n" and inv: "chunk_inv n jobs c0 s" and stuck: "\<And>i. chunk_turn jobs i s = None"
  shows "\<forall>i < length (cr_phases s). cr_phases s ! i = Ended"
proof (intro allI impI)
  fix i
  assume i: "i < length (cr_phases s)"
  have "cr_phases s ! k \<noteq> Locked" if "k < length (cr_phases s)" for k
    using stuck [of k] that by (auto simp: chunk_turn_def Let_def)
  then have no_lock: "tasks_in ((=) Locked) s = {}" by (force simp: tasks_in_def)
  then have "cr_locked s = {}" using inv by (simp add: chunk_inv_def)
  have calm: "cr_phases s ! k = Queued \<or> cr_phases s ! k = Ended" if k: "k < length (cr_phases s)" for k
    using stuck [of k] k \<open>cr_locked s = {}\<close>
    by (cases "cr_phases s ! k") (auto simp: chunk_turn_def Let_def split: if_splits)
  then have "tasks_in at_work s = {}" by (auto simp: tasks_in_def at_work_def)
  then have "0 < cr_permits s" using inv \<open>0 < n\<close> by (simp add: chunk_inv_def)
  with stuck [of i] i have "cr_phases s ! i \<noteq> Queued" by (auto simp: chunk_turn_def Let_def)
  with calm [OF i] show "cr_phases s ! i = Ended" by simp
qed

text \<open>Without a permit no task ever begins.\<close>

lemma no_permits_no_step: "chunk_turn jobs i (chunk_start 0 jobs c0) = None"
  by (simp add: chunk_turn_def chunk_start_def Let_def)

section \<open>The order of the writes\<close>

lemma write_results_finish:
  "fold write_result js content = fst (fold (finish_chunk dep) (map result_of js) (content, events))"
  by (induction js arbitrary: content events)
     (simp_all add: result_of_def write_result_def finish_chunk_def split: sum.split)

lemma result_of_jobs: "map result_of (jobs_of k results) = results"
  by (simp add: jobs_of_def result_of_def o_def split_beta)

lemma jobs_of_file:
  "filter (\<lambda>j. cj_file j = k) (concat (map (\<lambda>(k, results). jobs_of k results) (enumerate m files)))
     = (if m \<le> k \<and> k < m + length files then jobs_of k (files ! (k - m)) else [])"
proof (induction files arbitrary: m)
  case (Cons results files)
  have "filter (\<lambda>j. cj_file j = k) (jobs_of m results) = (if k = m then jobs_of k results else [])"
    by (auto simp: jobs_of_def filter_empty_conv filter_id_conv)
  with Cons.IH show ?case by (auto simp: enumerate_simps nth_Cons' Suc_diff_Suc)
qed auto

text \<open>The members of a list in another order, by their positions.\<close>

lemma positions:
  assumes "distinct xs" "distinct ys" "set ys = set xs"
  obtains order where "distinct order" "set order = {..<length xs}" "map ((!) xs) order = ys"
proof -
  define pos where "pos y = (SOME k. k < length xs \<and> xs ! k = y)" for y
  have pos: "pos y < length xs \<and> xs ! pos y = y" if "y \<in> set xs" for y
    unfolding pos_def by (rule someI_ex) (use that in \<open>simp add: in_set_conv_nth\<close>)
  have "pos (xs ! k) = k" if "k < length xs" for k
    using pos [of "xs ! k"] that nth_eq_iff_index_eq [OF assms(1), of "pos (xs ! k)" k] by simp
  then have "(\<lambda>k. pos (xs ! k)) ` {..<length xs} = (\<lambda>k. k) ` {..<length xs}" by (intro image_cong) simp_all
  moreover have "set xs = (!) xs ` {..<length xs}" by (auto simp: set_conv_nth)
  ultimately have "pos ` set xs = {..<length xs}" by (simp add: image_image)
  moreover have "inj_on pos (set xs)" using pos by (metis inj_onI)
  moreover have "map ((!) xs) (map pos ys) = ys" using pos assms(3) by (auto intro: map_idI)
  ultimately show ?thesis
    using assms by (intro that [of "map pos ys"]) (simp_all add: distinct_map)
qed

lemma chunk_run_file:
  assumes inv: "chunk_inv n (all_jobs files) c0 s" and ended: "\<forall>i < length (cr_phases s). cr_phases s ! i = Ended"
    and k: "k < length files"
  shows "\<exists>order. distinct order \<and> set order = {..<length (files ! k)}
    \<and> cr_contents s k = fst (fold (finish_chunk dep) (map ((!) (files ! k)) order) (c0 k, events))"
proof -
  let ?jobs = "all_jobs files"
  let ?mine = "\<lambda>i. cj_file (?jobs ! i) = k"
  let ?all = "filter ?mine [0..<length ?jobs]" and ?log = "filter ?mine (cr_log s)"
  have "set (cr_log s) = {..<length ?jobs}"
    using inv ended by (auto simp: chunk_inv_def tasks_in_def)
  then have "distinct ?log" "set ?log = set ?all" using inv by (auto simp: chunk_inv_def)
  then obtain order where order: "distinct order" "set order = {..<length ?all}" "map ((!) ?all) order = ?log"
    using positions [of ?all ?log] by auto
  have "map ((!) ?jobs) ?all = filter (\<lambda>j. cj_file j = k) (map ((!) ?jobs) [0..<length ?jobs])"
    by (simp add: filter_map o_def)
  also have "\<dots> = jobs_of k (files ! k)"
    using jobs_of_file [of k 0 files] k by (simp add: map_nth all_jobs_def)
  finally have mine: "map ((!) ?jobs) ?all = jobs_of k (files ! k)" .
  have len: "length ?all = length (files ! k)"
    using arg_cong [OF mine, of length] by (simp add: jobs_of_def)
  have "map ((!) ?jobs) ?log = map (\<lambda>i. ?jobs ! (?all ! i)) order"
    by (simp add: order(3) [symmetric])
  also have "\<dots> = map ((!) (map ((!) ?jobs) ?all)) order"
    using order(2) by auto
  finally have "map ((!) ?jobs) ?log = map ((!) (jobs_of k (files ! k))) order" unfolding mine .
  moreover have "map result_of (map ((!) (jobs_of k (files ! k))) order) = map ((!) (files ! k)) order"
  proof -
    have "result_of (jobs_of k (files ! k) ! i) = files ! k ! i" if "i \<in> set order" for i
      using that order(2) len arg_cong [OF result_of_jobs [of k "files ! k"], of "\<lambda>xs. xs ! i"]
      by (simp add: jobs_of_def)
    then show ?thesis by simp
  qed
  ultimately have "cr_contents s k = fst (fold (finish_chunk dep) (map ((!) (files ! k)) order) (c0 k, events))"
    using inv write_results_finish [of "map ((!) (jobs_of k (files ! k))) order" "c0 k" dep events]
    by (simp only: chunk_inv_def)
  with order(1,2) len show ?thesis by auto
qed

section \<open>Properties\<close>

text \<open>
  C8: with a positive number of permits the chunk tasks of a job always come to an end: in whatever
  order they take their steps there are at most five for each, never more of them are at work than there are
  permits, and when none can go on all have ended, every permit is back, and each
  staging file holds what its tasks write one after the other, each once, in some order.
\<close>

theorem chunk_tasks_end:
  assumes "0 < max_downloads"
    and "chunk_turns (all_jobs files) schedule (chunk_start max_downloads (all_jobs files) contents) = Some s"
  shows "length schedule \<le> 5 * length (all_jobs files) \<and> card (tasks_in at_work s) \<le> max_downloads
    \<and> ((\<forall>i. chunk_turn (all_jobs files) i s = None) \<longrightarrow>
        set (cr_phases s) \<subseteq> {Ended} \<and> cr_permits s = max_downloads
        \<and> (\<forall>k < length files. \<exists>order. distinct order \<and> set order = {..<length (files ! k)}
            \<and> cr_contents s k = fst (fold (finish_chunk dep) (map ((!) (files ! k)) order) (contents k, []))))"
proof -
  let ?jobs = "all_jobs files"
  from chunk_turns_inv [OF assms(2) chunk_inv_start]
  have inv: "chunk_inv max_downloads ?jobs contents s"
    and "length schedule + work_left s \<le> work_left (chunk_start max_downloads ?jobs contents)" by simp_all
  then have "length schedule \<le> 5 * length ?jobs" "card (tasks_in at_work s) \<le> max_downloads"
    by (simp_all add: work_left_def chunk_start_def sum_list_replicate chunk_inv_def)
  moreover have "set (cr_phases s) \<subseteq> {Ended} \<and> cr_permits s = max_downloads
        \<and> (\<forall>k < length files. \<exists>order. distinct order \<and> set order = {..<length (files ! k)}
            \<and> cr_contents s k = fst (fold (finish_chunk dep) (map ((!) (files ! k)) order) (contents k, [])))"
    if stuck: "\<forall>i. chunk_turn ?jobs i s = None"
  proof -
    have ended: "\<forall>i < length (cr_phases s). cr_phases s ! i = Ended"
      using chunk_progress [OF assms(1) inv] stuck by blast
    then have "tasks_in at_work s = {}" by (auto simp: tasks_in_def at_work_def)
    with inv have "cr_permits s = max_downloads" by (simp add: chunk_inv_def)
    moreover have "set (cr_phases s) \<subseteq> {Ended}" using ended by (auto simp: in_set_conv_nth)
    ultimately show ?thesis using chunk_run_file [OF inv ended] by blast
  qed
  ultimately show ?thesis by blast
qed

text \<open>Two chunks of one file, fetched at the same time; the second one is written first.\<close>

definition two_chunks :: "(manifest_chunk \<times> chunk_id \<times> (box_error + bytes)) list" where
  "two_chunks = [(sample_chunk, ChunkId [1], Inr [1, 2, 3]),
     (sample_chunk\<lparr>mc_offset := Some 3\<rparr>, ChunkId [2], Inr [4, 5, 6])]"

lemma two_chunks_writes:
  "write_at (unat (3 :: 64 word)) [4, 5, 6] [0, 0, 0, 0, 0, 0] = [0, 0, 0, 4, 5, 6 :: 8 word]"
  "write_at (unat (0 :: 64 word)) [1, 2, 3] [0, 0, 0, 4, 5, 6] = [1, 2, 3, 4, 5, 6 :: 8 word]"
  by code_simp+

lemma two_chunks_run:
  "chunk_turns (all_jobs [two_chunks]) [0, 1, 1, 0, 1, 1, 0, 1, 0, 0]
      (chunk_start 2 (all_jobs [two_chunks]) (\<lambda>k. [0, 0, 0, 0, 0, 0])) =
    Some \<lparr>cr_permits = 2, cr_locked = {}, cr_phases = [Ended, Ended],
      cr_contents = (\<lambda>k. [0, 0, 0, 0, 0, 0])(0 := [1, 2, 3, 4, 5, 6]), cr_log = [1, 0]\<rparr>"
  by (simp add: all_jobs_def jobs_of_def enumerate_simps two_chunks_def chunk_start_def chunk_turn_def Let_def
      write_result_def write_chunk_def sample_chunk_def two_chunks_writes [simplified])

theorem chunk_tasks_end_witness:
  "\<exists>order. distinct order \<and> set order = {..<2}
    \<and> fst (fold (finish_chunk (DepotId 1)) (map ((!) two_chunks) order) ([0, 0, 0, 0, 0, 0], [])) = [1, 2, 3, 4, 5, 6]"
proof -
  let ?s = "\<lparr>cr_permits = 2, cr_locked = {}, cr_phases = [Ended, Ended],
      cr_contents = (\<lambda>k. [0, 0, 0, 0, 0, 0])(0 := [1, 2, 3, 4, 5, 6]), cr_log = [1, 0]\<rparr> :: chunk_run"
  have stuck: "\<forall>i. chunk_turn (all_jobs [two_chunks]) i ?s = None"
    by (auto simp: chunk_turn_def Let_def less_Suc_eq)
  have "(0 :: nat) < 2" by simp
  note end_state = chunk_tasks_end [OF this two_chunks_run, of "DepotId 1", THEN conjunct2, THEN conjunct2,
      THEN mp, OF stuck, THEN conjunct2, THEN conjunct2, rule_format, of 0]
  have "length two_chunks = 2" by (simp add: two_chunks_def)
  with end_state show ?thesis by simp metis
qed

end
