(* ===== verification/Spec2Isabelle.thy ===== *)
theory Spec2Isabelle
  imports Key_Value_Text Progress Run_Spec Concurrent Ffi_Spec Interleave_Props Permits
begin

text \<open>
  Verification library of DepotDownloader-rs, a program that logs in to Steam and downloads
  the files of an app.

  \<^bold>\<open>The program.\<close> \<^verbatim>\<open>src/crates/steam\<close> is the client library: the message layer, the
  encrypted connection to a connection manager (CM) server, the requests over it, the CDN
  client and the formats of manifests and chunks. \<^verbatim>\<open>src/crates/steam-client\<close> downloads a
  depot and keeps manifests and tokens on disk. \<^verbatim>\<open>src/crates/depotdownloader\<close> is the command
  line program: it logs in, reads the app metadata, and for every depot obtains the manifest,
  runs the downloader and records what is installed. \<^verbatim>\<open>src/crates/steam-ffi\<close> offers the library
  to C.

  \<^bold>\<open>Theories.\<close> Every definition stands for a function, type or block of the source and keeps
  its name where HOL leaves it free. From the bottom up:

  \<^item> \<^verbatim>\<open>Prelude\<close>: integer types, \<^verbatim>\<open>Result\<close> and \<^verbatim>\<open>Option\<close> combinators, readers of bytes, and the
    locale \<open>wire_codec\<close> of all binary formats that are written and read back. \<^verbatim>\<open>Text\<close>,
    \<^verbatim>\<open>Utf8\<close>, \<^verbatim>\<open>Trim\<close>: what the source uses of Rust strings; a string is the list of its UTF-8
    bytes. \<^verbatim>\<open>Btree\<close>: \<^verbatim>\<open>BTreeMap\<close> and the locale \<open>keyed_map\<close>. \<^verbatim>\<open>Files\<close>: the disk. \<^verbatim>\<open>Steps\<close>: running
    operations one after another with errors and panics.
  \<^item> \<^verbatim>\<open>Enums\<close>, \<^verbatim>\<open>Ids\<close>, \<^verbatim>\<open>Errors\<close>, \<^verbatim>\<open>Emsg\<close>: \<^verbatim>\<open>enums.rs\<close>, \<^verbatim>\<open>types/\<close> and \<^verbatim>\<open>depot/mod.rs\<close>,
    \<^verbatim>\<open>error.rs\<close>, \<^verbatim>\<open>messages/emsg.rs\<close>.
  \<^item> \<^verbatim>\<open>Headers\<close>, \<^verbatim>\<open>Messages\<close>, \<^verbatim>\<open>Framing\<close>: message headers, client messages and bundles, the
    frames on a TCP stream.
  \<^item> \<^verbatim>\<open>Transport\<close>: the trait \<^verbatim>\<open>Transport\<close> as the locales \<open>transport\<close> and
    \<open>sending_transport\<close>, interpreted for TCP, replay and recordings of both.
  \<^item> \<^verbatim>\<open>Crypto\<close>, \<^verbatim>\<open>Checksum\<close>: session cipher, depot decryption, the zero-seeded Adler-32.
  \<^item> \<^verbatim>\<open>Key_Value\<close>, \<^verbatim>\<open>Key_Value_Text\<close>: the tree of app metadata with its two parsers.
  \<^item> \<^verbatim>\<open>Chunk\<close>, \<^verbatim>\<open>Manifest\<close>, \<^verbatim>\<open>Filenames\<close>: \<^verbatim>\<open>depot/chunk.rs\<close> and \<^verbatim>\<open>depot/manifest.rs\<close>.
  \<^item> \<^verbatim>\<open>Client\<close>, \<^verbatim>\<open>Client_Spec\<close>: \<^verbatim>\<open>client/mod.rs\<close>, and its behaviour over any transport that keeps
    the contract. \<^verbatim>\<open>Concurrent\<close>: service calls that wait at the same time, over a transport of
    the locale \<open>failing_transport\<close>. \<^verbatim>\<open>Services\<close>, \<^verbatim>\<open>Services_Spec\<close>: the requests of \<^verbatim>\<open>apps\<close>,
    \<^verbatim>\<open>content\<close> and \<^verbatim>\<open>auth\<close>. \<^verbatim>\<open>Network\<close>: server lists, connecting, CDN urls, lancache.
  \<^item> \<^verbatim>\<open>Store\<close>: the manifest cache, the record of installed manifests, the token store.
  \<^item> \<^verbatim>\<open>Download\<close>, \<^verbatim>\<open>Download_Spec\<close>, \<^verbatim>\<open>Download_Props\<close>: \<^verbatim>\<open>steam-client/src/download.rs\<close>
    with its file tasks one after the other. \<^verbatim>\<open>Interleave\<close>, \<^verbatim>\<open>Interleave_Props\<close>: the same tasks side by side,
    each as the list of its changes to the disk. \<^verbatim>\<open>Permits\<close>: the chunk tasks of all files under the
    semaphore of the job and the locks of their staging files.
  \<^item> \<^verbatim>\<open>Cli\<close>, \<^verbatim>\<open>App_Info\<close>, \<^verbatim>\<open>Login\<close>, \<^verbatim>\<open>Login_Spec\<close>, \<^verbatim>\<open>Depot_Run\<close>, \<^verbatim>\<open>Depot_Run_Spec\<close>,
    \<^verbatim>\<open>Commands\<close>, \<^verbatim>\<open>Commands_Spec\<close>, \<^verbatim>\<open>Run_Spec\<close>, \<^verbatim>\<open>Progress\<close>: the program, up to its exit code and
    the lines it prints.
  \<^item> \<^verbatim>\<open>Ffi\<close>, \<^verbatim>\<open>Ffi_Spec\<close>: the C interface.

  \<^bold>\<open>State.\<close> The client is the record \<^typ>\<open>'t client\<close> over the state of its transport; a run of a
  command threads a client and the disk. A fallible operation returns a sum, \<^const>\<open>Inl\<close> the
  error; an operation that can panic or wait forever returns an option, \<^const>\<open>None\<close> then. Machine
  integers are words of their width.
\<close>

text \<open>
  \<^bold>\<open>What the lemmas show.\<close>
  \<^item> Formats: frames, headers, bundles, both KeyValue formats, version 4 manifests and cache
    entries are read back as written, and the parsers of the message layer accept nothing else.
  \<^item> Client: every receive returns, the loop is a queue over packets and unpacked bundles, a
    service call returns the answer to its own job and forwards the messages before it, no job
    is ever pending, handshake and login succeed only on the answers that say so. However calls
    are interleaved, no message is lost or delivered twice; but a call can take the answer of
    another one, which then never succeeds.
  \<^item> Login: servers in order, at most three passwords, tokens remembered, and every login ends.
  \<^item> Data: a chunk is accepted exactly if it decrypts and decompresses to the size and checksum
    stated; the checksum is the mathematical one; names are decrypted, normalised and sorted.
  \<^item> Downloader: a file is installed complete or not at all, by a rename; a job that succeeds has
    installed all files that it wanted and removed those of the old manifest only; a chunk is
    tried a bounded number of times. A job can be killed at any point of any interleaving of its
    tasks, and the disk can fail them, without damage to an installed file; it can be taken up
    again; and what it ends with does not depend on the interleaving. Its chunk tasks never block
    each other for good, and write in some order. Counterexamples show the cases that are not
    covered: reused chunks are not verified, and equal chunks in one file confuse the resume.
  \<^item> Whole program: the download command installs depots in order up to the first failure, and
    the record of installed manifests names exactly what was installed; installing again
    changes nothing; a later delta compares with the manifest as it was obtained; three commands
    leave the disk alone, and the program always comes to an exit code.
  \<^item> C interface: the methods of a handle are a simulation of an automaton with three states,
    from which the order of all sessions follows.

  \<^bold>\<open>Recursion and bounds.\<close> Structural recursion, or a measure on the input that is left, for all
  parsers and for the retry and password loops (at most \<^verbatim>\<open>max_attempts\<close> and three passes). The
  receive, response, login and polling loops are partial functions with no fuel: that they
  return is a theorem each, from the number of messages left on the connection.

  \<^bold>\<open>Arguments.\<close> What is not in the repository is an argument: ciphers, hashes, decompressors, ZIP,
  prost's codecs, JSON, base64, regular expressions, dates, the text of foreign errors, sockets,
  DNS, HTTP, random bytes and the terminal. Laws on them are hypotheses of the theorems that
  need them, and the witnesses instantiate them. The orders in which concurrent tasks run, and
  the answers of the network to each attempt, are arguments too, so that the theorems hold for
  all of them; an order is assumed to run every task once.

  \<^bold>\<open>Simplifications.\<close> The byte-level parser combinators of winnow and the byte order readers are
  modelled by their documented behaviour. A method of the client runs from its start to its end,
  except for service calls in \<^verbatim>\<open>Concurrent\<close>, which are interleaved at their awaits. A file task
  reads the disk when it begins, and a write is done when \<^verbatim>\<open>write_all\<close> returns (tokio may still
  be at it). On the disk, directories exist when they are needed, writing succeeds except in
  \<^verbatim>\<open>Interleave\<close>, and two spellings of one path are two paths. The number of parallel downloads
  is positive, and offsets in files are below \<open>2 ^ 63\<close>. Intervals of the server are the bits of
  a float with two tests on it.

  \<^bold>\<open>Not modelled.\<close> Logging; the drawing of the progress bar; the splitting of the command line by
  clap; the code that prost and diplomat generate, and module declarations; the creation of the
  tokio runtime and of HTTP clients, which can fail only for lack of resources; tests, examples
  and scripts. Recursion of the KeyValue parsers deep enough to exhaust the stack is no error
  here. Of the program's behaviour over time only the order of effects is modelled, not delays.
\<close>

end
